theory Spec2Isabelle
  imports Main
begin

section \<open>Python values and strings\<close>

text \<open>
  The generator works on the tree that the YAML parser returns. The code applies only
  four operations to a node of that tree: \<^verbatim>\<open>str()\<close>, \<^verbatim>\<open>isinstance(_, list)\<close>,
  \<^verbatim>\<open>isinstance(_, dict)\<close> and key lookup or iteration. A node is therefore
  \<^item> \<^verbatim>\<open>None\<close>, a boolean, an integer or a string,
  \<^item> a list or a dictionary (in insertion order, keys are strings as the annotation
    \<^verbatim>\<open>dict[str, object]\<close> says),
  \<^item> or a value of any other type (a float, a date, ...), given by the two texts that
    \<^verbatim>\<open>str()\<close> and \<^verbatim>\<open>repr()\<close> return for it.

  A Python string is a list of code points; a \<^typ>\<open>char\<close> stands for the code point
  of the same number, so the model covers the code points below 256.
\<close>

datatype pyval =
    PNone
  | PBool bool
  | PInt int
  | PStr string
  | PList "pyval list"
  | PDict "(string \<times> pyval) list"
  | POther string string

type_synonym pydict = "(string \<times> pyval) list"

text \<open>\<^verbatim>\<open>d[k]\<close>: the value, or \<^verbatim>\<open>KeyError\<close> (here \<open>None\<close>).\<close>

definition dict_get :: "(string \<times> 'v) list \<Rightarrow> string \<Rightarrow> 'v option" where
  "dict_get d k = map_of d k"

text \<open>\<^verbatim>\<open>d[k] = v\<close>: an existing key keeps its position, a new key goes last.\<close>

fun dict_set :: "(string \<times> 'v) list \<Rightarrow> string \<Rightarrow> 'v \<Rightarrow> (string \<times> 'v) list" where
  "dict_set [] k v = [(k, v)]"
| "dict_set ((k', v') # d) k v = (if k' = k then (k, v) # d else (k', v') # dict_set d k v)"

text \<open>\<^verbatim>\<open>sep.join(xs)\<close>\<close>

fun py_join :: "string \<Rightarrow> string list \<Rightarrow> string" where
  "py_join sep [] = []"
| "py_join sep [x] = x"
| "py_join sep (x # y # ys) = x @ sep @ py_join sep (y # ys)"

text \<open>\<^verbatim>\<open>s.replace(old, new)\<close> for one-character \<open>old\<close> and \<open>new\<close>.\<close>

definition py_replace :: "char \<Rightarrow> char \<Rightarrow> string \<Rightarrow> string" where
  "py_replace old new s = map (\<lambda>c. if c = old then new else c) s"

text \<open>\<^verbatim>\<open>s.replace(old, new)\<close> for a one-character \<open>old\<close> and any \<open>new\<close>.\<close>

definition py_replace_str :: "char \<Rightarrow> string \<Rightarrow> string \<Rightarrow> string" where
  "py_replace_str old new s = concat (map (\<lambda>c. if c = old then new else [c]) s)"

text \<open>
  \<^verbatim>\<open>s.rstrip(chars)\<close> removes the longest suffix made of characters of \<open>chars\<close>;
  \<^verbatim>\<open>s.rstrip()\<close> removes the longest suffix of white space. Below 256 the white-space
  code points of Python are 9 to 13, 28 to 32, 133 and 160.
\<close>

definition py_rstrip_chars :: "string \<Rightarrow> string \<Rightarrow> string" where
  "py_rstrip_chars chars s = rev (dropWhile (\<lambda>c. c \<in> set chars) (rev s))"

definition py_isspace :: "char \<Rightarrow> bool" where
  "py_isspace c = (let n = (of_char c :: nat) in
     (9 \<le> n \<and> n \<le> 13) \<or> (28 \<le> n \<and> n \<le> 32) \<or> n = 133 \<or> n = 160)"

definition py_rstrip :: "string \<Rightarrow> string" where
  "py_rstrip s = rev (dropWhile py_isspace (rev s))"

subsection \<open>\<^verbatim>\<open>str()\<close> and \<^verbatim>\<open>repr()\<close>\<close>

fun str_of_nat :: "nat \<Rightarrow> string" where
  "str_of_nat n =
     (if n < 10 then [''0123456789'' ! n]
      else str_of_nat (n div 10) @ [''0123456789'' ! (n mod 10)])"

definition str_of_int :: "int \<Rightarrow> string" where
  "str_of_int i = (if i < 0 then ''-'' @ str_of_nat (nat (- i)) else str_of_nat (nat i))"

definition backslash :: char where
  "backslash = CHR 0x5C"

definition hex2 :: "nat \<Rightarrow> string" where
  "hex2 n = [''0123456789abcdef'' ! (n div 16), ''0123456789abcdef'' ! (n mod 16)]"

text \<open>
  \<^verbatim>\<open>repr()\<close> of a string: single quotes unless the string has a single and no double
  quote; the quote and the backslash are escaped, tab, newline and carriage return are
  written \<^verbatim>\<open>\t \n \r\<close>, the other non-printable code points as \<^verbatim>\<open>\xhh\<close>.
\<close>

definition repr_char :: "char \<Rightarrow> char \<Rightarrow> string" where
  "repr_char q c = (let n = (of_char c :: nat) in
     if c = q \<or> c = backslash then [backslash, c]
     else if n = 9 then [backslash, CHR ''t'']
     else if n = 10 then [backslash, CHR ''n'']
     else if n = 13 then [backslash, CHR ''r'']
     else if n < 32 \<or> n = 127 \<or> (128 \<le> n \<and> n \<le> 160) \<or> n = 173
       then [backslash, CHR ''x''] @ hex2 n
     else [c])"

definition repr_str :: "string \<Rightarrow> string" where
  "repr_str s = (let q = (if CHR 0x27 \<in> set s \<and> CHR 0x22 \<notin> set s then CHR 0x22 else CHR 0x27)
     in [q] @ concat (map (repr_char q) s) @ [q])"

fun py_repr :: "pyval \<Rightarrow> string" where
  "py_repr PNone = ''None''"
| "py_repr (PBool b) = (if b then ''True'' else ''False'')"
| "py_repr (PInt i) = str_of_int i"
| "py_repr (PStr s) = repr_str s"
| "py_repr (PList xs) = ''['' @ py_join '', '' (map py_repr xs) @ '']''"
| "py_repr (PDict d) =
     ''{'' @ py_join '', '' (map (\<lambda>kv. repr_str (fst kv) @ '': '' @ py_repr (snd kv)) d) @ ''}''"
| "py_repr (POther s r) = r"

definition py_str :: "pyval \<Rightarrow> string" where
  "py_str v = (case v of PStr s \<Rightarrow> s | POther s r \<Rightarrow> s | _ \<Rightarrow> py_repr v)"

section \<open>Derived names\<close>

text \<open>
  \<^verbatim>\<open>def normalize_package_name(project_name):
      return project_name.replace("-", "_").replace(" ", "_")\<close>
\<close>

definition normalize_package_name :: "string \<Rightarrow> string" where
  "normalize_package_name project_name =
     py_replace (CHR '' '') (CHR ''_'') (py_replace (CHR ''-'') (CHR ''_'') project_name)"

section \<open>Errors\<close>

text \<open>
  Every exception the program can raise is a value. \<open>ConfigError\<close>, \<open>FileNotFoundError\<close>
  and \<open>FileExistsError\<close> carry the message of the \<^verbatim>\<open>raise\<close> statement;
  \<open>OSError\<close> is an exception raised by a call of the operating system, with its error
  number and the path; \<open>YAMLError\<close> is a failure of the external parser.
\<close>

datatype errno = ENOENT | ENOTDIR | EEXIST | EISDIR

datatype error =
    ConfigError string
  | FileNotFoundError string
  | FileExistsError string
  | OSError errno "string list"
  | YAMLError

definition bind :: "error + 'a \<Rightarrow> ('a \<Rightarrow> error + 'b) \<Rightarrow> error + 'b" where
  "bind r f = (case r of Inl e \<Rightarrow> Inl e | Inr x \<Rightarrow> f x)"

section \<open>The configuration resolver\<close>

record author =
  name :: string
  email :: string

type_synonym groups = "(string \<times> string list) list"

record ProjectConfig =
  project_name :: string
  description :: string
  project_url :: string
  authors :: "author list"
  dependencies :: "string list"
  dependency_groups :: groups
  dev_extras :: "string list"

definition DEFAULT_DEPENDENCY_GROUPS :: groups where
  \<open>DEFAULT_DEPENDENCY_GROUPS =
    [(''test'', [''pytest >=7'', ''pytest-cov >=3'', ''coverage[toml]'']),
     (''docs'',
       [''sphinx>=7'',
        ''furo'',
        ''myst-parser<5'',
        ''sphinx-design'',
        ''sphinx-togglebutton'',
        ''sphinx-copybutton'',
        ''sphinx-autodoc-typehints'',
        ''myst-nb'',
        ''sphinxcontrib-mermaid'']),
     (''examples'',
       [''rich'',
        ''matplotlib>=3.10.7''])]\<close>

definition DEV_BASELINE :: "string list" where
  "DEV_BASELINE = [''ipython'', ''ruff'', ''pre_commit'', ''mypy'']"

text \<open>
  \<open>coerce_config\<close> is seven stanzas in a row, one for each field, each reading only
  \<open>raw\<close>; the first one that raises ends the call. Each stanza is a function here, and
  \<open>coerce_config\<close> runs them in the order of the source.

  The stanza of a scalar field \<open>k\<close>:
  \<^verbatim>\<open>try: x = str(raw[k])
  except KeyError as exc: raise ConfigError("Missing 'k' in configuration") from exc\<close>
\<close>

definition missing :: "string \<Rightarrow> string" where
  \<open>missing k = ''Missing '' @ [CHR 0x27] @ k @ ''\' in configuration''\<close>

definition coerce_scalar :: "pydict \<Rightarrow> string \<Rightarrow> error + string" where
  "coerce_scalar raw k =
     (case dict_get raw k of
        None \<Rightarrow> Inl (ConfigError (missing k))
      | Some v \<Rightarrow> Inr (py_str v))"

text \<open>
  The loop over the author entries:
  \<^verbatim>\<open>for entry in authors_raw:
      if not isinstance(entry, dict):
          raise ConfigError("Each author entry must be a mapping with name/email")
      try:
          name = str(entry["name"]); email = str(entry["email"])
      except KeyError as exc:
          raise ConfigError("Author entries require 'name' and 'email'") from exc
      authors.append({"name": name, "email": email})\<close>
\<close>

fun coerce_author_entries :: "author list \<Rightarrow> pyval list \<Rightarrow> error + author list" where
  \<open>coerce_author_entries acc [] = Inr acc\<close>
| \<open>coerce_author_entries acc (entry # rest) =
     (case entry of
        PDict d \<Rightarrow>
          (case dict_get d ''name'' of
             None \<Rightarrow> Inl (ConfigError (''Author entries require \'name\' and \'email'' @ [CHR 0x27]))
           | Some n \<Rightarrow>
               (case dict_get d ''email'' of
                  None \<Rightarrow> Inl (ConfigError (''Author entries require \'name\' and \'email'' @ [CHR 0x27]))
                | Some m \<Rightarrow>
                    coerce_author_entries (acc @ [\<lparr>name = py_str n, email = py_str m\<rparr>]) rest))
      | _ \<Rightarrow> Inl (ConfigError ''Each author entry must be a mapping with name/email''))\<close>

definition coerce_authors :: "pydict \<Rightarrow> error + author list" where
  \<open>coerce_authors raw =
     (case dict_get raw ''authors'' of
        None \<Rightarrow> Inl (ConfigError (missing ''authors''))
      | Some authors_raw \<Rightarrow>
          (case authors_raw of
             PList entries \<Rightarrow>
               if entries = [] then Inl (ConfigError ''\'authors\' must contain at least one entry'')
               else coerce_author_entries [] entries
           | _ \<Rightarrow> Inl (ConfigError ''\'authors\' must be a list'')))\<close>

text \<open>
  The stanza of \<open>dependencies\<close> and of \<open>dev_extras\<close>:
  \<^verbatim>\<open>try: xs_raw = raw[k]
  except KeyError as exc: raise ConfigError("Missing 'k' in configuration") from exc
  if not isinstance(xs_raw, list): raise ConfigError("'k' must be a list")
  xs = [str(dep) for dep in xs_raw]\<close>
\<close>

definition coerce_list :: "pydict \<Rightarrow> string \<Rightarrow> error + string list" where
  \<open>coerce_list raw k =
     (case dict_get raw k of
        None \<Rightarrow> Inl (ConfigError (missing k))
      | Some xs_raw \<Rightarrow>
          (case xs_raw of
             PList xs \<Rightarrow> Inr (map py_str xs)
           | _ \<Rightarrow> Inl (ConfigError ([CHR 0x27] @ k @ ''\' must be a list''))))\<close>

text \<open>
  The loop over the groups of the caller:
  \<^verbatim>\<open>for group_name, deps in groups_raw.items():
      if not isinstance(deps, list):
          raise ConfigError(f"Dependency group '{group_name}' must be a list")
      dependency_groups[group_name] = [str(dep) for dep in deps]\<close>
\<close>

fun overlay_groups :: "groups \<Rightarrow> pydict \<Rightarrow> error + groups" where
  \<open>overlay_groups acc [] = Inr acc\<close>
| \<open>overlay_groups acc ((group_name, deps) # rest) =
     (case deps of
        PList ds \<Rightarrow> overlay_groups (dict_set acc group_name (map py_str ds)) rest
      | _ \<Rightarrow> Inl (ConfigError (''Dependency group '' @ [CHR 0x27] @ group_name @ ''\' must be a list'')))\<close>

text \<open>
  The dictionary comprehension over \<open>DEFAULT_DEPENDENCY_GROUPS\<close> copies the defaults:
  \<^verbatim>\<open>str\<close> of a string is the string.
\<close>

definition coerce_groups :: "pydict \<Rightarrow> error + groups" where
  \<open>coerce_groups raw =
     (case dict_get raw ''dependency_groups'' of
        None \<Rightarrow> Inl (ConfigError (missing ''dependency_groups''))
      | Some groups_raw \<Rightarrow>
          (case groups_raw of
             PDict g \<Rightarrow>
               overlay_groups (map (\<lambda>(key, value). (key, map (\<lambda>dep. dep) value)) DEFAULT_DEPENDENCY_GROUPS) g
           | _ \<Rightarrow> Inl (ConfigError ''\'dependency_groups\' must be a mapping'')))\<close>

definition coerce_config :: "pydict \<Rightarrow> error + ProjectConfig" where
  \<open>coerce_config raw =
     bind (coerce_scalar raw ''project_name'') (\<lambda>project_name.
     bind (coerce_scalar raw ''description'') (\<lambda>description.
     bind (coerce_scalar raw ''project_url'') (\<lambda>project_url.
     bind (coerce_authors raw) (\<lambda>authors.
     bind (coerce_list raw ''dependencies'') (\<lambda>dependencies.
     bind (coerce_groups raw) (\<lambda>dependency_groups.
     bind (coerce_list raw ''dev_extras'') (\<lambda>dev_extras.
       Inr \<lparr>project_name = project_name,
            description = description,
            project_url = py_rstrip_chars ''/'' project_url,
            authors = authors,
            dependencies = dependencies,
            dependency_groups = dependency_groups,
            dev_extras = dev_extras\<rparr>)))))))\<close>

section \<open>Rendering\<close>

text \<open>
  \<^verbatim>\<open>def format_authors(authors):
      if not authors:
          return "    { name = \"Mo\", email = \"todo@example.com\" },"
      lines = []
      for author in authors:
          lines.append(f'    {{ name = "{author["name"]}", email = "{author["email"]}" }},')
      return "\n".join(lines)\<close>
  A \<^verbatim>\<open>for\<close> loop that appends to a list is a \<open>foldl\<close> over the list.
\<close>

definition format_authors :: "author list \<Rightarrow> string" where
  \<open>format_authors as =
     (if as = [] then ''    { name = "Mo", email = "todo@example.com" },''
      else py_join ''\<newline>''
        (foldl (\<lambda>lines a. lines @ [''    { name = "'' @ name a @ ''", email = "'' @ email a @ ''" },'']) [] as))\<close>

text \<open>
  \<^verbatim>\<open>def format_string_array(values, indent=4):
      if not values:
          return f'{" " * indent}# Add entries here'
      return "\n".join(f'{" " * indent}"{value}",' for value in values)\<close>
\<close>

definition format_string_array :: "string list \<Rightarrow> nat \<Rightarrow> string" where
  \<open>format_string_array values indent =
     (if values = [] then replicate indent (CHR '' '') @ ''# Add entries here''
      else py_join ''\<newline>'' (map (\<lambda>v. replicate indent (CHR '' '') @ ''"'' @ v @ ''",'') values))\<close>

text \<open>
  \<^verbatim>\<open>def format_dependency_groups(groups, extra_dev):
      output_lines = []
      for group_name, deps in groups.items():
          if group_name == "dev":
              continue
          output_lines.append(f"{group_name} = [")
          output_lines.append(format_string_array(deps))
          output_lines.append("]\n")
      include_groups = [name for name in groups.keys() if name != "dev"]
      output_lines.append("dev = [")
      for group in include_groups:
          output_lines.append(f'    {{ include-group = "{group}" }},')
      for dep in DEV_BASELINE + extra_dev:
          output_lines.append(f'    "{dep}",')
      output_lines.append("]")
      return "\n".join(output_lines)\<close>
\<close>

definition format_dependency_groups :: "groups \<Rightarrow> string list \<Rightarrow> string" where
  \<open>format_dependency_groups groups extra_dev =
     (let output_lines = [];
          output_lines =
            foldl (\<lambda>out (group_name, deps).
                     if group_name = ''dev'' then out
                     else out @ [group_name @ '' = [''] @ [format_string_array deps 4] @ ['']\<newline>''])
              output_lines groups;
          include_groups = filter (\<lambda>n. n \<noteq> ''dev'') (map fst groups);
          output_lines = output_lines @ [''dev = [''];
          output_lines =
            foldl (\<lambda>out group. out @ [''    { include-group = "'' @ group @ ''" },''])
              output_lines include_groups;
          output_lines =
            foldl (\<lambda>out dep. out @ [''    "'' @ dep @ ''",'']) output_lines (DEV_BASELINE @ extra_dev);
          output_lines = output_lines @ ['']'']
      in py_join ''\<newline>'' output_lines)\<close>

text \<open>
  \<^verbatim>\<open>def escape_toml_string(value):
      return value.replace("\\", "\\\\").replace('"', '\\"')\<close>
\<close>

definition escape_toml_string :: "string \<Rightarrow> string" where
  \<open>escape_toml_string v =
     py_replace_str (CHR ''"'') [backslash, CHR ''"'']
       (py_replace_str backslash [backslash, backslash] v)\<close>

text \<open>
  \<^verbatim>\<open>def build_author_label(authors, project_name):
      if not authors:
          return f"{project_name} developers"
      return ", ".join(author["name"] for author in authors)\<close>
\<close>

definition build_author_label :: "author list \<Rightarrow> string \<Rightarrow> string" where
  \<open>build_author_label as pname =
     (if as = [] then pname @ '' developers''
      else py_join '', '' (map name as))\<close>

section \<open>The checking order\<close>

text \<open>
  The order in which \<open>coerce_config\<close> runs its stanzas, and what the stanza of one field
  raises when it is run alone on \<open>raw\<close>.
\<close>

definition checking_order :: "string list" where
  "checking_order = [''project_name'', ''description'', ''project_url'', ''authors'',
     ''dependencies'', ''dependency_groups'', ''dev_extras'']"

definition failure :: "error + 'a \<Rightarrow> error option" where
  "failure r = (case r of Inl e \<Rightarrow> Some e | Inr x \<Rightarrow> None)"

definition field_failure :: "pydict \<Rightarrow> string \<Rightarrow> error option" where
  "field_failure raw f =
     (if f = ''project_name'' \<or> f = ''description'' \<or> f = ''project_url''
        then failure (coerce_scalar raw f)
      else if f = ''authors'' then failure (coerce_authors raw)
      else if f = ''dependencies'' \<or> f = ''dev_extras'' then failure (coerce_list raw f)
      else if f = ''dependency_groups'' then failure (coerce_groups raw)
      else None)"

section \<open>Paths and the file system\<close>

text \<open>
  A \<^verbatim>\<open>pathlib\<close> path is the list of its components under the root \<^verbatim>\<open>/\<close>; every path
  of the program is absolute, since the destination is resolved first. \<^verbatim>\<open>pathlib\<close> drops
  empty components and \<^verbatim>\<open>.\<close> when it parses a string, keeps \<^verbatim>\<open>..\<close>, and joining with an
  absolute string gives that string's path.
\<close>

type_synonym path = "string list"

text \<open>\<^verbatim>\<open>s.split(sep)\<close> for a one-character separator.\<close>

fun split_acc :: "char \<Rightarrow> string \<Rightarrow> string \<Rightarrow> string list" where
  "split_acc sep cur [] = [rev cur]"
| "split_acc sep cur (c # cs) =
     (if c = sep then rev cur # split_acc sep [] cs else split_acc sep (c # cur) cs)"

definition py_split :: "char \<Rightarrow> string \<Rightarrow> string list" where
  "py_split sep s = split_acc sep [] s"

definition parse_parts :: "string \<Rightarrow> path" where
  "parse_parts s = filter (\<lambda>c. c \<noteq> [] \<and> c \<noteq> ''.'') (py_split (CHR ''/'') s)"

text \<open>\<^verbatim>\<open>p / s\<close>\<close>

definition path_div :: "path \<Rightarrow> string \<Rightarrow> path" where
  "path_div p s = (if s \<noteq> [] \<and> hd s = CHR ''/'' then parse_parts s else p @ parse_parts s)"

text \<open>\<^verbatim>\<open>str(p)\<close>\<close>

definition path_str :: "path \<Rightarrow> string" where
  "path_str p = (if p = [] then ''/'' else concat (map (\<lambda>c. ''/'' @ c) p))"

text \<open>
  The file system holds directories and regular files (no symbolic links, no permissions,
  no limits on names), under the canonical paths (no \<^verbatim>\<open>..\<close>) of its nodes. The operating
  system follows a path one component at a time: each node it passes must be a directory,
  and \<^verbatim>\<open>..\<close> goes to the parent. \<open>walk fs cur cs\<close> is the canonical path it reaches from
  \<open>cur\<close> along \<open>cs\<close>; the node at the end need not exist.
\<close>

datatype node = Dir | File string

type_synonym fs = "path \<Rightarrow> node option"

fun walk :: "fs \<Rightarrow> path \<Rightarrow> string list \<Rightarrow> errno + path" where
  "walk fs cur [] = Inr cur"
| "walk fs cur (c # cs) =
     (case fs cur of
        None \<Rightarrow> Inl ENOENT
      | Some (File t) \<Rightarrow> Inl ENOTDIR
      | Some Dir \<Rightarrow> walk fs (if c = ''..'' then butlast cur else cur @ [c]) cs)"

text \<open>\<^verbatim>\<open>os.stat(p)\<close>: the canonical path of the node and the node.\<close>

definition stat :: "fs \<Rightarrow> path \<Rightarrow> errno + (path \<times> node)" where
  "stat fs p =
     (case walk fs [] p of
        Inl e \<Rightarrow> Inl e
      | Inr q \<Rightarrow> (case fs q of None \<Rightarrow> Inl ENOENT | Some n \<Rightarrow> Inr (q, n)))"

text \<open>\<^verbatim>\<open>p.exists()\<close> and \<^verbatim>\<open>p.is_dir()\<close>: false when \<^verbatim>\<open>stat\<close> fails.\<close>

definition path_exists :: "fs \<Rightarrow> path \<Rightarrow> bool" where
  "path_exists fs p = (case stat fs p of Inl e \<Rightarrow> False | Inr x \<Rightarrow> True)"

definition is_dir :: "fs \<Rightarrow> path \<Rightarrow> bool" where
  "is_dir fs p = (case stat fs p of Inr (q, Dir) \<Rightarrow> True | _ \<Rightarrow> False)"

text \<open>
  Where the last component of \<open>p\<close> would be created: the operating system follows the
  path to the parent, which must be a directory. The root and a path that ends in
  \<^verbatim>\<open>..\<close> name a directory that is there already.
\<close>

datatype target = Existing_Dir | Slot path

definition locate :: "fs \<Rightarrow> path \<Rightarrow> errno + target" where
  "locate fs p =
     (if p = [] then Inr Existing_Dir
      else case walk fs [] (butlast p) of
        Inl e \<Rightarrow> Inl e
      | Inr par \<Rightarrow>
          (case fs par of
             None \<Rightarrow> Inl ENOENT
           | Some (File t) \<Rightarrow> Inl ENOTDIR
           | Some Dir \<Rightarrow> if last p = ''..'' then Inr Existing_Dir else Inr (Slot (par @ [last p]))))"

text \<open>\<^verbatim>\<open>os.mkdir(p)\<close>\<close>

definition os_mkdir :: "fs \<Rightarrow> path \<Rightarrow> errno + fs" where
  "os_mkdir fs p =
     (case locate fs p of
        Inl e \<Rightarrow> Inl e
      | Inr Existing_Dir \<Rightarrow> Inl EEXIST
      | Inr (Slot q) \<Rightarrow> (case fs q of None \<Rightarrow> Inr (fs(q \<mapsto> Dir)) | Some n \<Rightarrow> Inl EEXIST))"

text \<open>
  \<^verbatim>\<open>Path.mkdir(parents, exist_ok=True)\<close> of \<^verbatim>\<open>pathlib\<close>:
  \<^verbatim>\<open>try:
      os.mkdir(self, mode)
  except FileNotFoundError:
      if not parents or self.parent == self:
          raise
      self.parent.mkdir(parents=True, exist_ok=True)
      self.mkdir(mode, parents=False, exist_ok=exist_ok)
  except OSError:
      if not exist_ok or not self.is_dir():
          raise\<close>
  The result is the file system, changed as far as the call got, and the exception if
  there is one.
\<close>

definition mkdir_exist_ok :: "fs \<Rightarrow> path \<Rightarrow> fs \<times> error option" where
  "mkdir_exist_ok fs p =
     (case os_mkdir fs p of
        Inr fs' \<Rightarrow> (fs', None)
      | Inl e \<Rightarrow>
          if e = ENOENT then (fs, Some (OSError ENOENT p))
          else if is_dir fs p then (fs, None)
          else (fs, Some (OSError e p)))"

function mkdir_parents :: "fs \<Rightarrow> path \<Rightarrow> fs \<times> error option" where
  "mkdir_parents fs p =
     (case os_mkdir fs p of
        Inr fs' \<Rightarrow> (fs', None)
      | Inl e \<Rightarrow>
          if e = ENOENT then
            (if p = [] then (fs, Some (OSError ENOENT p))
             else case mkdir_parents fs (butlast p) of
               (fs1, Some err) \<Rightarrow> (fs1, Some err)
             | (fs1, None) \<Rightarrow> mkdir_exist_ok fs1 p)
          else if is_dir fs p then (fs, None)
          else (fs, Some (OSError e p)))"
  by pat_completeness auto
termination
  by (relation "measure (\<lambda>(fs, p). length p)") auto

text \<open>
  \<^verbatim>\<open>def ensure_directory(path):
      path.mkdir(parents=True, exist_ok=True)\<close>
\<close>

definition ensure_directory :: "fs \<Rightarrow> path \<Rightarrow> fs \<times> error option" where
  "ensure_directory fs p = mkdir_parents fs p"

text \<open>\<^verbatim>\<open>p.write_text(content)\<close>: creates the file or replaces its content.\<close>

definition write_text :: "fs \<Rightarrow> path \<Rightarrow> string \<Rightarrow> fs \<times> error option" where
  "write_text fs p content =
     (case locate fs p of
        Inl e \<Rightarrow> (fs, Some (OSError e p))
      | Inr Existing_Dir \<Rightarrow> (fs, Some (OSError EISDIR p))
      | Inr (Slot q) \<Rightarrow>
          (case fs q of
             Some Dir \<Rightarrow> (fs, Some (OSError EISDIR p))
           | _ \<Rightarrow> (fs(q \<mapsto> File content), None)))"

text \<open>\<^verbatim>\<open>p.read_text()\<close>\<close>

definition read_text :: "fs \<Rightarrow> path \<Rightarrow> error + string" where
  "read_text fs p =
     (case stat fs p of
        Inl e \<Rightarrow> Inl (OSError e p)
      | Inr (q, Dir) \<Rightarrow> Inl (OSError EISDIR p)
      | Inr (q, File t) \<Rightarrow> Inr t)"

text \<open>
  \<^verbatim>\<open>def write_file(path, content):
      path.write_text(content.rstrip() + "\n", encoding="utf-8")\<close>
  The bytes of the file are the UTF-8 encoding of this text, which is one-to-one; a file
  of the model holds the text.
\<close>

definition write_file :: "fs \<Rightarrow> path \<Rightarrow> string \<Rightarrow> fs \<times> error option" where
  "write_file fs p content = write_text fs p (py_rstrip content @ ''\<newline>'')"

text \<open>
  A run of calls, each on the file system the one before has left; the first exception
  ends the run.
\<close>

fun ensure_directories :: "fs \<Rightarrow> path list \<Rightarrow> fs \<times> error option" where
  "ensure_directories fs [] = (fs, None)"
| "ensure_directories fs (d # ds) =
     (case ensure_directory fs d of
        (fs1, Some err) \<Rightarrow> (fs1, Some err)
      | (fs1, None) \<Rightarrow> ensure_directories fs1 ds)"

fun write_files :: "fs \<Rightarrow> (path \<times> string) list \<Rightarrow> fs \<times> error option" where
  "write_files fs [] = (fs, None)"
| "write_files fs ((p, content) # rest) =
     (case write_file fs p content of
        (fs1, Some err) \<Rightarrow> (fs1, Some err)
      | (fs1, None) \<Rightarrow> write_files fs1 rest)"

section \<open>The templates\<close>

text \<open>
  The literal bodies of the generated files, one source line on each line. A constant that
  the source passes through \<^verbatim>\<open>dedent\<close> is given as \<^verbatim>\<open>dedent\<close> returns it. A template that
  the source fills by \<^verbatim>\<open>str.format\<close>, \<^verbatim>\<open>Template.substitute\<close> or as an f-string is the
  function of the values filled in. The licence is cut after its copyright line, the
  Sphinx configuration before and after its \<^verbatim>\<open>author\<close> line and its
  \<^verbatim>\<open>source_repository\<close> line, and the manifest (\<open>pyproject_text\<close>) at the line of its
  dependency groups and before and after its \<^verbatim>\<open>[project.urls]\<close> section.
\<close>

definition PRE_COMMIT_CONFIG :: "string" where
  \<open>PRE_COMMIT_CONFIG =
     ''ci:\<newline>'' @
     ''  autoupdate_commit_msg: "chore: update pre-commit hooks"\<newline>'' @
     ''  autofix_commit_msg: "style: pre-commit fixes"\<newline>'' @
     ''\<newline>'' @
     ''repos:\<newline>'' @
     ''  - repo: https://github.com/pre-commit/pre-commit-hooks\<newline>'' @
     ''    rev: "v6.0.0"\<newline>'' @
     ''    hooks:\<newline>'' @
     ''      - id: check-added-large-files\<newline>'' @
     ''      - id: check-case-conflict\<newline>'' @
     ''      - id: check-merge-conflict\<newline>'' @
     ''      - id: check-symlinks\<newline>'' @
     ''      - id: check-yaml\<newline>'' @
     ''      - id: debug-statements\<newline>'' @
     ''      - id: end-of-file-fixer\<newline>'' @
     ''      - id: mixed-line-ending\<newline>'' @
     ''      - id: name-tests-test\<newline>'' @
     ''        args: ["--pytest-test-first"]\<newline>'' @
     ''      - id: trailing-whitespace\<newline>'' @
     ''\<newline>'' @
     ''  - repo: https://github.com/astral-sh/ruff-pre-commit\<newline>'' @
     ''    rev: "v0.12.9"\<newline>'' @
     ''    hooks:\<newline>'' @
     ''      - id: ruff\<newline>'' @
     ''        args: ["--fix", "--show-fixes"]\<newline>'' @
     ''      - id: ruff-format\<newline>'' @
     ''\<newline>'' @
     ''  - repo: https://github.com/pre-commit/mirrors-mypy\<newline>'' @
     ''    rev: "v1.17.1"\<newline>'' @
     ''    hooks:\<newline>'' @
     ''      - id: mypy\<newline>'' @
     ''        files: src|tests\<newline>'' @
     ''        args: [--config-file=pyproject.toml]\<newline>'' @
     ''        additional_dependencies:\<newline>'' @
     ''          - pytest\<newline>'' @
     ''\<newline>'' @
     ''  - repo: https://github.com/shellcheck-py/shellcheck-py\<newline>'' @
     ''    rev: "v0.11.0.1"\<newline>'' @
     ''    hooks:\<newline>'' @
     ''      - id: shellcheck\<newline>'' @
     ''\<newline>'' @
     ''  - repo: https://github.com/adamchainz/blacken-docs\<newline>'' @
     ''    rev: "1.19.1"\<newline>'' @
     ''    hooks:\<newline>'' @
     ''      - id: blacken-docs\<newline>'' @
     ''        additional_dependencies:\<newline>'' @
     ''          - black==24.10.0\<newline>'' @
     ''\<newline>'' @
     ''  - repo: https://github.com/codespell-project/codespell\<newline>'' @
     ''    rev: v2.4.1\<newline>'' @
     ''    hooks:\<newline>'' @
     ''      - id: codespell\<newline>'' @
     ''        exclude: ^(LICENSE$)\<newline>'' @
     ''\<newline>'' @
     ''  - repo: https://github.com/henryiii/validate-pyproject-schema-store\<newline>'' @
     ''    rev: 2025.08.15\<newline>'' @
     ''    hooks:\<newline>'' @
     ''      - id: validate-pyproject\<newline>'' @
     ''\<newline>'' @
     ''  - repo: https://github.com/python-jsonschema/check-jsonschema\<newline>'' @
     ''    rev: 0.33.3\<newline>'' @
     ''    hooks:\<newline>'' @
     ''      - id: check-readthedocs\<newline>'' @
     ''      - id: check-github-workflows\<newline>'' @
     ''\<newline>'' @
     ''  - repo: local\<newline>'' @
     ''    hooks:\<newline>'' @
     ''      - id: coverage\<newline>'' @
     ''        name: coverage\<newline>'' @
     ''        entry: bash -c 'if command -v uv >/dev/null 2>&1; then uv run coverage erase && uv run coverage run -m pytest && uv run coverage report --fail-under=85; else coverage erase && coverage run -m pytest && coverage report --fail-under=85; fi'\<newline>'' @
     ''        language: system\<newline>'' @
     ''        types: [python]\<newline>'' @
     ''        pass_filenames: false\<newline>''\<close>

definition READTHEDOCS_CONFIG :: "string" where
  \<open>READTHEDOCS_CONFIG =
     ''# https://docs.readthedocs.com/platform/stable/build-customization.html#install-dependencies-with-uv\<newline>'' @
     ''\<newline>'' @
     ''version: 2\<newline>'' @
     ''\<newline>'' @
     ''sphinx:\<newline>'' @
     ''   configuration: docs/conf.py\<newline>'' @
     ''\<newline>'' @
     ''build:\<newline>'' @
     ''   os: ubuntu-24.04\<newline>'' @
     ''   tools:\<newline>'' @
     ''      python: "3.13"\<newline>'' @
     ''   jobs:\<newline>'' @
     ''      pre_create_environment:\<newline>'' @
     ''         - asdf plugin add uv\<newline>'' @
     ''         - asdf install uv latest\<newline>'' @
     ''         - asdf global uv latest\<newline>'' @
     ''      create_environment:\<newline>'' @
     ''         - uv venv "${READTHEDOCS_VIRTUALENV_PATH}"\<newline>'' @
     ''      install:\<newline>'' @
     ''         - UV_PROJECT_ENVIRONMENT="${READTHEDOCS_VIRTUALENV_PATH}" uv sync --group docs\<newline>''\<close>

definition LICENSE_foot :: "string" where
  \<open>LICENSE_foot =
     ''\<newline>'' @
     ''Permission is hereby granted, free of charge, to any person obtaining a copy\<newline>'' @
     ''of this software and associated documentation files (the "Software"), to deal\<newline>'' @
     ''in the Software without restriction, including without limitation the rights\<newline>'' @
     ''to use, copy, modify, merge, publish, distribute, sublicense, and/or sell\<newline>'' @
     ''copies of the Software, and to permit persons to whom the Software is\<newline>'' @
     ''furnished to do so, subject to the following conditions:\<newline>'' @
     ''\<newline>'' @
     ''The above copyright notice and this permission notice shall be included in all\<newline>'' @
     ''copies or substantial portions of the Software.\<newline>'' @
     ''\<newline>'' @
     ''THE SOFTWARE IS PROVIDED "AS IS", WITHOUT WARRANTY OF ANY KIND, EXPRESS OR\<newline>'' @
     ''IMPLIED, INCLUDING BUT NOT LIMITED TO THE WARRANTIES OF MERCHANTABILITY,\<newline>'' @
     ''FITNESS FOR A PARTICULAR PURPOSE AND NONINFRINGEMENT. IN NO EVENT SHALL THE\<newline>'' @
     ''AUTHORS OR COPYRIGHT HOLDERS BE LIABLE FOR ANY CLAIM, DAMAGES OR OTHER\<newline>'' @
     ''LIABILITY, WHETHER IN AN ACTION OF CONTRACT, TORT OR OTHERWISE, ARISING FROM,\<newline>'' @
     ''OUT OF OR IN CONNECTION WITH THE SOFTWARE OR THE USE OR OTHER DEALINGS IN THE\<newline>'' @
     ''SOFTWARE.\<newline>''\<close>

definition LICENSE_TEXT_format :: "string \<Rightarrow> string" where
  \<open>LICENSE_TEXT_format holder =
     ''MIT License\<newline>'' @
     ''\<newline>'' @
     ''Copyright (c) 2024 '' @ holder @ ''\<newline>'' @
     LICENSE_foot\<close>

definition README_STUB_format :: "string \<Rightarrow> string" where
  \<open>README_STUB_format pn =
     ''# '' @ pn @ ''\<newline>'' @
     ''\<newline>'' @
     ''This is a STUB.\<newline>''\<close>

definition DOC_STUB :: "string" where
  \<open>DOC_STUB =
     ''This is a STUB.\<newline>''\<close>

definition DOC_INDEX_TEMPLATE_format :: "string \<Rightarrow> string" where
  \<open>DOC_INDEX_TEMPLATE_format pn =
     ''# '' @ pn @ '' documentation\<newline>'' @
     ''\<newline>'' @
     ''This is a STUB.\<newline>'' @
     ''\<newline>'' @
     ''```{toctree}\<newline>'' @
     '':maxdepth: 1\<newline>'' @
     '':caption: User Guide\<newline>'' @
     ''\<newline>'' @
     ''introduction\<newline>'' @
     ''quickstart\<newline>'' @
     ''concepts\<newline>'' @
     ''tutorials\<newline>'' @
     ''```\<newline>'' @
     ''\<newline>'' @
     ''```{toctree}\<newline>'' @
     '':maxdepth: 1\<newline>'' @
     '':caption: Developer Guide\<newline>'' @
     ''\<newline>'' @
     ''architecture\<newline>'' @
     ''contributing\<newline>'' @
     ''```\<newline>'' @
     ''\<newline>'' @
     ''```{toctree}\<newline>'' @
     '':maxdepth: 1\<newline>'' @
     '':caption: Reference\<newline>'' @
     ''\<newline>'' @
     ''api/index\<newline>'' @
     ''```\<newline>''\<close>

definition DOC_API_INDEX :: "string" where
  \<open>DOC_API_INDEX =
     ''# API Reference\<newline>'' @
     ''\<newline>'' @
     ''The API reference is generated automatically from the source code. Modules are\<newline>'' @
     ''listed roughly in the order you will encounter them.\<newline>'' @
     ''\<newline>'' @
     ''```{eval-rst}\<newline>'' @
     ''.. toctree::\<newline>'' @
     ''   :maxdepth: 2\<newline>'' @
     ''```\<newline>'' @
     ''\<newline>'' @
     ''This is a STUB.\<newline>''\<close>

definition DOC_CONF_head :: "string \<Rightarrow> string" where
  \<open>DOC_CONF_head pn =
     ''    """Sphinx configuration for the '' @ pn @ '' documentation."""\<newline>'' @
     ''\<newline>'' @
     ''    from __future__ import annotations\<newline>'' @
     ''\<newline>'' @
     ''    import datetime as _dt\<newline>'' @
     ''    import sys\<newline>'' @
     ''    from pathlib import Path\<newline>'' @
     ''\<newline>'' @
     ''    PROJECT_ROOT = Path(__file__).resolve().parents[1]\<newline>'' @
     ''    sys.path.insert(0, str(PROJECT_ROOT / "src"))\<newline>'' @
     ''\<newline>'' @
     ''    project = "'' @ pn @ ''"\<newline>''\<close>

definition DOC_CONF_body :: "string \<Rightarrow> string \<Rightarrow> string" where
  \<open>DOC_CONF_body label url =
     ''    copyright = f"{{_dt.datetime.now().year}}, '' @ label @ ''"\<newline>'' @
     ''\<newline>'' @
     ''    extensions = [\<newline>'' @
     ''        "myst_nb",\<newline>'' @
     ''        "sphinx_design",\<newline>'' @
     ''        "sphinx.ext.autodoc",\<newline>'' @
     ''        "sphinx.ext.autosummary",\<newline>'' @
     ''        "sphinx.ext.napoleon",\<newline>'' @
     ''        "sphinx.ext.intersphinx",\<newline>'' @
     ''        "sphinx.ext.viewcode",\<newline>'' @
     ''        "sphinxcontrib.mermaid",\<newline>'' @
     ''    ]\<newline>'' @
     ''\<newline>'' @
     ''    autosummary_generate = True\<newline>'' @
     ''    autosummary_imported_members = False\<newline>'' @
     ''    autodoc_typehints = "description"\<newline>'' @
     ''    napoleon_google_docstring = True\<newline>'' @
     ''    napoleon_numpy_docstring = True\<newline>'' @
     ''\<newline>'' @
     ''    autodoc_default_options = {\<newline>'' @
     ''        "members": True,\<newline>'' @
     ''        "undoc-members": False,\<newline>'' @
     ''        "show-inheritance": False,\<newline>'' @
     ''    }\<newline>'' @
     ''    autodoc_member_order = "bysource"\<newline>'' @
     ''\<newline>'' @
     ''    myst_enable_extensions = [\<newline>'' @
     ''        "colon_fence",\<newline>'' @
     ''        "deflist",\<newline>'' @
     ''        "html_image",\<newline>'' @
     ''    ]\<newline>'' @
     ''\<newline>'' @
     ''    myst_fence_as_directive = ["mermaid"]\<newline>'' @
     ''\<newline>'' @
     ''    nb_execution_mode = "off"\<newline>'' @
     ''\<newline>'' @
     ''    html_theme = "furo"\<newline>'' @
     ''    html_static_path = ["_static"]\<newline>'' @
     ''    html_css_files = ["custom.css"]\<newline>'' @
     ''    html_logo = None\<newline>'' @
     ''    html_theme_options = {{\<newline>'' @
     ''        "footer_icons": [\<newline>'' @
     ''            {{\<newline>'' @
     ''                "name": "GitHub",\<newline>'' @
     ''                "url": "'' @ url @ ''",\<newline>'' @
     ''                "html": """\<newline>'' @
     ''                    <svg stroke="currentColor" fill="currentColor" stroke-width="0" viewBox="0 0 16 16">\<newline>'' @
     ''                        <path fill-rule="evenodd" d="M8 0C3.58 0 0 3.58 0 8c0 3.54 2.29 6.53 5.47 7.59.4.07.55-.17.55-.38 0-.19-.01-.82-.01-1.49-2.01.37-2.53-.49-2.69-.94-.09-.23-.48-.94-.82-1.13-.28-.15-.68-.52-.01-.53.63-.01 1.08.58 1.23.82.72 1.21 1.87.87 2.33.66.07-.52.28-.87.51-1.07-1.78-.2-3.64-.89-3.64-3.95 0-.87.31-1.59.82-2.15-.08-.2-.36-1.02.08-2.12 0 0 .67-.21 2.2.82.64-.18 1.32-.27 2-.27.68 0 1.36.09 2 .27 1.53-1.04 2.2-.82 2.2-.82.44 1.1.16 1.92.08 2.12.51.56.82 1.27.82 2.15 0 3.07-1.87 3.75-3.65 3.95.29.25.54.73.54 1.48 0 1.07-.01 1.93-.01 2.2 0 .21.15.46.55.38A8.013 8.013 0 0 0 16 8c0-4.42-3.58-8-8-8z"></path>\<newline>'' @
     ''                    </svg>\<newline>'' @
     ''                """,\<newline>'' @
     ''                "class": "",\<newline>'' @
     ''            }},\<newline>'' @
     ''        ],\<newline>''\<close>

definition DOC_CONF_foot :: "string \<Rightarrow> string" where
  \<open>DOC_CONF_foot pn =
     ''        "source_branch": "main",\<newline>'' @
     ''        "source_directory": "docs/",\<newline>'' @
     ''    }}\<newline>'' @
     ''\<newline>'' @
     ''    intersphinx_mapping = {{\<newline>'' @
     ''        "python": ("https://docs.python.org/3", None),\<newline>'' @
     ''        "numpy": ("https://numpy.org/doc/stable/", None),\<newline>'' @
     ''        "jax": ("https://jax.readthedocs.io/en/latest/", None),\<newline>'' @
     ''    }}\<newline>'' @
     ''\<newline>'' @
     ''    templates_path = ["_templates"]\<newline>'' @
     ''    exclude_patterns = ["_build", "Thumbs.db", ".DS_Store", "python/"]\<newline>'' @
     ''\<newline>'' @
     ''    html_title = " "\<newline>'' @
     ''    html_baseurl = "https://'' @ pn @ ''.readthedocs.io/"\<newline>'' @
     ''    ''\<close>

definition DOC_CONF_TEMPLATE_substitute :: "string \<Rightarrow> string \<Rightarrow> string \<Rightarrow> string" where
  \<open>DOC_CONF_TEMPLATE_substitute pn label url =
     DOC_CONF_head pn @
     ''    author = "'' @ label @ ''"\<newline>'' @
     DOC_CONF_body label url @
     ''        "source_repository": "'' @ url @ ''",\<newline>'' @
     DOC_CONF_foot pn\<close>

definition DOCS_CUSTOM_CSS :: "string" where
  \<open>DOCS_CUSTOM_CSS =
     ''/* Force left alignment for autosummary tables in API reference */\<newline>'' @
     ''table.autosummary {\<newline>'' @
     ''    margin-left: 0 !important;\<newline>'' @
     ''    margin-right: auto !important;\<newline>'' @
     ''}\<newline>'' @
     ''\<newline>'' @
     ''/* Force left alignment for all docutils tables */\<newline>'' @
     ''table.docutils {\<newline>'' @
     ''    margin-left: 0 !important;\<newline>'' @
     ''    margin-right: auto !important;\<newline>'' @
     ''}\<newline>'' @
     ''\<newline>'' @
     ''/* Force left alignment for longtable */\<newline>'' @
     ''table.longtable {\<newline>'' @
     ''    margin-left: 0 !important;\<newline>'' @
     ''    margin-right: auto !important;\<newline>'' @
     ''}\<newline>'' @
     ''\<newline>'' @
     ''/* Ensure function/class signature blocks are left-aligned */\<newline>'' @
     ''dl.py,\<newline>'' @
     ''dl.function,\<newline>'' @
     ''dl.class,\<newline>'' @
     ''dl.method,\<newline>'' @
     ''dl.attribute {\<newline>'' @
     ''    text-align: left !important;\<newline>'' @
     ''}\<newline>'' @
     ''\<newline>'' @
     ''/* Force left alignment for definition lists */\<newline>'' @
     ''dl {\<newline>'' @
     ''    margin-left: 0 !important;\<newline>'' @
     ''}\<newline>''\<close>

definition DOCS_MAKEFILE :: "string" where
  \<open>DOCS_MAKEFILE =
     ''# Makefile for Sphinx documentation\<newline>'' @
     ''# taken from: https://github.com/cms-cat/order/blob/master/docs/Makefile\<newline>'' @
     ''\<newline>'' @
     ''# You can set these variables from the command line.\<newline>'' @
     ''SPHINXOPTS  =\<newline>'' @
     ''SPHINXBUILD = sphinx-build\<newline>'' @
     ''PAPER       =\<newline>'' @
     ''BUILDDIR    = _build\<newline>'' @
     ''\<newline>'' @
     ''# User-friendly check for sphinx-build\<newline>'' @
     ''ifeq ($(shell which $(SPHINXBUILD) >/dev/null 2>&1; echo $$?), 1)\<newline>'' @
     ''$(error The '$(SPHINXBUILD)' command was not found. Make sure you have Sphinx installed, then set the SPHINXBUILD environment variable to point to the full path of the '$(SPHINXBUILD)' executable. Alternatively you can add the directory with the executable to your PATH. If you don't have Sphinx installed, grab it from http://sphinx-doc.org/)\<newline>'' @
     ''endif\<newline>'' @
     ''\<newline>'' @
     ''# Internal variables.\<newline>'' @
     ''PAPEROPT_a4     = -D latex_paper_size=a4\<newline>'' @
     ''PAPEROPT_letter = -D latex_paper_size=letter\<newline>'' @
     ''ALLSPHINXOPTS   = -d $(BUILDDIR)/doctrees $(PAPEROPT_$(PAPER)) $(SPHINXOPTS) .\<newline>'' @
     ''# the i18n builder cannot share the environment and doctrees with the others\<newline>'' @
     ''I18NSPHINXOPTS  = $(PAPEROPT_$(PAPER)) $(SPHINXOPTS) .\<newline>'' @
     ''\<newline>'' @
     ''.PHONY: help clean html\<newline>'' @
     ''\<newline>'' @
     ''help:\<newline>'' @
     [CHR 0x09] @ ''@echo "Please use `make <target>' where <target> is one of"\<newline>'' @
     [CHR 0x09] @ ''@echo "  clean      to cleanup all build files"\<newline>'' @
     [CHR 0x09] @ ''@echo "  html       to make standalone HTML files"\<newline>'' @
     ''\<newline>'' @
     ''clean:\<newline>'' @
     [CHR 0x09] @ ''rm -rf $(BUILDDIR)/*\<newline>'' @
     ''\<newline>'' @
     ''html:\<newline>'' @
     [CHR 0x09] @ ''$(SPHINXBUILD) -b html $(ALLSPHINXOPTS) $(BUILDDIR)/html\<newline>'' @
     [CHR 0x09] @ ''@echo\<newline>'' @
     [CHR 0x09] @ ''@echo "Build finished. The HTML pages are in $(BUILDDIR)/html."\<newline>''\<close>

definition INIT_TEMPLATE_format :: "string \<Rightarrow> string \<Rightarrow> string \<Rightarrow> string \<Rightarrow> string" where
  \<open>INIT_TEMPLATE_format pn descr pkg label =
     ''"""\<newline>'' @
     pn @ '': '' @ descr @ ''\<newline>'' @
     ''"""\<newline>'' @
     ''\<newline>'' @
     ''from __future__ import annotations\<newline>'' @
     ''\<newline>'' @
     ''import datetime\<newline>'' @
     ''\<newline>'' @
     ''__name__ = "'' @ pkg @ ''"\<newline>'' @
     ''__author__ = "'' @ label @ ''"\<newline>'' @
     ''__copyright__ = f"Copyright {datetime.datetime.now().year}, '' @ label @ ''"\<newline>'' @
     ''__version__ = "0.0.1"\<newline>'' @
     ''\<newline>'' @
     ''__all__ = [\<newline>'' @
     ''    "__version__",\<newline>'' @
     '']\<newline>''\<close>

definition CI_WORKFLOW :: "string" where
  \<open>CI_WORKFLOW =
     ''name: CI\<newline>'' @
     ''\<newline>'' @
     ''concurrency:\<newline>'' @
     ''  group: ${{ github.workflow }}-${{ github.ref }}\<newline>'' @
     ''  cancel-in-progress: true\<newline>'' @
     ''\<newline>'' @
     ''on:\<newline>'' @
     ''  workflow_dispatch:\<newline>'' @
     ''  pull_request:\<newline>'' @
     ''  push:\<newline>'' @
     ''    branches:\<newline>'' @
     ''      - main\<newline>'' @
     ''\<newline>'' @
     ''jobs:\<newline>'' @
     ''  pre-commit:\<newline>'' @
     ''    name: Format + lint code\<newline>'' @
     ''    runs-on: ubuntu-latest\<newline>'' @
     ''    steps:\<newline>'' @
     ''      - uses: actions/checkout@v5\<newline>'' @
     ''        with:\<newline>'' @
     ''          fetch-depth: 0\<newline>'' @
     ''      - uses: actions/setup-python@v6\<newline>'' @
     ''        with:\<newline>'' @
     ''          python-version: "3.13"\<newline>'' @
     ''      - name: Install uv\<newline>'' @
     ''        uses: astral-sh/setup-uv@v7\<newline>'' @
     ''      - name: Sync project dependencies\<newline>'' @
     ''        run: uv sync --group=dev\<newline>'' @
     ''      - uses: pre-commit/action@v3.0.1\<newline>'' @
     ''        with:\<newline>'' @
     ''          extra_args: --all-files\<newline>'' @
     ''\<newline>'' @
     ''  checks:\<newline>'' @
     ''    name: Run tests for Python ${{ matrix.python-version }} on ${{ matrix.runs-on }}\<newline>'' @
     ''    runs-on: ${{ matrix.runs-on }}\<newline>'' @
     ''    needs: [pre-commit]\<newline>'' @
     ''    strategy:\<newline>'' @
     ''      fail-fast: false\<newline>'' @
     ''      matrix:\<newline>'' @
     ''        python-version: ["3.11", "3.12", "3.13"]\<newline>'' @
     ''        runs-on: [ubuntu-latest]\<newline>'' @
     ''\<newline>'' @
     ''    steps:\<newline>'' @
     ''      - uses: actions/checkout@v5\<newline>'' @
     ''        with:\<newline>'' @
     ''          fetch-depth: 0\<newline>'' @
     ''\<newline>'' @
     ''      - uses: actions/setup-python@v6\<newline>'' @
     ''        with:\<newline>'' @
     ''          python-version: ${{ matrix.python-version }}\<newline>'' @
     ''          allow-prereleases: true\<newline>'' @
     ''\<newline>'' @
     ''      - name: Install uv\<newline>'' @
     ''        uses: astral-sh/setup-uv@v7\<newline>'' @
     ''\<newline>'' @
     ''      - name: Sync project + test deps\<newline>'' @
     ''        run: uv sync --group=test\<newline>'' @
     ''\<newline>'' @
     ''      - name: Test package\<newline>'' @
     ''        run: >-\<newline>'' @
     ''          uv run pytest -ra --cov --cov-report=xml --cov-report=term\<newline>'' @
     ''          --durations=20\<newline>'' @
     ''\<newline>'' @
     ''  docs:\<newline>'' @
     ''    name: Build documentation\<newline>'' @
     ''    runs-on: ubuntu-latest\<newline>'' @
     ''    needs: [pre-commit]\<newline>'' @
     ''    steps:\<newline>'' @
     ''      - uses: actions/checkout@v5\<newline>'' @
     ''        with:\<newline>'' @
     ''          fetch-depth: 0\<newline>'' @
     ''\<newline>'' @
     ''      - uses: actions/setup-python@v6\<newline>'' @
     ''        with:\<newline>'' @
     ''          python-version: "3.13"\<newline>'' @
     ''\<newline>'' @
     ''      - name: Install uv\<newline>'' @
     ''        uses: astral-sh/setup-uv@v7\<newline>'' @
     ''\<newline>'' @
     ''      - name: Sync project + docs deps\<newline>'' @
     ''        run: uv sync --group=docs\<newline>'' @
     ''\<newline>'' @
     ''      - name: Build docs\<newline>'' @
     ''        run: uv run sphinx-build -M html docs docs/_build -W --keep-going\<newline>''\<close>

definition DEFAULT_GITIGNORE :: "string" where
  \<open>DEFAULT_GITIGNORE =
     ''__pycache__/\<newline>'' @
     ''*.pyc\<newline>''\<close>

definition pyproject_head :: "string \<Rightarrow> string \<Rightarrow> string \<Rightarrow> string \<Rightarrow> string" where
  \<open>pyproject_head pn descr authors_block dependencies_block =
     ''        [build-system]\<newline>'' @
     ''        requires = ["hatchling"]\<newline>'' @
     ''        build-backend = "hatchling.build"\<newline>'' @
     ''\<newline>'' @
     ''\<newline>'' @
     ''        [project]\<newline>'' @
     ''        name = "'' @ pn @ ''"\<newline>'' @
     ''        description = "'' @ descr @ ''"\<newline>'' @
     ''        license = "MIT"\<newline>'' @
     ''        license-files = ["LICENSE"]\<newline>'' @
     ''        readme = "README.md"\<newline>'' @
     ''        requires-python = ">=3.11"\<newline>'' @
     ''        classifiers = [\<newline>'' @
     ''            "Development Status :: 1 - Planning",\<newline>'' @
     ''            "Intended Audience :: Science/Research",\<newline>'' @
     ''            "Intended Audience :: Developers",\<newline>'' @
     ''            "Operating System :: OS Independent",\<newline>'' @
     ''            "Programming Language :: Python",\<newline>'' @
     ''            "Programming Language :: Python :: 3",\<newline>'' @
     ''            "Programming Language :: Python :: 3 :: Only",\<newline>'' @
     ''            "Programming Language :: Python :: 3.11",\<newline>'' @
     ''            "Programming Language :: Python :: 3.12",\<newline>'' @
     ''            "Programming Language :: Python :: 3.13",\<newline>'' @
     ''            "Topic :: Scientific/Engineering",\<newline>'' @
     ''            "Typing :: Typed",\<newline>'' @
     ''        ]\<newline>'' @
     ''        dynamic = ["version"]\<newline>'' @
     ''        authors = [\<newline>'' @
     ''        '' @ authors_block @ ''\<newline>'' @
     ''        ]\<newline>'' @
     ''        dependencies = [\<newline>'' @
     ''        '' @ dependencies_block @ ''\<newline>'' @
     ''        ]\<newline>'' @
     ''\<newline>'' @
     ''\<newline>'' @
     ''        [dependency-groups]\<newline>''\<close>

definition pyproject_urls :: "string \<Rightarrow> string \<Rightarrow> string \<Rightarrow> string \<Rightarrow> string" where
  \<open>pyproject_urls homepage issues_url discussions_url releases_url =
     ''        [project.urls]\<newline>'' @
     ''        Homepage = "'' @ homepage @ ''"\<newline>'' @
     ''        "Bug Tracker" = "'' @ issues_url @ ''"\<newline>'' @
     ''        Discussions = "'' @ discussions_url @ ''"\<newline>'' @
     ''        Changelog = "'' @ releases_url @ ''"\<newline>''\<close>

definition pyproject_tail :: "string \<Rightarrow> string" where
  \<open>pyproject_tail pkg =
     ''\<newline>'' @
     ''\<newline>'' @
     ''        [tool.hatch]\<newline>'' @
     ''        version.path = "src/'' @ pkg @ ''/__init__.py"\<newline>'' @
     ''\<newline>'' @
     ''\<newline>'' @
     ''        [tool.pytest.ini_options]\<newline>'' @
     ''        minversion = "7"\<newline>'' @
     ''        xfail_strict = true\<newline>'' @
     ''        addopts = ["-ra", "--strict-config", "--strict-markers"]\<newline>'' @
     ''        pythonpath = ["src"]\<newline>'' @
     ''        filterwarnings = [\<newline>'' @
     ''            "error",\<newline>'' @
     ''        ]\<newline>'' @
     ''        log_cli_level = "INFO"\<newline>'' @
     ''        testpaths = ["tests"]\<newline>'' @
     ''\<newline>'' @
     ''\<newline>'' @
     ''        [tool.coverage]\<newline>'' @
     ''        run.source = ["'' @ pkg @ ''"]\<newline>'' @
     ''        port.exclude_lines = ['pragma: no cover', '' @ [CHR 0x27] @ [CHR 0x5C] @ ''.'' @ [CHR 0x5C] @ ''.'' @ [CHR 0x5C] @ ''.', 'if typing.TYPE_CHECKING:']\<newline>'' @
     ''\<newline>'' @
     ''\<newline>'' @
     ''        [tool.mypy]\<newline>'' @
     ''        files = ["src", "tests"]\<newline>'' @
     ''        python_version = "3.13"\<newline>'' @
     ''        warn_unreachable = true\<newline>'' @
     ''        disallow_untyped_defs = false\<newline>'' @
     ''        disallow_incomplete_defs = false\<newline>'' @
     ''        check_untyped_defs = true\<newline>'' @
     ''        enable_error_code = ["ignore-without-code", "redundant-expr", "truthy-bool"]\<newline>'' @
     ''        strict = false\<newline>'' @
     ''        ignore_missing_imports = true\<newline>'' @
     ''\<newline>'' @
     ''\<newline>'' @
     ''        [tool.ruff.lint]\<newline>'' @
     ''        preview = true\<newline>'' @
     ''        ignore = [\<newline>'' @
     ''            "PLR",\<newline>'' @
     ''            "E501",\<newline>'' @
     ''            "I002",\<newline>'' @
     ''            "ISC001",\<newline>'' @
     ''            "PLC0415",\<newline>'' @
     ''            "PLW3201",\<newline>'' @
     ''            "RUF052",\<newline>'' @
     ''            "F722",\<newline>'' @
     ''        ]\<newline>'' @
     ''        select = [\<newline>'' @
     ''            "E",\<newline>'' @
     ''            "F",\<newline>'' @
     ''            "W",\<newline>'' @
     ''            "B",\<newline>'' @
     ''            "I",\<newline>'' @
     ''            "C4",\<newline>'' @
     ''            "EM",\<newline>'' @
     ''            "ICN",\<newline>'' @
     ''            "ISC",\<newline>'' @
     ''            "G",\<newline>'' @
     ''            "PGH",\<newline>'' @
     ''            "PIE",\<newline>'' @
     ''            "PL",\<newline>'' @
     ''            "PT",\<newline>'' @
     ''            "PTH",\<newline>'' @
     ''            "RET",\<newline>'' @
     ''            "RUF",\<newline>'' @
     ''            "SIM",\<newline>'' @
     ''            "UP",\<newline>'' @
     ''            "YTT",\<newline>'' @
     ''            "EXE",\<newline>'' @
     ''            "E303",\<newline>'' @
     ''        ]\<newline>'' @
     ''        unfixable = [\<newline>'' @
     ''            "F841",\<newline>'' @
     ''        ]\<newline>'' @
     ''        flake8-unused-arguments.ignore-variadic-names = true\<newline>'' @
     ''        isort.required-imports = ["from __future__ import annotations"]\<newline>'' @
     ''        ''\<close>

definition pyproject_text where
  \<open>pyproject_text pn descr authors_block dependencies_block dependency_groups_block
       homepage issues_url discussions_url releases_url pkg =
     pyproject_head pn descr authors_block dependencies_block @
     ''        '' @ dependency_groups_block @ ''\<newline>'' @
     ''\<newline>'' @
     ''\<newline>'' @
     pyproject_urls homepage issues_url discussions_url releases_url @
     pyproject_tail pkg\<close>

definition placeholder_test :: "string" where
  \<open>placeholder_test =
     ''from __future__ import annotations\<newline>'' @
     ''\<newline>'' @
     ''\<newline>'' @
     ''def test_placeholder() -> None:\<newline>'' @
     ''    assert True\<newline>''\<close>

section \<open>The manifest\<close>

text \<open>
  \<^verbatim>\<open>textwrap.dedent\<close> (CPython 3.11 to 3.13): a line made of spaces and tabs only becomes
  empty; the margin is the longest common prefix of the leading spaces and tabs of the
  other non-empty lines, found by the loop
  \<^verbatim>\<open>for indent in indents:
      if margin is None: margin = indent
      elif indent.startswith(margin): pass
      elif margin.startswith(indent): margin = indent
      else:
          for i, (x, y) in enumerate(zip(margin, indent)):
              if x != y:
                  margin = margin[:i]
                  break\<close>
  and a margin that is not empty is removed from the lines that start with it.
\<close>

definition is_blank :: "char \<Rightarrow> bool" where
  "is_blank c = (c = CHR '' '' \<or> c = CHR 0x09)"

definition startswith :: "string \<Rightarrow> string \<Rightarrow> bool" where
  "startswith s p = (take (length p) s = p)"

fun first_mismatch :: "string \<Rightarrow> string \<Rightarrow> nat option" where
  "first_mismatch (x # xs) (y # ys) =
     (if x \<noteq> y then Some 0 else map_option Suc (first_mismatch xs ys))"
| "first_mismatch xs ys = None"

definition narrow_margin :: "string option \<Rightarrow> string \<Rightarrow> string option" where
  "narrow_margin margin indent =
     (case margin of
        None \<Rightarrow> Some indent
      | Some m \<Rightarrow>
          if startswith indent m then Some m
          else if startswith m indent then Some indent
          else (case first_mismatch m indent of Some i \<Rightarrow> Some (take i m) | None \<Rightarrow> Some m))"

definition dedent :: "string \<Rightarrow> string" where
  "dedent text =
     (let lines = map (\<lambda>l. if l \<noteq> [] \<and> list_all is_blank l then [] else l)
                    (py_split (CHR ''\<newline>'') text);
          indents = map (takeWhile is_blank) (filter (\<lambda>l. l \<noteq> []) lines);
          margin = foldl narrow_margin None indents
      in case margin of
           None \<Rightarrow> py_join ''\<newline>'' lines
         | Some m \<Rightarrow>
             if m = [] then py_join ''\<newline>'' lines
             else py_join ''\<newline>''
                    (map (\<lambda>l. if startswith l m then drop (length m) l else l) lines))"

text \<open>
  \<^verbatim>\<open>def build_pyproject(config):
      package_name = normalize_package_name(config.project_name)
      authors_block = format_authors(config.authors)
      dependencies_block = format_string_array(config.dependencies)
      dependency_groups_block = format_dependency_groups(config.dependency_groups, config.dev_extras)
      description = escape_toml_string(config.description)
      homepage = escape_toml_string(config.project_url)
      issues_url = escape_toml_string(f"{config.project_url}/issues")
      discussions_url = escape_toml_string(f"{config.project_url}/discussions")
      releases_url = escape_toml_string(f"{config.project_url}/releases")
      return dedent(f"""...""")\<close>
  The f-string is \<open>pyproject_text\<close>.
\<close>

definition build_pyproject :: "ProjectConfig \<Rightarrow> string" where
  \<open>build_pyproject config =
     (let package_name = normalize_package_name (project_name config);
          authors_block = format_authors (authors config);
          dependencies_block = format_string_array (dependencies config) 4;
          dependency_groups_block =
            format_dependency_groups (dependency_groups config) (dev_extras config);
          descr = escape_toml_string (description config);
          homepage = escape_toml_string (project_url config);
          issues_url = escape_toml_string (project_url config @ ''/issues'');
          discussions_url = escape_toml_string (project_url config @ ''/discussions'');
          releases_url = escape_toml_string (project_url config @ ''/releases'')
      in dedent
           (pyproject_text (project_name config) descr authors_block dependencies_block
              dependency_groups_block homepage issues_url discussions_url releases_url
              package_name))\<close>

section \<open>The scaffold emitter\<close>

text \<open>
  \<^verbatim>\<open>GITIGNORE_CONTENT\<close> is read when the module is loaded: the text of \<^verbatim>\<open>.gitignore\<close> in
  the working directory if there is one (\<open>Some\<close> of it here), else the default.
\<close>

definition GITIGNORE_CONTENT :: "string option \<Rightarrow> string" where
  "GITIGNORE_CONTENT gitignore = (case gitignore of Some t \<Rightarrow> t | None \<Rightarrow> DEFAULT_GITIGNORE)"

text \<open>
  \<^verbatim>\<open>p.resolve()\<close>: the canonical path. (Where the walk fails, \<^verbatim>\<open>resolve\<close> goes on
  lexically; the emitter resolves only a root that exists.)
\<close>

definition resolve :: "fs \<Rightarrow> path \<Rightarrow> path" where
  "resolve fs p = (case walk fs [] p of Inr q \<Rightarrow> q | Inl e \<Rightarrow> p)"

text \<open>
  The directories and the files of \<open>generate_from_config\<close>, in the order of the source.
\<close>

definition directories :: "path \<Rightarrow> string \<Rightarrow> path list" where
  \<open>directories project_root package_name =
     [path_div (path_div project_root ''src'') package_name,
      path_div project_root ''tests'',
      path_div (path_div project_root ''docs'') ''_static'',
      path_div (path_div project_root ''docs'') ''_templates'',
      path_div (path_div project_root ''docs'') ''api'',
      path_div (path_div project_root ''.github'') ''workflows'',
      path_div project_root ''examples'']\<close>

definition files :: "string option \<Rightarrow> ProjectConfig \<Rightarrow> path \<Rightarrow> string \<Rightarrow> string \<Rightarrow> (path \<times> string) list" where
  \<open>files gitignore config project_root package_name author_label_value =
     [(path_div project_root ''pyproject.toml'', build_pyproject config),
      (path_div project_root ''.pre-commit-config.yaml'', PRE_COMMIT_CONFIG),
      (path_div project_root ''.readthedocs.yaml'', READTHEDOCS_CONFIG),
      (path_div project_root ''LICENSE'', LICENSE_TEXT_format author_label_value),
      (path_div project_root ''README.md'', README_STUB_format (project_name config)),
      (path_div project_root ''.gitignore'', GITIGNORE_CONTENT gitignore),
      (path_div (path_div (path_div project_root ''.github'') ''workflows'') ''ci.yml'', CI_WORKFLOW),
      (path_div (path_div project_root ''docs'') ''index.md'',
         DOC_INDEX_TEMPLATE_format (project_name config)),
      (path_div (path_div project_root ''docs'') ''conf.py'',
         DOC_CONF_TEMPLATE_substitute (project_name config) author_label_value (project_url config)),
      (path_div (path_div project_root ''docs'') ''introduction.md'',
         ''# Introduction\<newline>\<newline>'' @ DOC_STUB),
      (path_div (path_div project_root ''docs'') ''quickstart.md'',
         ''# Quickstart\<newline>\<newline>'' @ DOC_STUB),
      (path_div (path_div project_root ''docs'') ''concepts.md'',
         ''# Core Concepts\<newline>\<newline>'' @ DOC_STUB),
      (path_div (path_div project_root ''docs'') ''tutorials.md'',
         ''# Tutorials\<newline>\<newline>'' @ DOC_STUB),
      (path_div (path_div project_root ''docs'') ''architecture.md'',
         ''# Architecture\<newline>\<newline>'' @ DOC_STUB),
      (path_div (path_div project_root ''docs'') ''contributing.md'',
         ''# Contributing Guide\<newline>\<newline>'' @ DOC_STUB),
      (path_div (path_div (path_div project_root ''docs'') ''api'') ''index.md'', DOC_API_INDEX),
      (path_div (path_div (path_div project_root ''docs'') ''api'') ''inference.md'',
         ''# Inference API\<newline>\<newline>'' @ DOC_STUB),
      (path_div (path_div (path_div project_root ''docs'') ''api'') ''parameters.md'',
         ''# Parameters API\<newline>\<newline>'' @ DOC_STUB),
      (path_div (path_div (path_div project_root ''docs'') ''api'') ''statelib.md'',
         ''# Statelib API\<newline>\<newline>'' @ DOC_STUB),
      (path_div (path_div (path_div project_root ''docs'') ''_static'') ''custom.css'', DOCS_CUSTOM_CSS),
      (path_div (path_div (path_div project_root ''docs'') ''_templates'') ''.gitkeep'', []),
      (path_div (path_div project_root ''docs'') ''Makefile'', DOCS_MAKEFILE),
      (path_div (path_div (path_div project_root ''src'') package_name) ''__init__.py'',
         INIT_TEMPLATE_format (project_name config) (description config) package_name
           author_label_value),
      (path_div (path_div project_root ''tests'') ''test_placeholder.py'', placeholder_test),
      (path_div (path_div project_root ''examples'') ''.gitkeep'', [])]\<close>

text \<open>
  \<open>emit\<close> is \<open>generate_from_config\<close> from its second line on, for a destination that is
  resolved already:
  \<^verbatim>\<open>if not destination_path.exists():
      raise FileNotFoundError(f"Destination {destination_path} does not exist")
  project_root = destination_path / config.project_name
  if project_root.exists():
      raise FileExistsError(f"{project_root} already exists")
  package_name = normalize_package_name(config.project_name)
  author_label_value = build_author_label(config.authors, config.project_name)
  directories = [...]
  for directory in directories:
      ensure_directory(directory)
  write_file(...)   # 25 calls
  return project_root.resolve()\<close>
  It returns the file system it leaves and the exception or the path.
\<close>

definition emit :: "string option \<Rightarrow> fs \<Rightarrow> ProjectConfig \<Rightarrow> path \<Rightarrow> fs \<times> (error + path)" where
  \<open>emit gitignore fs config destination_path =
     (if \<not> path_exists fs destination_path then
        (fs, Inl (FileNotFoundError (''Destination '' @ path_str destination_path @ '' does not exist'')))
      else
        let project_root = path_div destination_path (project_name config) in
        if path_exists fs project_root then
          (fs, Inl (FileExistsError (path_str project_root @ '' already exists'')))
        else
          let package_name = normalize_package_name (project_name config);
              author_label_value = build_author_label (authors config) (project_name config)
          in case ensure_directories fs (directories project_root package_name) of
               (fs1, Some err) \<Rightarrow> (fs1, Inl err)
             | (fs1, None) \<Rightarrow>
                 (case write_files fs1 (files gitignore config project_root package_name author_label_value) of
                    (fs2, Some err) \<Rightarrow> (fs2, Inl err)
                  | (fs2, None) \<Rightarrow> (fs2, Inr (resolve fs2 project_root))))\<close>

text \<open>
  \<^verbatim>\<open>def read_config(config_path):
      text = config_path.read_text(encoding="utf-8")
      data = yaml.safe_load(text)
      if data is None:
          raise ConfigError("Configuration file is empty.")
      if not isinstance(data, dict):
          raise ConfigError("Configuration must define a mapping at the top level.")
      return data\<close>
  The YAML parser is outside the repository; it is the parameter \<open>safe_load\<close>.
\<close>

definition read_config :: "(string \<Rightarrow> error + pyval) \<Rightarrow> fs \<Rightarrow> path \<Rightarrow> error + pydict" where
  \<open>read_config safe_load fs config_path =
     bind (read_text fs config_path) (\<lambda>text.
     bind (safe_load text) (\<lambda>data.
       case data of
         PNone \<Rightarrow> Inl (ConfigError ''Configuration file is empty.'')
       | PDict d \<Rightarrow> Inr d
       | _ \<Rightarrow> Inl (ConfigError ''Configuration must define a mapping at the top level.'')))\<close>

text \<open>
  \<^verbatim>\<open>def generate_from_config(config_path, destination="."):
      config = coerce_config(read_config(Path(config_path)))
      destination_path = Path(destination).resolve()
      ...\<close>
\<close>

definition generate_from_config ::
  "(string \<Rightarrow> error + pyval) \<Rightarrow> string option \<Rightarrow> fs \<Rightarrow> path \<Rightarrow> path \<Rightarrow> fs \<times> (error + path)" where
  \<open>generate_from_config safe_load gitignore fs config_path destination_path =
     (case bind (read_config safe_load fs config_path) coerce_config of
        Inl err \<Rightarrow> (fs, Inl err)
      | Inr config \<Rightarrow> emit gitignore fs config destination_path)\<close>

text \<open>
  A text is normalised when it ends in a newline and the text before that newline has no
  trailing white space (so it ends in exactly one newline).
\<close>

definition normalised :: "string \<Rightarrow> bool" where
  "normalised t = (t \<noteq> [] \<and> last t = CHR ''\<newline>'' \<and> py_rstrip (butlast t) = butlast t)"

section \<open>File systems that grow\<close>

text \<open>
  The kind of the node at a canonical path, and the relation of a file system to a later
  one in which every node is still there with its kind (a file may have a new content).
\<close>

definition kind :: "fs \<Rightarrow> path \<Rightarrow> bool option" where
  "kind fs q = map_option (\<lambda>n. n = Dir) (fs q)"

definition extends :: "fs \<Rightarrow> fs \<Rightarrow> bool" where
  "extends fs fs' = (\<forall>q. fs q \<noteq> None \<longrightarrow> kind fs' q = kind fs q)"

text \<open>Two file systems with the same directories.\<close>

definition same_dirs :: "fs \<Rightarrow> fs \<Rightarrow> bool" where
  "same_dirs fs fs' = (\<forall>q. (fs' q = Some Dir) = (fs q = Some Dir))"

text \<open>A path at which a file can be written: its parent is a directory and it is not one.\<close>

definition writable :: "fs \<Rightarrow> path \<Rightarrow> bool" where
  "writable fs p = (case locate fs p of Inr (Slot q) \<Rightarrow> fs q \<noteq> Some Dir | _ \<Rightarrow> False)"

section \<open>Sample documents\<close>

text \<open>
  The configuration of the repository's test \<^verbatim>\<open>test_generate_scaffold_from_yaml\<close>, and the
  same document with keys removed or rebound.
\<close>

definition sample_raw :: pydict where
  \<open>sample_raw =
    [(''project_name'', PStr ''sample-project''),
     (''description'', PStr ''Sample description of the project.''),
     (''project_url'', PStr ''https://github.com/MoAly98/sample-project''),
     (''authors'', PList [PDict [(''name'', PStr ''Mo''), (''email'', PStr ''mo@example.com'')]]),
     (''dependencies'', PList [PStr ''numpy'', PStr ''scipy'']),
     (''dependency_groups'',
        PDict [(''test'', PList [PStr ''pytest'']),
               (''docs'', PList [PStr ''sphinx'', PStr ''furo'']),
               (''examples'', PList [PStr ''rich''])]),
     (''dev_extras'', PList [PStr ''pytest-xdist''])]\<close>

definition without :: "string list \<Rightarrow> pydict \<Rightarrow> pydict" where
  "without ks d = filter (\<lambda>kv. fst kv \<notin> set ks) d"

definition with_value :: "string \<Rightarrow> pyval \<Rightarrow> pydict \<Rightarrow> pydict" where
  "with_value k v d = map (\<lambda>kv. if fst kv = k then (k, v) else kv) d"

text \<open>
  The scenario of the specification: \<open>test\<close> is overridden, and a group that is not among
  the defaults is added.
\<close>

definition overlay_raw :: pydict where
  \<open>overlay_raw =
     with_value ''dependency_groups''
       (PDict [(''test'', PList [PStr ''pytest'']), (''lint'', PList [PStr ''ruff''])]) sample_raw\<close>

text \<open>The descriptor that the sample document resolves to.\<close>

definition sample_config :: ProjectConfig where
  \<open>sample_config =
     \<lparr>project_name = ''sample-project'',
      description = ''Sample description of the project.'',
      project_url = ''https://github.com/MoAly98/sample-project'',
      authors = [\<lparr>name = ''Mo'', email = ''mo@example.com''\<rparr>],
      dependencies = [''numpy'', ''scipy''],
      dependency_groups =
        [(''test'', [''pytest'']), (''docs'', [''sphinx'', ''furo'']), (''examples'', [''rich''])],
      dev_extras = [''pytest-xdist'']\<rparr>\<close>

text \<open>A file system with the root and the directory \<^verbatim>\<open>/tmp\<close>, both empty.\<close>

definition sample_fs :: fs where
  "sample_fs = [[] \<mapsto> Dir, [''tmp''] \<mapsto> Dir]"

text \<open>The same file system with the directories of the sample project, in the order in which
  the emitter makes them.\<close>

definition sample_tree :: fs where
  "sample_tree = sample_fs
     ([''tmp'', ''sample-project''] \<mapsto> Dir,
      [''tmp'', ''sample-project'', ''src''] \<mapsto> Dir,
      [''tmp'', ''sample-project'', ''src'', ''sample_project''] \<mapsto> Dir,
      [''tmp'', ''sample-project'', ''tests''] \<mapsto> Dir,
      [''tmp'', ''sample-project'', ''docs''] \<mapsto> Dir,
      [''tmp'', ''sample-project'', ''docs'', ''_static''] \<mapsto> Dir,
      [''tmp'', ''sample-project'', ''docs'', ''_templates''] \<mapsto> Dir,
      [''tmp'', ''sample-project'', ''docs'', ''api''] \<mapsto> Dir,
      [''tmp'', ''sample-project'', ''.github''] \<mapsto> Dir,
      [''tmp'', ''sample-project'', ''.github'', ''workflows''] \<mapsto> Dir,
      [''tmp'', ''sample-project'', ''examples''] \<mapsto> Dir)"

text \<open>
  The sample document with two slashes at the end of \<open>project_url\<close>, and with an address
  of three lines whose second line is one space.
\<close>

definition slash_raw :: pydict where
  \<open>slash_raw =
     with_value ''project_url'' (PStr ''https://github.com/MoAly98/sample-project//'') sample_raw\<close>

definition line_break_raw :: pydict where
  \<open>line_break_raw = with_value ''project_url'' (PStr ''x\<newline> \<newline>y/'') sample_raw\<close>

definition line_break_config :: ProjectConfig where
  \<open>line_break_config = sample_config\<lparr>project_url := ''x\<newline> \<newline>y''\<rparr>\<close>

section \<open>Properties\<close>

text \<open>
  C7. The package identifier is the project name with every hyphen and every space
  replaced by an underscore, character by character; \<open>sample-project\<close> becomes
  \<open>sample_project\<close> and \<open>My Project\<close> becomes \<open>My_Project\<close>.
\<close>

theorem normalize_package_name_spec:
  "normalize_package_name s = map (\<lambda>c. if c = CHR ''-'' \<or> c = CHR '' '' then CHR ''_'' else c) s
   \<and> normalize_package_name ''sample-project'' = ''sample_project''
   \<and> normalize_package_name ''My Project'' = ''My_Project''"
  by (simp add: normalize_package_name_def py_replace_def)

subsection \<open>Rendering the dependency groups\<close>

lemma foldl_append_each:
  "foldl (\<lambda>out x. out @ f x) acc xs = acc @ concat (map f xs)"
  by (induction xs arbitrary: acc) simp_all

lemma foldl_append_single:
  "foldl (\<lambda>out x. out @ [f x]) acc xs = acc @ map f xs"
  by (induction xs arbitrary: acc) simp_all

lemma foldl_group_blocks:
  "foldl (\<lambda>out (g, deps). if g = d then out else out @ f g deps) acc gs =
     acc @ concat (map (\<lambda>(g, deps). f g deps) (filter (\<lambda>(g, deps). g \<noteq> d) gs))"
  by (induction gs arbitrary: acc) (simp_all split: prod.splits)

lemma format_dependency_groups_lines:
  \<open>format_dependency_groups groups extra_dev =
     py_join ''\<newline>''
       (concat (map (\<lambda>(g, deps). [g @ '' = ['', format_string_array deps 4, '']\<newline>''])
                  (filter (\<lambda>(g, deps). g \<noteq> ''dev'') groups))
        @ [''dev = ['']
        @ map (\<lambda>g. ''    { include-group = "'' @ g @ ''" },'')
            (filter (\<lambda>g. g \<noteq> ''dev'') (map fst groups))
        @ map (\<lambda>dep. ''    "'' @ dep @ ''",'') ([''ipython'', ''ruff'', ''pre_commit'', ''mypy''] @ extra_dev)
        @ ['']''])\<close>
proof -
  have blocks:
    \<open>foldl (\<lambda>out (group_name, deps).
              if group_name = ''dev'' then out
              else out @ [group_name @ '' = [''] @ [format_string_array deps 4] @ ['']\<newline>''])
       [] groups =
     concat (map (\<lambda>(g, deps). [g @ '' = ['', format_string_array deps 4, '']\<newline>''])
               (filter (\<lambda>(g, deps). g \<noteq> ''dev'') groups))\<close>
    using foldl_group_blocks
      [where f = \<open>\<lambda>g deps. [g @ '' = [''] @ [format_string_array deps 4] @ ['']\<newline>'']\<close>
         and acc = \<open>[]\<close> and d = \<open>''dev''\<close> and gs = groups]
    by simp
  show ?thesis
    unfolding format_dependency_groups_def Let_def DEV_BASELINE_def blocks foldl_append_single
    by simp
qed





subsection \<open>The resolver, stanza by stanza\<close>

lemma bind_Inl [simp]: "bind (Inl e) f = Inl e"
  by (simp add: bind_def)

lemma bind_Inr [simp]: "bind (Inr x) f = f x"
  by (simp add: bind_def)

lemma failure_simps [simp]: "failure (Inl e) = Some e" "failure (Inr x) = None"
  by (simp_all add: failure_def)

lemma failure_None: "failure r = None \<Longrightarrow> \<exists>x. r = Inr x"
  by (cases r) simp_all

lemma failure_Some: "failure r = Some e \<Longrightarrow> r = Inl e"
  by (cases r) simp_all

lemma field_failure_simps:
  "field_failure raw ''project_name'' = failure (coerce_scalar raw ''project_name'')"
  "field_failure raw ''description'' = failure (coerce_scalar raw ''description'')"
  "field_failure raw ''project_url'' = failure (coerce_scalar raw ''project_url'')"
  "field_failure raw ''authors'' = failure (coerce_authors raw)"
  "field_failure raw ''dependencies'' = failure (coerce_list raw ''dependencies'')"
  "field_failure raw ''dependency_groups'' = failure (coerce_groups raw)"
  "field_failure raw ''dev_extras'' = failure (coerce_list raw ''dev_extras'')"
  by (simp_all add: field_failure_def)

lemma checking_order_nth:
  "checking_order ! 0 = ''project_name''"
  "checking_order ! 1 = ''description''"
  "checking_order ! Suc 0 = ''description''"
  "checking_order ! 2 = ''project_url''"
  "checking_order ! 3 = ''authors''"
  "checking_order ! 4 = ''dependencies''"
  "checking_order ! 5 = ''dependency_groups''"
  "checking_order ! 6 = ''dev_extras''"
  "length checking_order = 7"
  by (simp_all add: checking_order_def)

lemma less_7_cases: "i < (7::nat) \<Longrightarrow> i = 0 \<or> i = 1 \<or> i = 2 \<or> i = 3 \<or> i = 4 \<or> i = 5 \<or> i = 6"
  by arith

lemma first_failure:
  assumes i: "i < length checking_order"
    and e: "field_failure raw (checking_order ! i) = Some e"
    and before: "\<forall>j<i. field_failure raw (checking_order ! j) = None"
  shows "coerce_config raw = Inl e"
proof -
  have f0: "0 < i \<Longrightarrow> \<exists>x. coerce_scalar raw ''project_name'' = Inr x"
    using before [rule_format, of 0] by (simp add: checking_order_nth field_failure_simps failure_None)
  have f1: "1 < i \<Longrightarrow> \<exists>x. coerce_scalar raw ''description'' = Inr x"
    using before [rule_format, of 1] by (simp add: checking_order_nth field_failure_simps failure_None)
  have f2: "2 < i \<Longrightarrow> \<exists>x. coerce_scalar raw ''project_url'' = Inr x"
    using before [rule_format, of 2] by (simp add: checking_order_nth field_failure_simps failure_None)
  have f3: "3 < i \<Longrightarrow> \<exists>x. coerce_authors raw = Inr x"
    using before [rule_format, of 3] by (simp add: checking_order_nth field_failure_simps failure_None)
  have f4: "4 < i \<Longrightarrow> \<exists>x. coerce_list raw ''dependencies'' = Inr x"
    using before [rule_format, of 4] by (simp add: checking_order_nth field_failure_simps failure_None)
  have f5: "5 < i \<Longrightarrow> \<exists>x. coerce_groups raw = Inr x"
    using before [rule_format, of 5] by (simp add: checking_order_nth field_failure_simps failure_None)
  from i have "i = 0 \<or> i = 1 \<or> i = 2 \<or> i = 3 \<or> i = 4 \<or> i = 5 \<or> i = 6"
    unfolding checking_order_nth by arith
  then consider "i = 0" | "i = 1" | "i = 2" | "i = 3" | "i = 4" | "i = 5" | "i = 6"
    by blast
  then show ?thesis
  proof cases
    case 1
    with e have "coerce_scalar raw ''project_name'' = Inl e"
      by (simp add: checking_order_nth field_failure_simps failure_Some)
    then show ?thesis by (simp add: coerce_config_def)
  next
    case 2
    with e have "coerce_scalar raw ''description'' = Inl e"
      by (simp add: checking_order_nth field_failure_simps failure_Some)
    moreover from 2 f0 obtain a where "coerce_scalar raw ''project_name'' = Inr a" by auto
    ultimately show ?thesis by (simp add: coerce_config_def)
  next
    case 3
    with e have "coerce_scalar raw ''project_url'' = Inl e"
      by (simp add: checking_order_nth field_failure_simps failure_Some)
    moreover from 3 f0 obtain a where "coerce_scalar raw ''project_name'' = Inr a" by auto
    moreover from 3 f1 obtain b where "coerce_scalar raw ''description'' = Inr b" by auto
    ultimately show ?thesis by (simp add: coerce_config_def)
  next
    case 4
    with e have "coerce_authors raw = Inl e"
      by (simp add: checking_order_nth field_failure_simps failure_Some)
    moreover from 4 f0 obtain a where "coerce_scalar raw ''project_name'' = Inr a" by auto
    moreover from 4 f1 obtain b where "coerce_scalar raw ''description'' = Inr b" by auto
    moreover from 4 f2 obtain c where "coerce_scalar raw ''project_url'' = Inr c" by auto
    ultimately show ?thesis by (simp add: coerce_config_def)
  next
    case 5
    with e have "coerce_list raw ''dependencies'' = Inl e"
      by (simp add: checking_order_nth field_failure_simps failure_Some)
    moreover from 5 f0 obtain a where "coerce_scalar raw ''project_name'' = Inr a" by auto
    moreover from 5 f1 obtain b where "coerce_scalar raw ''description'' = Inr b" by auto
    moreover from 5 f2 obtain c where "coerce_scalar raw ''project_url'' = Inr c" by auto
    moreover from 5 f3 obtain d where "coerce_authors raw = Inr d" by auto
    ultimately show ?thesis by (simp add: coerce_config_def)
  next
    case 6
    with e have "coerce_groups raw = Inl e"
      by (simp add: checking_order_nth field_failure_simps failure_Some)
    moreover from 6 f0 obtain a where "coerce_scalar raw ''project_name'' = Inr a" by auto
    moreover from 6 f1 obtain b where "coerce_scalar raw ''description'' = Inr b" by auto
    moreover from 6 f2 obtain c where "coerce_scalar raw ''project_url'' = Inr c" by auto
    moreover from 6 f3 obtain d where "coerce_authors raw = Inr d" by auto
    moreover from 6 f4 obtain d' where "coerce_list raw ''dependencies'' = Inr d'" by auto
    ultimately show ?thesis by (simp add: coerce_config_def)
  next
    case 7
    with e have "coerce_list raw ''dev_extras'' = Inl e"
      by (simp add: checking_order_nth field_failure_simps failure_Some)
    moreover from 7 f0 obtain a where "coerce_scalar raw ''project_name'' = Inr a" by auto
    moreover from 7 f1 obtain b where "coerce_scalar raw ''description'' = Inr b" by auto
    moreover from 7 f2 obtain c where "coerce_scalar raw ''project_url'' = Inr c" by auto
    moreover from 7 f3 obtain d where "coerce_authors raw = Inr d" by auto
    moreover from 7 f4 obtain d' where "coerce_list raw ''dependencies'' = Inr d'" by auto
    moreover from 7 f5 obtain g where "coerce_groups raw = Inr g" by auto
    ultimately show ?thesis by (simp add: coerce_config_def)
  qed
qed

lemma coerce_author_entries_error:
  "coerce_author_entries acc es = Inl e \<Longrightarrow> \<exists>m. e = ConfigError m"
proof (induction es arbitrary: acc)
  case Nil
  then show ?case by simp
next
  case (Cons entry rest)
  then show ?case
    by (cases entry) (auto split: option.splits)
qed

lemma overlay_groups_error:
  "overlay_groups acc g = Inl e \<Longrightarrow> \<exists>m. e = ConfigError m"
proof (induction g arbitrary: acc)
  case Nil
  then show ?case by simp
next
  case (Cons kv rest)
  obtain k v where kv: "kv = (k, v)" by (cases kv)
  from Cons show ?case unfolding kv
    by (cases v) auto
qed

lemma coerce_scalar_error: "coerce_scalar raw k = Inl e \<Longrightarrow> e = ConfigError (missing k)"
  by (auto simp: coerce_scalar_def split: option.splits)

lemma coerce_list_error: "coerce_list raw k = Inl e \<Longrightarrow> \<exists>m. e = ConfigError m"
  by (auto simp: coerce_list_def split: option.splits pyval.splits)

lemma coerce_authors_error: "coerce_authors raw = Inl e \<Longrightarrow> \<exists>m. e = ConfigError m"
  by (auto simp: coerce_authors_def dest: coerce_author_entries_error
      split: option.splits pyval.splits if_splits)

lemma coerce_groups_error: "coerce_groups raw = Inl e \<Longrightarrow> \<exists>m. e = ConfigError m"
  by (auto simp: coerce_groups_def dest: overlay_groups_error split: option.splits pyval.splits)

lemma if_chain_cases:
  "(if A then a else if B then b else if C then c else if D then d else n) = a
   \<or> (if A then a else if B then b else if C then c else if D then d else n) = b
   \<or> (if A then a else if B then b else if C then c else if D then d else n) = c
   \<or> (if A then a else if B then b else if C then c else if D then d else n) = d
   \<or> (if A then a else if B then b else if C then c else if D then d else n) = n"
  by simp

lemma field_failure_cases:
  "field_failure raw f = failure (coerce_scalar raw f) \<or> field_failure raw f = failure (coerce_authors raw)
   \<or> field_failure raw f = failure (coerce_list raw f) \<or> field_failure raw f = failure (coerce_groups raw)
   \<or> field_failure raw f = None"
  unfolding field_failure_def by (rule if_chain_cases)

lemma field_failure_ConfigError:
  assumes "field_failure raw f = Some e"
  shows "\<exists>m. e = ConfigError m"
proof -
  from assms field_failure_cases [of raw f] consider
      "coerce_scalar raw f = Inl e" | "coerce_authors raw = Inl e"
    | "coerce_list raw f = Inl e" | "coerce_groups raw = Inl e"
    by (metis failure_Some option.distinct(1))
  then show ?thesis
  proof cases
    case 1 then show ?thesis by (blast dest: coerce_scalar_error)
  next
    case 2 then show ?thesis by (rule coerce_authors_error)
  next
    case 3 then show ?thesis by (rule coerce_list_error)
  next
    case 4 then show ?thesis by (rule coerce_groups_error)
  qed
qed

lemma no_failure:
  assumes "\<forall>f \<in> set checking_order. field_failure raw f = None"
  shows "\<exists>cfg. coerce_config raw = Inr cfg"
proof -
  have all: "field_failure raw ''project_name'' = None" "field_failure raw ''description'' = None"
    "field_failure raw ''project_url'' = None" "field_failure raw ''authors'' = None"
    "field_failure raw ''dependencies'' = None" "field_failure raw ''dependency_groups'' = None"
    "field_failure raw ''dev_extras'' = None"
    using assms by (simp_all add: checking_order_def)
  obtain a where a: "coerce_scalar raw ''project_name'' = Inr a"
    using all(1) failure_None unfolding field_failure_simps by blast
  obtain b where b: "coerce_scalar raw ''description'' = Inr b"
    using all(2) failure_None unfolding field_failure_simps by blast
  obtain c where c: "coerce_scalar raw ''project_url'' = Inr c"
    using all(3) failure_None unfolding field_failure_simps by blast
  obtain d where d: "coerce_authors raw = Inr d"
    using all(4) failure_None unfolding field_failure_simps by blast
  obtain e where e: "coerce_list raw ''dependencies'' = Inr e"
    using all(5) failure_None unfolding field_failure_simps by blast
  obtain f where f: "coerce_groups raw = Inr f"
    using all(6) failure_None unfolding field_failure_simps by blast
  obtain g where g: "coerce_list raw ''dev_extras'' = Inr g"
    using all(7) failure_None unfolding field_failure_simps by blast
  from a b c d e f g show ?thesis
    by (simp add: coerce_config_def)
qed

text \<open>What a successful resolution returns, field by field.\<close>

lemma coerce_config_Inr:
  assumes "coerce_config raw = Inr cfg"
  shows "\<exists>a b c d e f g.
    coerce_scalar raw ''project_name'' = Inr a \<and> coerce_scalar raw ''description'' = Inr b \<and>
    coerce_scalar raw ''project_url'' = Inr c \<and> coerce_authors raw = Inr d \<and>
    coerce_list raw ''dependencies'' = Inr e \<and> coerce_groups raw = Inr f \<and>
    coerce_list raw ''dev_extras'' = Inr g \<and>
    cfg = \<lparr>project_name = a, description = b, project_url = py_rstrip_chars ''/'' c,
           authors = d, dependencies = e, dependency_groups = f, dev_extras = g\<rparr>"
proof -
  obtain a where a: "coerce_scalar raw ''project_name'' = Inr a"
    using assms by (cases "coerce_scalar raw ''project_name''") (simp_all add: coerce_config_def)
  obtain b where b: "coerce_scalar raw ''description'' = Inr b"
    using assms a by (cases "coerce_scalar raw ''description''") (simp_all add: coerce_config_def)
  obtain c where c: "coerce_scalar raw ''project_url'' = Inr c"
    using assms a b by (cases "coerce_scalar raw ''project_url''") (simp_all add: coerce_config_def)
  obtain d where d: "coerce_authors raw = Inr d"
    using assms a b c by (cases "coerce_authors raw") (simp_all add: coerce_config_def)
  obtain e where e: "coerce_list raw ''dependencies'' = Inr e"
    using assms a b c d by (cases "coerce_list raw ''dependencies''") (simp_all add: coerce_config_def)
  obtain f where f: "coerce_groups raw = Inr f"
    using assms a b c d e by (cases "coerce_groups raw") (simp_all add: coerce_config_def)
  obtain g where g: "coerce_list raw ''dev_extras'' = Inr g"
    using assms a b c d e f by (cases "coerce_list raw ''dev_extras''") (simp_all add: coerce_config_def)
  from assms a b c d e f g show ?thesis
    by (simp add: coerce_config_def)
qed

lemma coerce_config_Inl:
  assumes "coerce_config raw = Inl err"
  shows "coerce_scalar raw ''project_name'' = Inl err \<or> coerce_scalar raw ''description'' = Inl err \<or>
    coerce_scalar raw ''project_url'' = Inl err \<or> coerce_authors raw = Inl err \<or>
    coerce_list raw ''dependencies'' = Inl err \<or> coerce_groups raw = Inl err \<or>
    coerce_list raw ''dev_extras'' = Inl err"
proof -
  show ?thesis
  proof (cases "coerce_scalar raw ''project_name''")
    case (Inl x) with assms show ?thesis by (simp add: coerce_config_def)
  next
    case a: (Inr a)
    show ?thesis
    proof (cases "coerce_scalar raw ''description''")
      case (Inl x) with assms a show ?thesis by (simp add: coerce_config_def)
    next
      case b: (Inr b)
      show ?thesis
      proof (cases "coerce_scalar raw ''project_url''")
        case (Inl x) with assms a b show ?thesis by (simp add: coerce_config_def)
      next
        case c: (Inr c)
        show ?thesis
        proof (cases "coerce_authors raw")
          case (Inl x) with assms a b c show ?thesis by (simp add: coerce_config_def)
        next
          case d: (Inr d)
          show ?thesis
          proof (cases "coerce_list raw ''dependencies''")
            case (Inl x) with assms a b c d show ?thesis by (simp add: coerce_config_def)
          next
            case e: (Inr e)
            show ?thesis
            proof (cases "coerce_groups raw")
              case (Inl x) with assms a b c d e show ?thesis by (simp add: coerce_config_def)
            next
              case f: (Inr f)
              show ?thesis
              proof (cases "coerce_list raw ''dev_extras''")
                case (Inl x) with assms a b c d e f show ?thesis by (simp add: coerce_config_def)
              next
                case (Inr g) with assms a b c d e f show ?thesis by (simp add: coerce_config_def)
              qed
            qed
          qed
        qed
      qed
    qed
  qed
qed

subsection \<open>The overlay of the dependency groups\<close>

lemma dict_get_dict_set: "dict_get (dict_set d k v) k' = (if k' = k then Some v else dict_get d k')"
  by (induction d) (auto simp: dict_get_def)

lemma keys_dict_set_old: "k \<in> set (map fst d) \<Longrightarrow> map fst (dict_set d k v) = map fst d"
proof (induction d)
  case Nil
  then show ?case by simp
next
  case (Cons p d)
  show ?case
  proof (cases "fst p = k")
    case True
    then show ?thesis by (cases p) simp
  next
    case False
    with Cons.prems have "k \<in> set (map fst d)" by auto
    from Cons.IH [OF this] False show ?thesis by (cases p) simp
  qed
qed

lemma keys_dict_set_new: "k \<notin> set (map fst d) \<Longrightarrow> map fst (dict_set d k v) = map fst d @ [k]"
  by (induction d) auto

lemma overlay_groups_lookup:
  assumes "overlay_groups acc g = Inr r" and "distinct (map fst g)"
  shows "(\<forall>k v. dict_get g k = Some v \<longrightarrow> (\<exists>ds. v = PList ds \<and> dict_get r k = Some (map py_str ds)))
    \<and> (\<forall>k. dict_get g k = None \<longrightarrow> dict_get r k = dict_get acc k)"
  using assms
proof (induction g arbitrary: acc)
  case Nil
  then show ?case by (simp add: dict_get_def)
next
  case (Cons kv rest)
  obtain k v where kv: "kv = (k, v)" by (cases kv)
  from Cons.prems obtain ds where v: "v = PList ds"
    and rest: "overlay_groups (dict_set acc k (map py_str ds)) rest = Inr r"
    unfolding kv by (cases v) simp_all
  from Cons.prems have d: "distinct (map fst rest)" and k: "k \<notin> fst ` set rest"
    unfolding kv by simp_all
  from k have knone: "dict_get rest k = None"
    by (simp add: dict_get_def map_of_eq_None_iff)
  note IH = Cons.IH [OF rest d]
  show ?case
  proof (intro conjI allI impI)
    fix k' v' assume "dict_get (kv # rest) k' = Some v'"
    then show "\<exists>ds. v' = PList ds \<and> dict_get r k' = Some (map py_str ds)"
      using IH knone v unfolding kv
      by (cases "k' = k") (auto simp: dict_get_def dict_get_dict_set [unfolded dict_get_def])
  next
    fix k' assume "dict_get (kv # rest) k' = None"
    then show "dict_get r k' = dict_get acc k'"
      using IH unfolding kv
      by (cases "k' = k") (auto simp: dict_get_def dict_get_dict_set [unfolded dict_get_def] split: if_splits)
  qed
qed

lemma overlay_groups_keys:
  assumes "overlay_groups acc g = Inr r" and "distinct (map fst g)"
  shows "map fst r = map fst acc @ filter (\<lambda>k. k \<notin> set (map fst acc)) (map fst g)"
  using assms
proof (induction g arbitrary: acc)
  case Nil
  then show ?case by simp
next
  case (Cons kv rest)
  obtain k v where kv: "kv = (k, v)" by (cases kv)
  from Cons.prems obtain ds where v: "v = PList ds"
    and rest: "overlay_groups (dict_set acc k (map py_str ds)) rest = Inr r"
    unfolding kv by (cases v) simp_all
  from Cons.prems have d: "distinct (map fst rest)" and k: "k \<notin> set (map fst rest)"
    unfolding kv by simp_all
  note IH = Cons.IH [OF rest d]
  show ?case
  proof (cases "k \<in> set (map fst acc)")
    case True
    from IH [unfolded keys_dict_set_old [OF True]] True show ?thesis
      unfolding kv by simp
  next
    case False
    have "filter (\<lambda>x. x \<notin> set (map fst acc @ [k])) (map fst rest)
        = filter (\<lambda>x. x \<notin> set (map fst acc)) (map fst rest)"
      using k by (intro filter_cong) auto
    with False IH [unfolded keys_dict_set_new [OF False]] show ?thesis
      unfolding kv by simp
  qed
qed

lemma default_groups_copy:
  "map (\<lambda>(key, value). (key, map (\<lambda>dep. dep) value)) DEFAULT_DEPENDENCY_GROUPS = DEFAULT_DEPENDENCY_GROUPS"
  by (simp add: DEFAULT_DEPENDENCY_GROUPS_def)

lemma default_groups_keys: "map fst DEFAULT_DEPENDENCY_GROUPS = [''test'', ''docs'', ''examples'']"
  by (simp add: DEFAULT_DEPENDENCY_GROUPS_def)

lemma coerce_groups_Inr:
  assumes "coerce_groups raw = Inr r" and "dict_get raw ''dependency_groups'' = Some (PDict g)"
  shows "overlay_groups DEFAULT_DEPENDENCY_GROUPS g = Inr r"
  using assms by (simp add: coerce_groups_def default_groups_copy)

text \<open>
  C2. When resolution succeeds on a document whose \<open>dependency_groups\<close> value is the mapping
  \<open>g\<close>, the resolved mapping holds, for every key of \<open>g\<close>, exactly the stringified
  entries of the list that \<open>g\<close> binds to it (the default of that name is replaced, not
  merged), and for every other key what the built-in defaults hold. Its keys are \<open>test\<close>,
  \<open>docs\<close>, \<open>examples\<close>, followed by the new names of \<open>g\<close> in the order of \<open>g\<close>; so the
  three default names are always there.
\<close>

theorem dependency_groups_overlay:
  assumes "coerce_config raw = Inr cfg"
    and "dict_get raw ''dependency_groups'' = Some (PDict g)"
    and "distinct (map fst g)"
  shows "(\<forall>k v. dict_get g k = Some v \<longrightarrow>
            (\<exists>ds. v = PList ds \<and> dict_get (dependency_groups cfg) k = Some (map py_str ds)))
    \<and> (\<forall>k. dict_get g k = None \<longrightarrow>
            dict_get (dependency_groups cfg) k = dict_get DEFAULT_DEPENDENCY_GROUPS k)
    \<and> map fst (dependency_groups cfg) =
        [''test'', ''docs'', ''examples'']
        @ filter (\<lambda>k. k \<notin> {''test'', ''docs'', ''examples''}) (map fst g)
    \<and> {''test'', ''docs'', ''examples''} \<subseteq> set (map fst (dependency_groups cfg))"
proof -
  from coerce_config_Inr [OF assms(1)] obtain f where
    f: "coerce_groups raw = Inr f" and cfg: "dependency_groups cfg = f"
    by auto
  have ov: "overlay_groups DEFAULT_DEPENDENCY_GROUPS g = Inr f"
    by (rule coerce_groups_Inr [OF f assms(2)])
  have keys: "map fst f = [''test'', ''docs'', ''examples'']
        @ filter (\<lambda>k. k \<notin> {''test'', ''docs'', ''examples''}) (map fst g)"
    using overlay_groups_keys [OF ov assms(3)] by (simp add: default_groups_keys)
  have "{''test'', ''docs'', ''examples''} \<subseteq> set (map fst f)"
    unfolding keys by simp
  with overlay_groups_lookup [OF ov assms(3)] keys show ?thesis
    unfolding cfg by blast
qed

subsection \<open>The sample documents\<close>

lemmas resolver_defs =
  coerce_config_def coerce_scalar_def coerce_authors_def coerce_list_def coerce_groups_def
  dict_get_def sample_raw_def without_def with_value_def missing_def py_str_def
  DEFAULT_DEPENDENCY_GROUPS_def py_rstrip_chars_def

lemma sample_resolves:
  "coerce_config sample_raw =
     Inr \<lparr>project_name = ''sample-project'',
          description = ''Sample description of the project.'',
          project_url = ''https://github.com/MoAly98/sample-project'',
          authors = [\<lparr>name = ''Mo'', email = ''mo@example.com''\<rparr>],
          dependencies = [''numpy'', ''scipy''],
          dependency_groups =
            [(''test'', [''pytest'']), (''docs'', [''sphinx'', ''furo'']), (''examples'', [''rich''])],
          dev_extras = [''pytest-xdist'']\<rparr>"
  by (simp add: resolver_defs)

lemma sample_without_name_and_authors:
  \<open>coerce_config (without [''project_name'', ''authors''] sample_raw) =
     Inl (ConfigError ''Missing \'project_name\' in configuration'')\<close>
  by (simp add: resolver_defs)

lemma sample_without_authors:
  \<open>coerce_config (without [''authors''] sample_raw) =
     Inl (ConfigError ''Missing \'authors\' in configuration'')\<close>
  by (simp add: resolver_defs)

lemma sample_null_name:
  \<open>\<exists>cfg. coerce_config (with_value ''project_name'' PNone sample_raw) = Inr cfg
     \<and> project_name cfg = ''None''\<close>
  by (simp add: resolver_defs)

theorem dependency_groups_overlay_witness:
  \<open>\<exists>cfg. coerce_config overlay_raw = Inr cfg
     \<and> dict_get overlay_raw ''dependency_groups'' =
         Some (PDict [(''test'', PList [PStr ''pytest'']), (''lint'', PList [PStr ''ruff''])])
     \<and> dict_get (dependency_groups cfg) ''test'' = Some [''pytest'']
     \<and> dict_get (dependency_groups cfg) ''lint'' = Some [''ruff'']
     \<and> dict_get (dependency_groups cfg) ''docs'' = dict_get DEFAULT_DEPENDENCY_GROUPS ''docs''
     \<and> dict_get (dependency_groups cfg) ''examples'' = dict_get DEFAULT_DEPENDENCY_GROUPS ''examples''
     \<and> map fst (dependency_groups cfg) = [''test'', ''docs'', ''examples'', ''lint'']\<close>
proof -
  obtain cfg where cfg: "coerce_config overlay_raw = Inr cfg"
    by (simp add: resolver_defs overlay_raw_def)
  have g: \<open>dict_get overlay_raw ''dependency_groups'' =
      Some (PDict [(''test'', PList [PStr ''pytest'']), (''lint'', PList [PStr ''ruff''])])\<close>
    by (simp add: resolver_defs overlay_raw_def)
  have d: \<open>distinct (map fst [(''test'', PList [PStr ''pytest'']), (''lint'', PList [PStr ''ruff''])])\<close>
    by simp
  note t = dependency_groups_overlay [OF cfg g d]
  have 1: \<open>dict_get (dependency_groups cfg) ''test'' = Some [''pytest'']\<close>
    using t [THEN conjunct1, rule_format, of \<open>''test''\<close> \<open>PList [PStr ''pytest'']\<close>]
    by (simp add: dict_get_def py_str_def)
  have 2: \<open>dict_get (dependency_groups cfg) ''lint'' = Some [''ruff'']\<close>
    using t [THEN conjunct1, rule_format, of \<open>''lint''\<close> \<open>PList [PStr ''ruff'']\<close>]
    by (simp add: dict_get_def py_str_def)
  have 3: \<open>dict_get (dependency_groups cfg) ''docs'' = dict_get DEFAULT_DEPENDENCY_GROUPS ''docs''\<close>
    using t [THEN conjunct2, THEN conjunct1, rule_format, of \<open>''docs''\<close>]
    by (simp add: dict_get_def)
  have 4: \<open>dict_get (dependency_groups cfg) ''examples'' = dict_get DEFAULT_DEPENDENCY_GROUPS ''examples''\<close>
    using t [THEN conjunct2, THEN conjunct1, rule_format, of \<open>''examples''\<close>]
    by (simp add: dict_get_def)
  have 5: \<open>map fst (dependency_groups cfg) = [''test'', ''docs'', ''examples'', ''lint'']\<close>
    using t [THEN conjunct2, THEN conjunct2, THEN conjunct1] by simp
  show ?thesis
    by (rule exI [of _ cfg]) (intro conjI cfg g 1 2 3 4 5)
qed

subsection \<open>Missing keys and the checking order\<close>

lemma missing_inject: "missing k = missing k' \<Longrightarrow> k = k'"
  by (simp add: missing_def)

lemma hd_missing: "hd (missing k) = CHR ''M''"
  by (simp add: missing_def)

lemma coerce_scalar_missing:
  "coerce_scalar raw k' = Inl (ConfigError (missing k)) \<Longrightarrow> dict_get raw k = None"
  by (auto simp: coerce_scalar_def dest: missing_inject split: option.splits)

lemma coerce_author_entries_message:
  "coerce_author_entries acc es = Inl (ConfigError m) \<Longrightarrow> hd m \<noteq> CHR ''M''"
proof (induction es arbitrary: acc)
  case Nil
  then show ?case by simp
next
  case (Cons entry rest)
  then show ?case
    by (cases entry) (auto split: option.splits)
qed

lemma overlay_groups_message:
  "overlay_groups acc g = Inl (ConfigError m) \<Longrightarrow> hd m \<noteq> CHR ''M''"
proof (induction g arbitrary: acc)
  case Nil
  then show ?case by simp
next
  case (Cons kv rest)
  obtain k v where kv: "kv = (k, v)" by (cases kv)
  from Cons show ?case unfolding kv
    by (cases v) auto
qed

lemma coerce_authors_missing:
  assumes "coerce_authors raw = Inl (ConfigError (missing k))"
  shows "dict_get raw k = None"
proof (cases "dict_get raw ''authors''")
  case None
  with assms show ?thesis by (auto simp: coerce_authors_def dest: missing_inject)
next
  case (Some v)
  show ?thesis
  proof (cases v)
    case (PList es)
    show ?thesis
    proof (cases "es = []")
      case True
      with assms Some PList show ?thesis
        by (simp add: coerce_authors_def missing_def)
    next
      case False
      with assms Some PList have "coerce_author_entries [] es = Inl (ConfigError (missing k))"
        by (simp add: coerce_authors_def)
      from coerce_author_entries_message [OF this] show ?thesis by (simp add: hd_missing)
    qed
  qed (use assms Some in \<open>auto simp: coerce_authors_def missing_def\<close>)
qed

lemma coerce_list_missing:
  assumes "coerce_list raw k' = Inl (ConfigError (missing k))"
  shows "dict_get raw k = None"
proof (cases "dict_get raw k'")
  case None
  with assms show ?thesis by (auto simp: coerce_list_def dest: missing_inject)
next
  case (Some v)
  with assms show ?thesis
    by (cases v) (simp_all add: coerce_list_def missing_def)
qed

lemma coerce_groups_missing:
  assumes "coerce_groups raw = Inl (ConfigError (missing k))"
  shows "dict_get raw k = None"
proof (cases "dict_get raw ''dependency_groups''")
  case None
  with assms show ?thesis by (auto simp: coerce_groups_def dest: missing_inject)
next
  case (Some v)
  show ?thesis
  proof (cases v)
    case (PDict g)
    with assms Some have "\<exists>acc. overlay_groups acc g = Inl (ConfigError (missing k))"
      by (auto simp: coerce_groups_def)
    then show ?thesis by (auto dest: overlay_groups_message simp: hd_missing)
  qed (use assms Some in \<open>auto simp: coerce_groups_def missing_def\<close>)
qed

lemma missing_only_if_absent:
  assumes "coerce_config raw = Inl (ConfigError (missing k))"
  shows "dict_get raw k = None"
  using coerce_config_Inl [OF assms]
  by (elim disjE)
    (erule coerce_scalar_missing coerce_authors_missing coerce_list_missing coerce_groups_missing)+

text \<open>
  C10. The error \<open>Missing 'k' in configuration\<close> is raised only when the key \<open>k\<close> is absent
  from the document. A scalar key that is present is never an error, whatever it is bound
  to: its value is stringified, and the null value becomes the string \<open>None\<close>. When
  resolution succeeds, \<open>project_name\<close> and \<open>description\<close> are the stringified values of their
  keys, and \<open>project_url\<close> is the stringified value without its trailing slashes.
\<close>

theorem present_scalar_is_stringified:
  \<open>(coerce_config raw = Inl (ConfigError (missing k)) \<longrightarrow> dict_get raw k = None)
   \<and> (dict_get raw k = Some v \<longrightarrow> coerce_scalar raw k = Inr (py_str v))
   \<and> py_str PNone = ''None''
   \<and> (coerce_config raw = Inr cfg \<longrightarrow>
        (\<exists>a b c. dict_get raw ''project_name'' = Some a \<and> project_name cfg = py_str a
           \<and> dict_get raw ''description'' = Some b \<and> description cfg = py_str b
           \<and> dict_get raw ''project_url'' = Some c
           \<and> project_url cfg = py_rstrip_chars ''/'' (py_str c)))\<close>
proof (intro conjI impI)
  assume "coerce_config raw = Inl (ConfigError (missing k))"
  then show "dict_get raw k = None" by (rule missing_only_if_absent)
next
  assume "dict_get raw k = Some v"
  then show "coerce_scalar raw k = Inr (py_str v)" by (simp add: coerce_scalar_def)
next
  show "py_str PNone = ''None''" by (simp add: py_str_def)
next
  assume "coerce_config raw = Inr cfg"
  from coerce_config_Inr [OF this] obtain a b c where
    "coerce_scalar raw ''project_name'' = Inr a" "coerce_scalar raw ''description'' = Inr b"
    "coerce_scalar raw ''project_url'' = Inr c"
    "project_name cfg = a" "description cfg = b" "project_url cfg = py_rstrip_chars ''/'' c"
    by auto
  then show "\<exists>a b c. dict_get raw ''project_name'' = Some a \<and> project_name cfg = py_str a
           \<and> dict_get raw ''description'' = Some b \<and> description cfg = py_str b
           \<and> dict_get raw ''project_url'' = Some c
           \<and> project_url cfg = py_rstrip_chars ''/'' (py_str c)"
    by (auto simp: coerce_scalar_def split: option.splits)
qed

theorem present_scalar_is_stringified_witness:
  \<open>dict_get (with_value ''project_name'' PNone sample_raw) ''project_name'' = Some PNone
   \<and> coerce_scalar (with_value ''project_name'' PNone sample_raw) ''project_name'' = Inr ''None''
   \<and> coerce_config (with_value ''project_name'' PNone sample_raw)
       \<noteq> Inl (ConfigError (missing ''project_name''))
   \<and> (\<exists>cfg. coerce_config (with_value ''project_name'' PNone sample_raw) = Inr cfg
         \<and> project_name cfg = ''None'')
   \<and> coerce_config (without [''description''] sample_raw) = Inl (ConfigError (missing ''description''))
   \<and> dict_get (without [''description''] sample_raw) ''description'' = None\<close>
  using present_scalar_is_stringified
    [of \<open>with_value ''project_name'' PNone sample_raw\<close> \<open>''project_name''\<close> PNone]
    present_scalar_is_stringified
    [of \<open>without [''description''] sample_raw\<close> \<open>''description''\<close>]
  by (simp add: resolver_defs)

text \<open>
  C4. Resolution fails with the \<open>ConfigError\<close> of the first field, in the order
  \<open>project_name\<close>, \<open>description\<close>, \<open>project_url\<close>, \<open>authors\<close>, \<open>dependencies\<close>,
  \<open>dependency_groups\<close>, \<open>dev_extras\<close>, whose own check fails, and returns no descriptor then;
  it returns a descriptor when no check fails. In particular a document without
  \<open>project_name\<close> fails with the error that names \<open>project_name\<close>, whatever else is missing.
\<close>

theorem first_offending_field:
  \<open>(\<forall>i e. i < length checking_order \<and> field_failure raw (checking_order ! i) = Some e
       \<and> (\<forall>j<i. field_failure raw (checking_order ! j) = None)
       \<longrightarrow> coerce_config raw = Inl e \<and> (\<exists>m. e = ConfigError m))
   \<and> ((\<forall>f \<in> set checking_order. field_failure raw f = None) \<longrightarrow> (\<exists>cfg. coerce_config raw = Inr cfg))
   \<and> (dict_get raw ''project_name'' = None \<longrightarrow>
        coerce_config raw = Inl (ConfigError ''Missing \'project_name\' in configuration''))\<close>
proof (intro conjI allI impI)
  fix i e
  assume a: "i < length checking_order \<and> field_failure raw (checking_order ! i) = Some e
       \<and> (\<forall>j<i. field_failure raw (checking_order ! j) = None)"
  then show "coerce_config raw = Inl e" using first_failure [of i raw e] by blast
  from a show "\<exists>m. e = ConfigError m" by (blast dest: field_failure_ConfigError)
next
  assume "\<forall>f \<in> set checking_order. field_failure raw f = None"
  then show "\<exists>cfg. coerce_config raw = Inr cfg" by (rule no_failure)
next
  assume "dict_get raw ''project_name'' = None"
  then show \<open>coerce_config raw = Inl (ConfigError ''Missing \'project_name\' in configuration'')\<close>
    by (simp add: coerce_config_def coerce_scalar_def missing_def)
qed

theorem first_offending_field_witness:
  \<open>dict_get (without [''project_name'', ''authors''] sample_raw) ''project_name'' = None
   \<and> dict_get (without [''project_name'', ''authors''] sample_raw) ''authors'' = None
   \<and> coerce_config (without [''project_name'', ''authors''] sample_raw) =
       Inl (ConfigError ''Missing \'project_name\' in configuration'')
   \<and> field_failure (without [''authors''] sample_raw) (checking_order ! 3) =
       Some (ConfigError ''Missing \'authors\' in configuration'')
   \<and> coerce_config (without [''authors''] sample_raw) =
       Inl (ConfigError ''Missing \'authors\' in configuration'')
   \<and> (\<exists>cfg. coerce_config sample_raw = Inr cfg)\<close>
proof -
  have none: "\<forall>f \<in> set checking_order. field_failure sample_raw f = None"
    by (simp add: checking_order_def field_failure_simps resolver_defs)
  have before: "\<forall>j<3. field_failure (without [''authors''] sample_raw) (checking_order ! j) = None"
  proof (intro allI impI)
    fix j :: nat assume "j < 3"
    then have "j = 0 \<or> j = 1 \<or> j = 2" by arith
    then show "field_failure (without [''authors''] sample_raw) (checking_order ! j) = None"
      by (auto simp: checking_order_nth field_failure_simps resolver_defs)
  qed
  have at: \<open>field_failure (without [''authors''] sample_raw) (checking_order ! 3) =
       Some (ConfigError ''Missing \'authors\' in configuration'')\<close>
    by (simp add: checking_order_nth field_failure_simps resolver_defs)
  have absent: "dict_get (without [''project_name'', ''authors''] sample_raw) ''project_name'' = None"
    "dict_get (without [''project_name'', ''authors''] sample_raw) ''authors'' = None"
    by (simp_all add: resolver_defs)
  note t = first_offending_field
  from t [of \<open>without [''project_name'', ''authors''] sample_raw\<close>] absent
  have 1: \<open>coerce_config (without [''project_name'', ''authors''] sample_raw) =
       Inl (ConfigError ''Missing \'project_name\' in configuration'')\<close>
    by blast
  have len: "3 < length checking_order"
    by (simp add: checking_order_def)
  from t [of \<open>without [''authors''] sample_raw\<close>] len at before
  have 2: \<open>coerce_config (without [''authors''] sample_raw) =
       Inl (ConfigError ''Missing \'authors\' in configuration'')\<close>
    by blast
  from t [of sample_raw] none have 3: "\<exists>cfg. coerce_config sample_raw = Inr cfg"
    by blast
  from absent 1 at 2 3 show ?thesis by blast
qed

subsection \<open>The file system\<close>

lemma extends_refl: "extends fs fs"
  by (simp add: extends_def)

lemma extends_trans:
  assumes "extends a b" and "extends b c"
  shows "extends a c"
  unfolding extends_def
proof (intro allI impI)
  fix q assume q: "a q \<noteq> None"
  with assms(1) have ab: "kind b q = kind a q" by (simp add: extends_def)
  with q have "b q \<noteq> None" by (auto simp: kind_def)
  with assms(2) have "kind c q = kind b q" by (simp add: extends_def)
  with ab show "kind c q = kind a q" by simp
qed

lemma extends_Dir:
  assumes "extends fs fs'" and "fs q = Some Dir"
  shows "fs' q = Some Dir"
proof -
  from assms have "kind fs' q = Some True"
    by (simp add: extends_def kind_def)
  then show ?thesis by (auto simp: kind_def)
qed

lemma extends_File:
  assumes "extends fs fs'" and "fs q = Some (File t)"
  shows "\<exists>t'. fs' q = Some (File t')"
proof -
  from assms have k: "kind fs' q = Some False"
    by (simp add: extends_def kind_def)
  then obtain n where n: "fs' q = Some n" and "n \<noteq> Dir"
    by (auto simp: kind_def)
  then show ?thesis by (cases n) simp_all
qed

lemma extends_upd_new: "fs q = None \<Longrightarrow> extends fs (fs(q \<mapsto> n))"
  by (simp add: extends_def kind_def)

lemma extends_upd_file: "fs q = Some (File t) \<Longrightarrow> extends fs (fs(q \<mapsto> File t'))"
  by (simp add: extends_def kind_def)

lemma walk_mono:
  "extends fs fs' \<Longrightarrow> walk fs cur cs = Inr q \<Longrightarrow> walk fs' cur cs = Inr q"
proof (induction cs arbitrary: cur)
  case Nil
  then show ?case by simp
next
  case (Cons c cs)
  from Cons.prems(2) have d: "fs cur = Some Dir"
    by (auto split: option.splits node.splits)
  have d': "fs' cur = Some Dir" by (rule extends_Dir [OF Cons.prems(1) d])
  from Cons.prems(2) d have "walk fs (if c = ''..'' then butlast cur else cur @ [c]) cs = Inr q"
    by simp
  from Cons.IH [OF Cons.prems(1) this] d' show ?case by simp
qed

lemma walk_append:
  "walk fs cur (cs @ ds) = (case walk fs cur cs of Inl e \<Rightarrow> Inl e | Inr q \<Rightarrow> walk fs q ds)"
  by (induction cs arbitrary: cur) (auto split: option.splits node.splits)

lemma is_dir_iff: "is_dir fs p \<longleftrightarrow> (\<exists>q. stat fs p = Inr (q, Dir))"
proof (cases "stat fs p")
  case (Inl e)
  then show ?thesis by (simp add: is_dir_def)
next
  case (Inr x)
  obtain q n where "x = (q, n)" by (cases x)
  with Inr show ?thesis by (cases n) (simp_all add: is_dir_def)
qed

lemma path_exists_iff: "path_exists fs p \<longleftrightarrow> (\<exists>q n. stat fs p = Inr (q, n))"
  by (cases "stat fs p") (simp_all add: path_exists_def)

lemma stat_mono:
  assumes "extends fs fs'" and "stat fs p = Inr (q, n)"
  shows "\<exists>n'. stat fs' p = Inr (q, n') \<and> (n = Dir \<longrightarrow> n' = Dir)"
proof -
  from assms(2) have w: "walk fs [] p = Inr q" and n: "fs q = Some n"
    by (auto simp: stat_def split: sum.splits option.splits)
  from walk_mono [OF assms(1) w] have w': "walk fs' [] p = Inr q" .
  show ?thesis
  proof (cases n)
    case Dir
    with n assms(1) have "fs' q = Some Dir" by (auto dest: extends_Dir)
    with w' Dir show ?thesis by (simp add: stat_def)
  next
    case (File t)
    with n assms(1) obtain t' where "fs' q = Some (File t')" by (auto dest: extends_File)
    with w' File show ?thesis by (simp add: stat_def)
  qed
qed

lemma path_exists_mono: "extends fs fs' \<Longrightarrow> path_exists fs p \<Longrightarrow> path_exists fs' p"
proof -
  assume e: "extends fs fs'" and "path_exists fs p"
  then obtain q n where "stat fs p = Inr (q, n)"
    unfolding path_exists_iff by blast
  from stat_mono [OF e this] show ?thesis unfolding path_exists_iff by blast
qed

lemma is_dir_mono: "extends fs fs' \<Longrightarrow> is_dir fs p \<Longrightarrow> is_dir fs' p"
  unfolding is_dir_iff by (blast dest: stat_mono)

lemma is_dir_exists: "is_dir fs p \<Longrightarrow> path_exists fs p"
  unfolding is_dir_iff path_exists_iff by blast

text \<open>A path below an existing directory: the directory is passed on the way.\<close>

lemma is_dir_prefix:
  assumes "is_dir fs (p @ [c])"
  shows "is_dir fs p"
proof -
  from assms obtain q where w: "walk fs [] (p @ [c]) = Inr q"
    unfolding is_dir_iff by (auto simp: stat_def split: sum.splits)
  then obtain q0 where w0: "walk fs [] p = Inr q0" and s: "walk fs q0 [c] = Inr q"
    by (auto simp: walk_append split: sum.splits)
  from s have "fs q0 = Some Dir"
    by (auto split: option.splits node.splits)
  with w0 show ?thesis unfolding is_dir_iff by (simp add: stat_def)
qed

subsection \<open>What the calls change\<close>

lemma os_mkdir_Inr:
  assumes "os_mkdir fs p = Inr fs'"
  shows "\<exists>q. locate fs p = Inr (Slot q) \<and> fs q = None \<and> fs' = fs(q \<mapsto> Dir)"
  using assms
  by (auto simp: os_mkdir_def split: sum.splits target.splits option.splits)

lemma locate_Slot:
  assumes "locate fs p = Inr (Slot q)"
  shows "p \<noteq> [] \<and> last p \<noteq> ''..'' \<and> (\<exists>par. walk fs [] (butlast p) = Inr par \<and> fs par = Some Dir
    \<and> q = par @ [last p])"
  using assms
  by (auto simp: locate_def split: if_splits sum.splits option.splits node.splits)

lemma walk_to_slot:
  assumes "locate fs p = Inr (Slot q)"
  shows "walk fs [] p = Inr q"
proof -
  from locate_Slot [OF assms] obtain par where
    p: "p \<noteq> []" "last p \<noteq> ''..''" and w: "walk fs [] (butlast p) = Inr par"
    and d: "fs par = Some Dir" and q: "q = par @ [last p]"
    by auto
  have "walk fs [] (butlast p @ [last p]) = Inr q"
    using w d p(2) q by (simp add: walk_append)
  with p(1) show ?thesis by simp
qed

lemma os_mkdir_extends: "os_mkdir fs p = Inr fs' \<Longrightarrow> extends fs fs'"
  by (auto dest!: os_mkdir_Inr intro: extends_upd_new)

lemma os_mkdir_is_dir:
  assumes "os_mkdir fs p = Inr fs'"
  shows "is_dir fs' p"
proof -
  from os_mkdir_Inr [OF assms] obtain q where
    l: "locate fs p = Inr (Slot q)" and n: "fs q = None" and fs': "fs' = fs(q \<mapsto> Dir)"
    by auto
  from walk_mono [OF os_mkdir_extends [OF assms] walk_to_slot [OF l]]
  have "walk fs' [] p = Inr q" .
  then show ?thesis unfolding is_dir_iff by (simp add: stat_def fs')
qed

lemma mkdir_exist_ok_extends: "mkdir_exist_ok fs p = (fs', r) \<Longrightarrow> extends fs fs'"
  by (auto simp: mkdir_exist_ok_def extends_refl dest: os_mkdir_extends split: sum.splits if_splits)

lemma mkdir_exist_ok_is_dir: "mkdir_exist_ok fs p = (fs', None) \<Longrightarrow> is_dir fs' p"
  by (auto simp: mkdir_exist_ok_def dest: os_mkdir_is_dir split: sum.splits if_splits)

declare mkdir_parents.simps [simp del]

lemma mkdir_parents_made: "os_mkdir fs p = Inr x \<Longrightarrow> mkdir_parents fs p = (x, None)"
  by (subst mkdir_parents.simps) simp

lemma mkdir_parents_other:
  "os_mkdir fs p = Inl e \<Longrightarrow> e \<noteq> ENOENT \<Longrightarrow>
   mkdir_parents fs p = (if is_dir fs p then (fs, None) else (fs, Some (OSError e p)))"
  by (subst mkdir_parents.simps) simp

lemma mkdir_parents_root:
  "os_mkdir fs p = Inl ENOENT \<Longrightarrow> p = [] \<Longrightarrow> mkdir_parents fs p = (fs, Some (OSError ENOENT p))"
  by (subst mkdir_parents.simps) simp

lemma mkdir_parents_parent:
  "os_mkdir fs p = Inl ENOENT \<Longrightarrow> p \<noteq> [] \<Longrightarrow>
   mkdir_parents fs p =
     (case mkdir_parents fs (butlast p) of
        (fs1, Some err) \<Rightarrow> (fs1, Some err)
      | (fs1, None) \<Rightarrow> mkdir_exist_ok fs1 p)"
  by (subst mkdir_parents.simps) simp

lemma mkdir_parents_cases:
  assumes "mkdir_parents fs p = (fs', r)"
  obtains (made) "os_mkdir fs p = Inr fs'" "r = None"
  | (root) "os_mkdir fs p = Inl ENOENT" "p = []" "fs' = fs" "r = Some (OSError ENOENT p)"
  | (parent_failed) err where "os_mkdir fs p = Inl ENOENT" "p \<noteq> []"
      "mkdir_parents fs (butlast p) = (fs', Some err)" "r = Some err"
  | (parent_made) fs1 where "os_mkdir fs p = Inl ENOENT" "p \<noteq> []"
      "mkdir_parents fs (butlast p) = (fs1, None)" "mkdir_exist_ok fs1 p = (fs', r)"
  | (there) e where "os_mkdir fs p = Inl e" "e \<noteq> ENOENT" "is_dir fs p" "fs' = fs" "r = None"
  | (other) e where "os_mkdir fs p = Inl e" "e \<noteq> ENOENT" "\<not> is_dir fs p" "fs' = fs"
      "r = Some (OSError e p)"
proof (cases "os_mkdir fs p")
  case (Inr x)
  from mkdir_parents_made [OF Inr] assms have "x = fs'" "r = None" by simp_all
  with Inr show ?thesis by (intro made) simp_all
next
  case (Inl e)
  show ?thesis
  proof (cases "e = ENOENT")
    case False
    note eq = mkdir_parents_other [OF Inl False]
    show ?thesis
    proof (cases "is_dir fs p")
      case True
      with eq assms have "fs' = fs" "r = None" by simp_all
      with Inl False True show ?thesis by (intro there)
    next
      case nd: False
      with eq assms have "fs' = fs" "r = Some (OSError e p)" by simp_all
      with Inl False nd show ?thesis by (intro other)
    qed
  next
    case True
    with Inl have en: "os_mkdir fs p = Inl ENOENT" by simp
    show ?thesis
    proof (cases "p = []")
      case True
      from mkdir_parents_root [OF en True] assms have "fs' = fs" "r = Some (OSError ENOENT p)"
        by simp_all
      with en True show ?thesis by (intro root)
    next
      case False
      note eq = mkdir_parents_parent [OF en False]
      obtain fs1 r1 where rec: "mkdir_parents fs (butlast p) = (fs1, r1)"
        by (cases "mkdir_parents fs (butlast p)")
      show ?thesis
      proof (cases r1)
        case None
        with eq rec assms have "mkdir_exist_ok fs1 p = (fs', r)" by simp
        with en False rec None show ?thesis by (intro parent_made) simp_all
      next
        case (Some err)
        with eq rec assms have "fs1 = fs'" "r = Some err" by simp_all
        with en False rec Some show ?thesis by (intro parent_failed) simp_all
      qed
    qed
  qed
qed

lemma mkdir_parents_extends: "mkdir_parents fs p = (fs', r) \<Longrightarrow> extends fs fs'"
proof (induction p arbitrary: fs' r rule: length_induct)
  case (1 p)
  from "1.prems" show ?case
  proof (cases rule: mkdir_parents_cases)
    case made
    then show ?thesis by (simp add: os_mkdir_extends)
  next
    case (parent_failed err)
    from "1.IH" [rule_format, of "butlast p", OF _ parent_failed(3)] parent_failed(2)
    show ?thesis by simp
  next
    case (parent_made fs1)
    from "1.IH" [rule_format, of "butlast p", OF _ parent_made(3)] parent_made(2)
    have "extends fs fs1" by simp
    with mkdir_exist_ok_extends [OF parent_made(4)] show ?thesis by (rule extends_trans [rotated])
  qed (simp_all add: extends_refl)
qed

lemma mkdir_parents_is_dir: "mkdir_parents fs p = (fs', None) \<Longrightarrow> is_dir fs' p"
proof -
  assume a: "mkdir_parents fs p = (fs', None)"
  then show ?thesis
  proof (cases rule: mkdir_parents_cases)
    case made
    then show ?thesis by (simp add: os_mkdir_is_dir)
  next
    case (parent_made fs1)
    then show ?thesis by (simp add: mkdir_exist_ok_is_dir)
  qed simp_all
qed

lemma ensure_directories_extends: "ensure_directories fs ds = (fs', r) \<Longrightarrow> extends fs fs'"
proof (induction ds arbitrary: fs)
  case Nil
  then show ?case by (simp add: extends_refl)
next
  case (Cons d ds)
  obtain fs1 r1 where one: "ensure_directory fs d = (fs1, r1)" by (cases "ensure_directory fs d")
  then have e1: "extends fs fs1" by (simp add: ensure_directory_def mkdir_parents_extends)
  show ?case
  proof (cases r1)
    case None
    with Cons.prems one have "ensure_directories fs1 ds = (fs', r)" by simp
    from Cons.IH [OF this] e1 show ?thesis by (rule extends_trans [rotated])
  next
    case (Some err)
    with Cons.prems one e1 show ?thesis by simp
  qed
qed

lemma ensure_directories_is_dir:
  "ensure_directories fs ds = (fs', None) \<Longrightarrow> d \<in> set ds \<Longrightarrow> is_dir fs' d"
proof (induction ds arbitrary: fs)
  case Nil
  then show ?case by simp
next
  case (Cons x ds)
  obtain fs1 r1 where one: "ensure_directory fs x = (fs1, r1)" by (cases "ensure_directory fs x")
  with Cons.prems(1) have r1: "r1 = None" and rest: "ensure_directories fs1 ds = (fs', None)"
    by (cases r1; simp)+
  show ?case
  proof (cases "d = x")
    case True
    from one r1 have "is_dir fs1 x" by (simp add: ensure_directory_def mkdir_parents_is_dir)
    with ensure_directories_extends [OF rest] True show ?thesis by (simp add: is_dir_mono)
  next
    case False
    with Cons.prems(2) have "d \<in> set ds" by simp
    from Cons.IH [OF rest this] show ?thesis .
  qed
qed

subsection \<open>Writing\<close>

lemma write_text_cases:
  assumes "write_text fs p content = (fs', r)"
  obtains (written) q where "locate fs p = Inr (Slot q)" "fs q \<noteq> Some Dir"
      "fs' = fs(q \<mapsto> File content)" "r = None"
  | (failed) err where "fs' = fs" "r = Some err"
  using assms
  by (auto simp: write_text_def split: sum.splits target.splits option.splits node.splits)

lemma write_text_extends: "write_text fs p content = (fs', r) \<Longrightarrow> extends fs fs'"
proof (erule write_text_cases)
  fix q assume "fs q \<noteq> Some Dir" and fs': "fs' = fs(q \<mapsto> File content)"
  then show "extends fs fs'"
  proof (cases "fs q")
    case None
    then show ?thesis unfolding fs' by (rule extends_upd_new)
  next
    case (Some n)
    with \<open>fs q \<noteq> Some Dir\<close> obtain t where "fs q = Some (File t)" by (cases n) simp_all
    then show ?thesis unfolding fs' by (rule extends_upd_file)
  qed
qed (simp add: extends_refl)

lemma write_files_extends: "write_files fs fl = (fs', r) \<Longrightarrow> extends fs fs'"
proof (induction fl arbitrary: fs)
  case Nil
  then show ?case by (simp add: extends_refl)
next
  case (Cons f fl)
  obtain p c where f: "f = (p, c)" by (cases f)
  obtain fs1 r1 where one: "write_file fs p c = (fs1, r1)" by (cases "write_file fs p c")
  then have e1: "extends fs fs1" by (simp add: write_file_def write_text_extends)
  show ?case
  proof (cases r1)
    case None
    with Cons.prems one f have "write_files fs1 fl = (fs', r)" by simp
    from Cons.IH [OF this] e1 show ?thesis by (rule extends_trans [rotated])
  next
    case (Some err)
    with Cons.prems one e1 f show ?thesis by simp
  qed
qed

subsection \<open>The checks of the emitter\<close>

lemma split_acc_plain: "sep \<notin> set s \<Longrightarrow> split_acc sep cur s = [rev cur @ s]"
  by (induction s arbitrary: cur) auto

lemma path_div_plain:
  "CHR ''/'' \<notin> set s \<Longrightarrow> s \<noteq> [] \<Longrightarrow> s \<noteq> ''.'' \<Longrightarrow> path_div p s = p @ [s]"
  by (cases s) (auto simp: path_div_def parse_parts_def py_split_def split_acc_plain)

lemma emit_Inr:
  assumes "emit g fs cfg dest = (fs', Inr r)"
  shows "path_exists fs dest \<and> \<not> path_exists fs (path_div dest (project_name cfg))
    \<and> (\<exists>fs1. ensure_directories fs
           (directories (path_div dest (project_name cfg)) (normalize_package_name (project_name cfg)))
           = (fs1, None)
         \<and> write_files fs1
             (files g cfg (path_div dest (project_name cfg)) (normalize_package_name (project_name cfg))
                (build_author_label (authors cfg) (project_name cfg))) = (fs', None))
    \<and> r = resolve fs' (path_div dest (project_name cfg))"
proof -
  let ?root = "path_div dest (project_name cfg)"
  let ?pkg = "normalize_package_name (project_name cfg)"
  let ?label = "build_author_label (authors cfg) (project_name cfg)"
  from assms have d: "path_exists fs dest"
    by (cases "path_exists fs dest") (simp_all add: emit_def)
  from assms d have nr: "\<not> path_exists fs ?root"
    by (cases "path_exists fs ?root") (simp_all add: emit_def)
  obtain fs1 r1 where dirs: "ensure_directories fs (directories ?root ?pkg) = (fs1, r1)"
    by (cases "ensure_directories fs (directories ?root ?pkg)")
  from assms d nr dirs have r1: "r1 = None"
    by (cases r1) (simp_all add: emit_def Let_def)
  obtain fs2 r2 where wr: "write_files fs1 (files g cfg ?root ?pkg ?label) = (fs2, r2)"
    by (cases "write_files fs1 (files g cfg ?root ?pkg ?label)")
  from assms d nr dirs r1 wr have r2: "r2 = None"
    by (cases r2) (simp_all add: emit_def Let_def)
  from assms d nr dirs r1 wr r2 have "fs2 = fs'" "r = resolve fs' ?root"
    by (auto simp: emit_def Let_def)
  with d nr dirs r1 wr r2 show ?thesis by auto
qed

lemma emit_leaves_root:
  assumes "emit g fs cfg dest = (fs', Inr r)"
  shows "path_exists fs' dest \<and> path_exists fs' (path_div dest (project_name cfg))"
proof -
  let ?root = "path_div dest (project_name cfg)"
  let ?pkg = "normalize_package_name (project_name cfg)"
  from emit_Inr [OF assms] obtain fs1 where
    d: "path_exists fs dest"
    and dirs: "ensure_directories fs (directories ?root ?pkg) = (fs1, None)"
    and wr: "write_files fs1 (files g cfg ?root ?pkg (build_author_label (authors cfg) (project_name cfg)))
      = (fs', None)"
    by blast
  have e: "extends fs fs1" "extends fs1 fs'"
    using dirs wr by (blast intro: ensure_directories_extends write_files_extends)+
  have t: "path_div ?root ''tests'' = ?root @ [''tests'']"
    by (rule path_div_plain) simp_all
  have "path_div ?root ''tests'' \<in> set (directories ?root ?pkg)"
    by (simp add: directories_def)
  from ensure_directories_is_dir [OF dirs this] have "is_dir fs1 (?root @ [''tests''])"
    unfolding t .
  then have "path_exists fs1 ?root" by (blast dest: is_dir_prefix is_dir_exists)
  with e d show ?thesis by (blast intro: path_exists_mono)
qed

text \<open>
  C3. Emission fails with \<open>FileNotFoundError\<close> when the destination does not exist, and
  with \<open>FileExistsError\<close> (\<open>already exists\<close>) when the destination exists and the project
  root under it exists; in both cases the file system it returns is the one it was given,
  since both checks come before the first directory is made. After an emission that
  succeeded, a second one with the same descriptor and destination fails with the
  \<open>already exists\<close> error and leaves the file system of the first run as it is.
\<close>

theorem emit_checks_first:
  \<open>(\<not> path_exists fs dest \<longrightarrow>
      emit g fs cfg dest =
        (fs, Inl (FileNotFoundError (''Destination '' @ path_str dest @ '' does not exist''))))
   \<and> (path_exists fs dest \<and> path_exists fs (path_div dest (project_name cfg)) \<longrightarrow>
      emit g fs cfg dest =
        (fs, Inl (FileExistsError (path_str (path_div dest (project_name cfg)) @ '' already exists''))))
   \<and> (\<forall>fs' r. emit g fs cfg dest = (fs', Inr r) \<longrightarrow>
      emit g fs' cfg dest =
        (fs', Inl (FileExistsError (path_str (path_div dest (project_name cfg)) @ '' already exists''))))\<close>
proof (intro conjI impI allI)
  assume "\<not> path_exists fs dest"
  then show \<open>emit g fs cfg dest =
        (fs, Inl (FileNotFoundError (''Destination '' @ path_str dest @ '' does not exist'')))\<close>
    by (simp add: emit_def)
next
  assume "path_exists fs dest \<and> path_exists fs (path_div dest (project_name cfg))"
  then show \<open>emit g fs cfg dest =
        (fs, Inl (FileExistsError (path_str (path_div dest (project_name cfg)) @ '' already exists'')))\<close>
    by (simp add: emit_def)
next
  fix fs' r assume "emit g fs cfg dest = (fs', Inr r)"
  from emit_leaves_root [OF this]
  show \<open>emit g fs' cfg dest =
        (fs', Inl (FileExistsError (path_str (path_div dest (project_name cfg)) @ '' already exists'')))\<close>
    by (simp add: emit_def)
qed

subsection \<open>Runs of writes\<close>

lemma same_dirs_refl: "same_dirs fs fs"
  by (simp add: same_dirs_def)

lemma same_dirs_trans: "same_dirs a b \<Longrightarrow> same_dirs b c \<Longrightarrow> same_dirs a c"
  by (simp add: same_dirs_def)

lemma same_dirs_upd: "fs q \<noteq> Some Dir \<Longrightarrow> same_dirs fs (fs(q \<mapsto> File t))"
  by (auto simp: same_dirs_def)

lemma walk_same_dirs:
  "same_dirs fs fs' \<Longrightarrow> walk fs cur cs = Inr q \<Longrightarrow> walk fs' cur cs = Inr q"
proof (induction cs arbitrary: cur)
  case Nil
  then show ?case by simp
next
  case (Cons c cs)
  from Cons.prems(2) have d: "fs cur = Some Dir"
    by (auto split: option.splits node.splits)
  with Cons.prems(1) have d': "fs' cur = Some Dir" by (simp add: same_dirs_def)
  from Cons.prems(2) d have "walk fs (if c = ''..'' then butlast cur else cur @ [c]) cs = Inr q"
    by simp
  from Cons.IH [OF Cons.prems(1) this] d' show ?case by simp
qed

lemma locate_same_dirs:
  assumes "same_dirs fs fs'" and "locate fs p = Inr (Slot q)"
  shows "locate fs' p = Inr (Slot q)"
proof -
  from locate_Slot [OF assms(2)] obtain par where
    p: "p \<noteq> []" "last p \<noteq> ''..''" and w: "walk fs [] (butlast p) = Inr par"
    and d: "fs par = Some Dir" and q: "q = par @ [last p]"
    by auto
  from walk_same_dirs [OF assms(1) w] have "walk fs' [] (butlast p) = Inr par" .
  moreover from d assms(1) have "fs' par = Some Dir" by (simp add: same_dirs_def)
  ultimately show ?thesis using p q by (simp add: locate_def)
qed

lemma writable_same_dirs: "same_dirs fs fs' \<Longrightarrow> writable fs p \<Longrightarrow> writable fs' p"
proof -
  assume s: "same_dirs fs fs'" and w: "writable fs p"
  from w obtain q where l: "locate fs p = Inr (Slot q)" and n: "fs q \<noteq> Some Dir"
    by (auto simp: writable_def split: sum.splits target.splits)
  from locate_same_dirs [OF s l] n s show ?thesis
    by (simp add: writable_def same_dirs_def)
qed

lemma write_text_writable:
  assumes "writable fs p"
  shows "\<exists>q. locate fs p = Inr (Slot q) \<and> write_text fs p c = (fs(q \<mapsto> File c), None)"
proof -
  from assms obtain q where l: "locate fs p = Inr (Slot q)" and n: "fs q \<noteq> Some Dir"
    by (auto simp: writable_def split: sum.splits target.splits)
  from n have "write_text fs p c = (fs(q \<mapsto> File c), None)"
    by (cases "fs q") (auto simp: write_text_def l split: node.splits)
  with l show ?thesis by blast
qed

lemma write_text_None:
  assumes "write_text fs p c = (fs', None)"
  shows "\<exists>q. locate fs p = Inr (Slot q) \<and> fs q \<noteq> Some Dir \<and> fs' = fs(q \<mapsto> File c)"
  using assms by (rule write_text_cases) auto

lemma write_text_same_dirs: "write_text fs p c = (fs', r) \<Longrightarrow> same_dirs fs fs'"
  by (erule write_text_cases) (auto simp: same_dirs_refl intro: same_dirs_upd)

lemma write_files_same_dirs: "write_files fs fl = (fs', r) \<Longrightarrow> same_dirs fs fs'"
proof (induction fl arbitrary: fs)
  case Nil
  then show ?case by (simp add: same_dirs_refl)
next
  case (Cons f fl)
  obtain p c where f: "f = (p, c)" by (cases f)
  obtain fs1 r1 where one: "write_file fs p c = (fs1, r1)" by (cases "write_file fs p c")
  then have e1: "same_dirs fs fs1" by (simp add: write_file_def write_text_same_dirs)
  show ?case
  proof (cases r1)
    case None
    with Cons.prems one f have "write_files fs1 fl = (fs', r)" by simp
    from Cons.IH [OF this] e1 show ?thesis by (rule same_dirs_trans [rotated])
  next
    case (Some err)
    with Cons.prems one e1 f show ?thesis by simp
  qed
qed

text \<open>A run of writes goes through when every path is writable at the start.\<close>

lemma write_files_writable:
  "\<forall>f \<in> set fl. writable fs (fst f) \<Longrightarrow> \<exists>fs'. write_files fs fl = (fs', None)"
proof (induction fl arbitrary: fs)
  case Nil
  then show ?case by simp
next
  case (Cons f fl)
  obtain p c where f: "f = (p, c)" by (cases f)
  from Cons.prems f have "writable fs p" by simp
  from write_text_writable [OF this] obtain fs1 where
    one: "write_file fs p c = (fs1, None)"
    unfolding write_file_def by blast
  then have "same_dirs fs fs1" by (simp add: write_file_def write_text_same_dirs)
  with Cons.prems have "\<forall>f \<in> set fl. writable fs1 (fst f)"
    by (auto intro: writable_same_dirs)
  from Cons.IH [OF this] one f show ?case by simp
qed

lemma write_files_append:
  "write_files fs (a @ b) =
     (case write_files fs a of (fs1, Some e) \<Rightarrow> (fs1, Some e) | (fs1, None) \<Rightarrow> write_files fs1 b)"
proof (induction a arbitrary: fs)
  case Nil
  then show ?case by simp
next
  case (Cons f a)
  obtain p c where f: "f = (p, c)" by (cases f)
  obtain fs1 r1 where one: "write_file fs p c = (fs1, r1)" by (cases "write_file fs p c")
  show ?case
    unfolding f using one Cons.IH [of fs1] by (cases r1) simp_all
qed

text \<open>A file is not touched by writes to paths with another last component.\<close>

lemma write_text_other:
  assumes "write_text fs p c = (fs', r)" and "q \<noteq> []" and "p = [] \<or> last p \<noteq> last q"
  shows "fs' q = fs q"
  using assms(1)
proof (rule write_text_cases)
  fix q' assume l: "locate fs p = Inr (Slot q')" and fs': "fs' = fs(q' \<mapsto> File c)"
  from locate_Slot [OF l] assms(3) have "last q' \<noteq> last q" by auto
  then have "q' \<noteq> q" by auto
  then show ?thesis by (simp add: fs')
qed simp

lemma write_files_other:
  assumes "write_files fs fl = (fs', r)" and "q \<noteq> []"
    and "\<forall>f \<in> set fl. last (fst f) \<noteq> last q"
  shows "fs' q = fs q"
  using assms(1,3)
proof (induction fl arbitrary: fs)
  case Nil
  then show ?case by simp
next
  case (Cons f fl)
  obtain p c where f: "f = (p, c)" by (cases f)
  obtain fs1 r1 where one: "write_file fs p c = (fs1, r1)" by (cases "write_file fs p c")
  from Cons.prems(2) f have "last p \<noteq> last q" by simp
  with one assms(2) have e1: "fs1 q = fs q"
    unfolding write_file_def by (blast intro: write_text_other)
  show ?case
  proof (cases r1)
    case None
    with Cons.prems one f have "write_files fs1 fl = (fs', r)" by simp
    from Cons.IH [OF this] Cons.prems(2) e1 show ?thesis by simp
  next
    case (Some err)
    with Cons.prems one e1 f show ?thesis by simp
  qed
qed

text \<open>Reading back what a run of writes has written.\<close>

lemma write_files_read:
  assumes run: "write_files fs (pre @ (p, c) # post) = (fs', None)"
    and post: "\<forall>f \<in> set post. last (fst f) \<noteq> last p"
  shows "read_text fs' p = Inr (py_rstrip c @ ''\<newline>'')"
proof -
  obtain fsA rA where a: "write_files fs pre = (fsA, rA)" by (cases "write_files fs pre")
  with run have rA: "rA = None" and rest: "write_files fsA ((p, c) # post) = (fs', None)"
    by (cases rA; simp add: write_files_append)+
  obtain fsB rB where b: "write_file fsA p c = (fsB, rB)" by (cases "write_file fsA p c")
  with rest have rB: "rB = None" and tail: "write_files fsB post = (fs', None)"
    by (cases rB; simp)+
  from b rB obtain q where l: "locate fsA p = Inr (Slot q)"
    and fsB: "fsB = fsA(q \<mapsto> File (py_rstrip c @ ''\<newline>''))"
    unfolding write_file_def by (blast dest: write_text_None)
  from locate_Slot [OF l] have q: "q \<noteq> []" "last q = last p" by auto
  from b have sd: "same_dirs fsA fsB" by (simp add: write_file_def write_text_same_dirs)
  from walk_same_dirs [OF same_dirs_trans [OF sd write_files_same_dirs [OF tail]] walk_to_slot [OF l]]
  have w: "walk fs' [] p = Inr q" .
  from write_files_other [OF tail q(1)] post q(2)
  have "fs' q = fsB q" by simp
  with fsB have "fs' q = Some (File (py_rstrip c @ ''\<newline>''))" by simp
  with w show ?thesis by (simp add: read_text_def stat_def)
qed

subsection \<open>Emitting the sample project\<close>

lemmas fs_eval =
  path_exists_def stat_def
  ensure_directory_def os_mkdir_def locate_def mkdir_exist_ok_def
  write_file_def write_text_def is_dir_def
  sample_fs_def mkdir_parents.simps

lemma sample_paths:
  "path_div [''tmp''] (project_name sample_config) = [''tmp'', ''sample-project'']"
  "normalize_package_name (project_name sample_config) = ''sample_project''"
  by (simp_all add: sample_config_def path_div_def parse_parts_def py_split_def
      normalize_package_name_def py_replace_def)

lemma sample_directories:
  "directories [''tmp'', ''sample-project''] ''sample_project'' =
     [[''tmp'', ''sample-project'', ''src'', ''sample_project''],
      [''tmp'', ''sample-project'', ''tests''],
      [''tmp'', ''sample-project'', ''docs'', ''_static''],
      [''tmp'', ''sample-project'', ''docs'', ''_templates''],
      [''tmp'', ''sample-project'', ''docs'', ''api''],
      [''tmp'', ''sample-project'', ''.github'', ''workflows''],
      [''tmp'', ''sample-project'', ''examples'']]"
  by (simp add: directories_def path_div_plain)

lemma sample_mkdirs:
  "ensure_directories sample_fs (directories [''tmp'', ''sample-project''] ''sample_project'')
     = (sample_tree, None)"
  unfolding sample_directories
  by (simp add: fs_eval sample_tree_def)

lemma sample_files_paths:
  "map fst (files g cfg [''tmp'', ''sample-project''] ''sample_project'' label) =
     [[''tmp'', ''sample-project'', ''pyproject.toml''],
      [''tmp'', ''sample-project'', ''.pre-commit-config.yaml''],
      [''tmp'', ''sample-project'', ''.readthedocs.yaml''],
      [''tmp'', ''sample-project'', ''LICENSE''],
      [''tmp'', ''sample-project'', ''README.md''],
      [''tmp'', ''sample-project'', ''.gitignore''],
      [''tmp'', ''sample-project'', ''.github'', ''workflows'', ''ci.yml''],
      [''tmp'', ''sample-project'', ''docs'', ''index.md''],
      [''tmp'', ''sample-project'', ''docs'', ''conf.py''],
      [''tmp'', ''sample-project'', ''docs'', ''introduction.md''],
      [''tmp'', ''sample-project'', ''docs'', ''quickstart.md''],
      [''tmp'', ''sample-project'', ''docs'', ''concepts.md''],
      [''tmp'', ''sample-project'', ''docs'', ''tutorials.md''],
      [''tmp'', ''sample-project'', ''docs'', ''architecture.md''],
      [''tmp'', ''sample-project'', ''docs'', ''contributing.md''],
      [''tmp'', ''sample-project'', ''docs'', ''api'', ''index.md''],
      [''tmp'', ''sample-project'', ''docs'', ''api'', ''inference.md''],
      [''tmp'', ''sample-project'', ''docs'', ''api'', ''parameters.md''],
      [''tmp'', ''sample-project'', ''docs'', ''api'', ''statelib.md''],
      [''tmp'', ''sample-project'', ''docs'', ''_static'', ''custom.css''],
      [''tmp'', ''sample-project'', ''docs'', ''_templates'', ''.gitkeep''],
      [''tmp'', ''sample-project'', ''docs'', ''Makefile''],
      [''tmp'', ''sample-project'', ''src'', ''sample_project'', ''__init__.py''],
      [''tmp'', ''sample-project'', ''tests'', ''test_placeholder.py''],
      [''tmp'', ''sample-project'', ''examples'', ''.gitkeep'']]"
  by (simp add: files_def path_div_plain)

lemma sample_writable:
  "\<forall>p \<in> set (map fst (files g cfg [''tmp'', ''sample-project''] ''sample_project'' label)).
     writable sample_tree p"
  unfolding sample_files_paths
  by (simp add: writable_def locate_def sample_tree_def sample_fs_def)

lemma emit_success:
  assumes "path_exists fs dest"
    and "\<not> path_exists fs (path_div dest (project_name cfg))"
    and "ensure_directories fs
           (directories (path_div dest (project_name cfg)) (normalize_package_name (project_name cfg)))
         = (fs1, None)"
    and "write_files fs1
           (files g cfg (path_div dest (project_name cfg)) (normalize_package_name (project_name cfg))
              (build_author_label (authors cfg) (project_name cfg))) = (fs2, None)"
  shows "emit g fs cfg dest = (fs2, Inr (resolve fs2 (path_div dest (project_name cfg))))"
  unfolding emit_def Let_def using assms by simp

lemma sample_emit:
  "\<exists>fs'. emit g sample_fs sample_config [''tmp''] = (fs', Inr [''tmp'', ''sample-project''])"
proof -
  have d: "path_exists sample_fs [''tmp'']"
    by (simp add: path_exists_def stat_def sample_fs_def)
  have nr: "\<not> path_exists sample_fs [''tmp'', ''sample-project'']"
    by (simp add: path_exists_def stat_def sample_fs_def)
  let ?fl = "files g sample_config [''tmp'', ''sample-project''] ''sample_project''
      (build_author_label (authors sample_config) (project_name sample_config))"
  from sample_writable have "\<forall>f \<in> set ?fl. writable sample_tree (fst f)"
    by simp
  from write_files_writable [OF this] obtain fs' where w: "write_files sample_tree ?fl = (fs', None)"
    by blast
  have "walk sample_tree [] [''tmp'', ''sample-project''] = Inr [''tmp'', ''sample-project'']"
    by (simp add: sample_tree_def sample_fs_def)
  from walk_mono [OF write_files_extends [OF w] this]
  have r: "resolve fs' [''tmp'', ''sample-project''] = [''tmp'', ''sample-project'']"
    unfolding resolve_def by simp
  have "emit g sample_fs sample_config [''tmp''] =
      (fs', Inr (resolve fs' (path_div [''tmp''] (project_name sample_config))))"
  proof (rule emit_success [where ?fs1.0 = sample_tree])
    show "path_exists sample_fs [''tmp'']" by (rule d)
    show "\<not> path_exists sample_fs (path_div [''tmp''] (project_name sample_config))"
      unfolding sample_paths by (rule nr)
    show "ensure_directories sample_fs
        (directories (path_div [''tmp''] (project_name sample_config))
          (normalize_package_name (project_name sample_config))) = (sample_tree, None)"
      unfolding sample_paths by (rule sample_mkdirs)
    show "write_files sample_tree
        (files g sample_config (path_div [''tmp''] (project_name sample_config))
          (normalize_package_name (project_name sample_config))
          (build_author_label (authors sample_config) (project_name sample_config))) = (fs', None)"
      unfolding sample_paths by (rule w)
  qed
  then have e: "emit g sample_fs sample_config [''tmp''] = (fs', Inr [''tmp'', ''sample-project''])"
    unfolding sample_paths r .
  show ?thesis by (rule exI [of _ fs']) (rule e)
qed

theorem emit_checks_first_witness:
  \<open>\<exists>fs'. emit None sample_fs sample_config [''tmp''] = (fs', Inr [''tmp'', ''sample-project''])
     \<and> emit None fs' sample_config [''tmp''] =
         (fs', Inl (FileExistsError ''/tmp/sample-project already exists''))
     \<and> path_exists sample_tree [''tmp''] \<and> path_exists sample_tree [''tmp'', ''sample-project'']
     \<and> emit None sample_tree sample_config [''tmp''] =
         (sample_tree, Inl (FileExistsError ''/tmp/sample-project already exists''))
     \<and> emit None sample_fs sample_config [''nowhere''] =
         (sample_fs, Inl (FileNotFoundError ''Destination /nowhere does not exist''))\<close>
proof -
  from sample_emit obtain fs' where
    e: "emit None sample_fs sample_config [''tmp''] = (fs', Inr [''tmp'', ''sample-project''])"
    by blast
  have s: \<open>path_str [''tmp'', ''sample-project''] = ''/tmp/sample-project''\<close>
    \<open>path_str [''nowhere''] = ''/nowhere''\<close>
    by (simp_all add: path_str_def)
  have x: "path_exists sample_tree [''tmp'']" "path_exists sample_tree [''tmp'', ''sample-project'']"
    "\<not> path_exists sample_fs [''nowhere'']"
    by (simp_all add: path_exists_def stat_def sample_tree_def sample_fs_def)
  note t1 = emit_checks_first [of sample_fs "[''tmp'']" None sample_config]
  note t2 = emit_checks_first [of sample_tree "[''tmp'']" None sample_config]
  note t3 = emit_checks_first [of sample_fs "[''nowhere'']" None sample_config]
  have 1: \<open>emit None fs' sample_config [''tmp''] =
         (fs', Inl (FileExistsError ''/tmp/sample-project already exists''))\<close>
    using t1 [THEN conjunct2, THEN conjunct2, rule_format, OF e] by (simp add: sample_paths s)
  have 2: \<open>emit None sample_tree sample_config [''tmp''] =
         (sample_tree, Inl (FileExistsError ''/tmp/sample-project already exists''))\<close>
    using t2 [THEN conjunct2, THEN conjunct1] x by (simp add: sample_paths s)
  have 3: \<open>emit None sample_fs sample_config [''nowhere''] =
         (sample_fs, Inl (FileNotFoundError ''Destination /nowhere does not exist''))\<close>
    using t3 [THEN conjunct1] x by (simp add: s)
  show ?thesis
    by (rule exI [of _ fs']) (intro conjI e 1 2 3 x(1) x(2))
qed

subsection \<open>Trailing white space\<close>

lemma rstrip_split: "s = rev (dropWhile P (rev s)) @ rev (takeWhile P (rev s))"
proof -
  have "rev (takeWhile P (rev s) @ dropWhile P (rev s)) = rev (rev s)"
    by (simp only: takeWhile_dropWhile_id)
  then have "rev (dropWhile P (rev s)) @ rev (takeWhile P (rev s)) = s"
    by (simp only: rev_append rev_rev_ident)
  then show ?thesis by (rule sym)
qed

lemma rstrip_last: "rev (dropWhile P (rev s)) \<noteq> [] \<Longrightarrow> \<not> P (last (rev (dropWhile P (rev s))))"
  by (simp add: last_rev hd_dropWhile)

lemma rstrip_idem: "rev (dropWhile P (rev (rev (dropWhile P (rev s))))) = rev (dropWhile P (rev s))"
  by (simp add: dropWhile_idem)

lemma rstrip_append:
  assumes "\<exists>c \<in> set b. \<not> P c"
  shows "rev (dropWhile P (rev (a @ b))) = a @ rev (dropWhile P (rev b))"
proof -
  from assms obtain c where "c \<in> set (rev b)" "\<not> P c" by auto
  then have "dropWhile P (rev b @ rev a) = dropWhile P (rev b) @ rev a"
    by (rule dropWhile_append1)
  then show ?thesis by simp
qed

lemma py_rstrip_idem: "py_rstrip (py_rstrip s) = py_rstrip s"
  unfolding py_rstrip_def by (rule rstrip_idem)

lemma py_rstrip_append: "\<exists>c \<in> set b. \<not> py_isspace c \<Longrightarrow> py_rstrip (a @ b) = a @ py_rstrip b"
  unfolding py_rstrip_def by (rule rstrip_append)

lemma py_rstrip_split: "\<exists>ws. s = py_rstrip s @ ws \<and> list_all py_isspace ws"
proof -
  have "list_all py_isspace (rev (takeWhile py_isspace (rev s)))"
    by (simp add: list_all_iff) (meson set_takeWhileD)
  with rstrip_split [of s py_isspace] show ?thesis
    unfolding py_rstrip_def by blast
qed

lemma normalised_written: "normalised (py_rstrip c @ ''\<newline>'')"
  by (simp add: normalised_def py_rstrip_idem)

lemma rstrip_chars_slash:
  "(\<exists>n. s = py_rstrip_chars ''/'' s @ replicate n (CHR ''/''))
   \<and> (py_rstrip_chars ''/'' s = [] \<or> last (py_rstrip_chars ''/'' s) \<noteq> CHR ''/'')"
proof -
  let ?P = "\<lambda>c. c \<in> set ''/''"
  let ?suf = "rev (takeWhile ?P (rev s))"
  have "\<forall>c \<in> set ?suf. c = CHR ''/''"
    by (auto dest: set_takeWhileD)
  then have "replicate (length ?suf) (CHR ''/'') = ?suf"
    by (rule replicate_length_same)
  then have "?suf = replicate (length ?suf) (CHR ''/'')"
    by (rule sym)
  with rstrip_split [of s ?P] have "\<exists>n. s = py_rstrip_chars ''/'' s @ replicate n (CHR ''/'')"
    unfolding py_rstrip_chars_def by metis
  moreover have "py_rstrip_chars ''/'' s = [] \<or> last (py_rstrip_chars ''/'' s) \<noteq> CHR ''/''"
    using rstrip_last [of ?P s] unfolding py_rstrip_chars_def by auto
  ultimately show ?thesis by blast
qed

subsection \<open>The files of a scaffold\<close>

lemma os_mkdir_files: "os_mkdir fs p = Inr fs' \<Longrightarrow> fs' q = Some (File t) \<Longrightarrow> fs q = Some (File t)"
  by (auto dest!: os_mkdir_Inr split: if_splits)

lemma mkdir_exist_ok_files:
  "mkdir_exist_ok fs p = (fs', r) \<Longrightarrow> fs' q = Some (File t) \<Longrightarrow> fs q = Some (File t)"
  by (auto simp: mkdir_exist_ok_def dest: os_mkdir_files split: sum.splits if_splits)

lemma mkdir_parents_files:
  "mkdir_parents fs p = (fs', r) \<Longrightarrow> fs' q = Some (File t) \<Longrightarrow> fs q = Some (File t)"
proof (induction p arbitrary: fs' r rule: length_induct)
  case (1 p)
  from "1.prems"(1) show ?case
  proof (cases rule: mkdir_parents_cases)
    case made
    with "1.prems"(2) show ?thesis by (blast dest: os_mkdir_files)
  next
    case (parent_failed err)
    from "1.IH" [rule_format, of "butlast p", OF _ parent_failed(3) "1.prems"(2)] parent_failed(2)
    show ?thesis by simp
  next
    case (parent_made fs1)
    from mkdir_exist_ok_files [OF parent_made(4) "1.prems"(2)] have "fs1 q = Some (File t)" .
    from "1.IH" [rule_format, of "butlast p", OF _ parent_made(3) this] parent_made(2)
    show ?thesis by simp
  qed (use "1.prems"(2) in simp_all)
qed

lemma ensure_directories_files:
  "ensure_directories fs ds = (fs', r) \<Longrightarrow> fs' q = Some (File t) \<Longrightarrow> fs q = Some (File t)"
proof (induction ds arbitrary: fs)
  case Nil
  then show ?case by simp
next
  case (Cons d ds)
  obtain fs1 r1 where one: "ensure_directory fs d = (fs1, r1)" by (cases "ensure_directory fs d")
  show ?case
  proof (cases r1)
    case None
    with Cons.prems one have "ensure_directories fs1 ds = (fs', r)" by simp
    from Cons.IH [OF this Cons.prems(2)] have "fs1 q = Some (File t)" .
    with one show ?thesis unfolding ensure_directory_def by (rule mkdir_parents_files)
  next
    case (Some err)
    with Cons.prems one have "fs1 = fs'" by simp
    with one Cons.prems(2) show ?thesis unfolding ensure_directory_def
      by (blast intro: mkdir_parents_files)
  qed
qed

lemma write_file_files:
  assumes "write_file fs p c = (fs', r)" and "fs' q = Some (File t)"
  shows "fs q = Some (File t) \<or> normalised t"
  using assms(1) unfolding write_file_def
proof (rule write_text_cases)
  fix q' assume fs': "fs' = fs(q' \<mapsto> File (py_rstrip c @ ''\<newline>''))"
  show ?thesis
  proof (cases "q = q'")
    case True
    with assms(2) fs' have "t = py_rstrip c @ ''\<newline>''" by simp
    then show ?thesis by (simp add: normalised_written)
  next
    case False
    with assms(2) fs' show ?thesis by simp
  qed
next
  fix err assume "fs' = fs"
  with assms(2) show ?thesis by simp
qed

lemma write_files_files:
  "write_files fs fl = (fs', r) \<Longrightarrow> fs' q = Some (File t) \<Longrightarrow> fs q = Some (File t) \<or> normalised t"
proof (induction fl arbitrary: fs)
  case Nil
  then show ?case by simp
next
  case (Cons f fl)
  obtain p c where f: "f = (p, c)" by (cases f)
  obtain fs1 r1 where one: "write_file fs p c = (fs1, r1)" by (cases "write_file fs p c")
  show ?case
  proof (cases r1)
    case None
    with Cons.prems one f have "write_files fs1 fl = (fs', r)" by simp
    from Cons.IH [OF this Cons.prems(2)] have "fs1 q = Some (File t) \<or> normalised t" .
    with one show ?thesis by (blast dest: write_file_files)
  next
    case (Some err)
    with Cons.prems one f have "fs1 = fs'" by simp
    with one Cons.prems(2) show ?thesis by (blast dest: write_file_files)
  qed
qed

lemma emit_cases:
  assumes "emit g fs cfg dest = (fs', r)"
  obtains (unchanged) "fs' = fs"
  | (dirs) err where
      "ensure_directories fs
         (directories (path_div dest (project_name cfg)) (normalize_package_name (project_name cfg)))
       = (fs', Some err)"
  | (wrote) fs1 r2 where
      "ensure_directories fs
         (directories (path_div dest (project_name cfg)) (normalize_package_name (project_name cfg)))
       = (fs1, None)"
      "write_files fs1
         (files g cfg (path_div dest (project_name cfg)) (normalize_package_name (project_name cfg))
            (build_author_label (authors cfg) (project_name cfg))) = (fs', r2)"
proof -
  let ?root = "path_div dest (project_name cfg)"
  let ?pkg = "normalize_package_name (project_name cfg)"
  let ?label = "build_author_label (authors cfg) (project_name cfg)"
  show ?thesis
  proof (cases "path_exists fs dest \<and> \<not> path_exists fs ?root")
    case False
    with assms have "fs' = fs" by (auto simp: emit_def split: if_splits)
    then show ?thesis by (rule unchanged)
  next
    case True
    obtain fs1 r1 where d: "ensure_directories fs (directories ?root ?pkg) = (fs1, r1)"
      by (cases "ensure_directories fs (directories ?root ?pkg)")
    show ?thesis
    proof (cases r1)
      case (Some err)
      with assms True d have "fs1 = fs'" by (simp add: emit_def Let_def)
      with d Some show ?thesis by (intro dirs) simp
    next
      case None
      obtain fs2 r2 where w: "write_files fs1 (files g cfg ?root ?pkg ?label) = (fs2, r2)"
        by (cases "write_files fs1 (files g cfg ?root ?pkg ?label)")
      with assms True d None have "fs2 = fs'"
        by (cases r2) (simp_all add: emit_def Let_def)
      with d None w show ?thesis by (intro wrote) simp_all
    qed
  qed
qed

lemma emit_files:
  assumes "emit g fs cfg dest = (fs', r)" and "fs' q = Some (File t)"
  shows "fs q = Some (File t) \<or> normalised t"
  using assms(1)
proof (cases rule: emit_cases)
  case unchanged
  with assms(2) show ?thesis by simp
next
  case (dirs err)
  from ensure_directories_files [OF this assms(2)] show ?thesis ..
next
  case (wrote fs1 r2)
  from write_files_files [OF wrote(2) assms(2)] show ?thesis
    by (blast dest: ensure_directories_files [OF wrote(1)])
qed

lemma write_file_read:
  assumes "write_file fs p c = (fs', None)"
  shows "read_text fs' p = Inr (py_rstrip c @ ''\<newline>'')"
proof -
  from assms have "write_files fs ([] @ (p, c) # []) = (fs', None)" by simp
  then show ?thesis by (rule write_files_read) simp
qed

text \<open>
  C8. What \<open>write_file\<close> writes for a content is the content without its trailing white
  space (the content is that text followed by white space only) and one newline after it,
  so the text written ends in exactly one newline; that is what reading the file back
  returns. Every file of the emitter is written by \<open>write_file\<close>: a file that is in the
  file system after an emission, whether it succeeded or not, was there before with the
  same content or is normalised in this way.
\<close>

theorem write_file_normalises:
  "normalised (py_rstrip content @ ''\<newline>'')
   \<and> (\<exists>ws. content = py_rstrip content @ ws \<and> list_all py_isspace ws)
   \<and> (py_rstrip content = [] \<or> \<not> py_isspace (last (py_rstrip content)))
   \<and> write_file fs p content = write_text fs p (py_rstrip content @ ''\<newline>'')
   \<and> (\<forall>fs1. write_file fs p content = (fs1, None) \<longrightarrow>
         read_text fs1 p = Inr (py_rstrip content @ ''\<newline>''))
   \<and> (\<forall>g cfg dest fs' r q t. emit g fs cfg dest = (fs', r) \<and> fs' q = Some (File t) \<longrightarrow>
         fs q = Some (File t) \<or> normalised t)"
proof (intro conjI allI impI)
  show "normalised (py_rstrip content @ ''\<newline>'')" by (rule normalised_written)
  show "\<exists>ws. content = py_rstrip content @ ws \<and> list_all py_isspace ws" by (rule py_rstrip_split)
  show "py_rstrip content = [] \<or> \<not> py_isspace (last (py_rstrip content))"
    using rstrip_last [of py_isspace content] unfolding py_rstrip_def by blast
  show "write_file fs p content = write_text fs p (py_rstrip content @ ''\<newline>'')"
    by (simp add: write_file_def)
next
  fix fs1 assume "write_file fs p content = (fs1, None)"
  then show "read_text fs1 p = Inr (py_rstrip content @ ''\<newline>'')" by (rule write_file_read)
next
  fix g cfg dest fs' r q t
  assume "emit g fs cfg dest = (fs', r) \<and> fs' q = Some (File t)"
  then show "fs q = Some (File t) \<or> normalised t" by (blast dest: emit_files)
qed

subsection \<open>The author label in the generated files\<close>

lemma write_files_read_nth:
  assumes run: "write_files fs fl = (fs', None)" and i: "i < length fl"
    and later: "\<forall>f \<in> set (drop (Suc i) fl). last (fst f) \<noteq> last (fst (fl ! i))"
  shows "read_text fs' (fst (fl ! i)) = Inr (py_rstrip (snd (fl ! i)) @ ''\<newline>'')"
proof -
  from i have "fl = take i fl @ (fst (fl ! i), snd (fl ! i)) # drop (Suc i) fl"
    by (simp add: id_take_nth_drop)
  with run have "write_files fs (take i fl @ (fst (fl ! i), snd (fl ! i)) # drop (Suc i) fl) = (fs', None)"
    by simp
  from write_files_read [OF this later] show ?thesis .
qed

lemma files_length: "length (files g cfg root pkg label) = 25"
  by (simp add: files_def)

lemma files_license:
  "fst (files g cfg root pkg label ! 3) = path_div root ''LICENSE''"
  "snd (files g cfg root pkg label ! 3) = LICENSE_TEXT_format label"
  by (simp_all add: files_def)

lemma files_after_license:
  "\<forall>f \<in> set (drop (Suc 3) (files g cfg root pkg label)). last (fst f) \<noteq> last (path_div root ''LICENSE'')"
  by (simp add: files_def path_div_plain)

lemma files_conf:
  "fst (files g cfg root pkg label ! 8) = path_div (path_div root ''docs'') ''conf.py''"
  "snd (files g cfg root pkg label ! 8) =
     DOC_CONF_TEMPLATE_substitute (project_name cfg) label (project_url cfg)"
  by (simp_all add: files_def)

lemma files_after_conf:
  "\<forall>f \<in> set (drop (Suc 8) (files g cfg root pkg label)).
     last (fst f) \<noteq> last (path_div (path_div root ''docs'') ''conf.py'')"
  by (simp add: files_def path_div_plain)

lemma emit_reads_license:
  assumes "emit g fs cfg dest = (fs', Inr r)"
  shows "read_text fs' (path_div (path_div dest (project_name cfg)) ''LICENSE'') =
    Inr (py_rstrip (LICENSE_TEXT_format (build_author_label (authors cfg) (project_name cfg)))
          @ ''\<newline>'')"
proof -
  from emit_Inr [OF assms] obtain fs1 where
    w: "write_files fs1
         (files g cfg (path_div dest (project_name cfg)) (normalize_package_name (project_name cfg))
            (build_author_label (authors cfg) (project_name cfg))) = (fs', None)"
    by blast
  from write_files_read_nth [OF w, of 3] files_after_license show ?thesis
    by (simp add: files_length files_license)
qed

lemma emit_reads_conf:
  assumes "emit g fs cfg dest = (fs', Inr r)"
  shows "read_text fs' (path_div (path_div (path_div dest (project_name cfg)) ''docs'') ''conf.py'') =
    Inr (py_rstrip (DOC_CONF_TEMPLATE_substitute (project_name cfg)
            (build_author_label (authors cfg) (project_name cfg)) (project_url cfg))
          @ ''\<newline>'')"
proof -
  from emit_Inr [OF assms] obtain fs1 where
    w: "write_files fs1
         (files g cfg (path_div dest (project_name cfg)) (normalize_package_name (project_name cfg))
            (build_author_label (authors cfg) (project_name cfg))) = (fs', None)"
    by blast
  from write_files_read_nth [OF w, of 8] files_after_conf show ?thesis
    by (simp add: files_length files_conf)
qed

lemma license_foot_text: "\<exists>c \<in> set LICENSE_foot. \<not> py_isspace c"
proof -
  have "CHR ''P'' \<in> set LICENSE_foot" by (simp add: LICENSE_foot_def)
  moreover have "\<not> py_isspace (CHR ''P'')" by (simp add: py_isspace_def)
  ultimately show ?thesis by (rule rev_bexI)
qed

lemma license_text:
  \<open>\<exists>post. py_rstrip (LICENSE_TEXT_format label) @ ''\<newline>'' =
     ''MIT License\<newline>\<newline>Copyright (c) 2024 '' @ label @ post\<close>
proof -
  have \<open>LICENSE_TEXT_format label =
      (''MIT License\<newline>\<newline>Copyright (c) 2024 '' @ label @ ''\<newline>'') @ LICENSE_foot\<close>
    by (simp add: LICENSE_TEXT_format_def)
  then have \<open>py_rstrip (LICENSE_TEXT_format label) =
      (''MIT License\<newline>\<newline>Copyright (c) 2024 '' @ label @ ''\<newline>'') @ py_rstrip LICENSE_foot\<close>
    by (simp only: py_rstrip_append [OF license_foot_text])
  then have e: \<open>py_rstrip (LICENSE_TEXT_format label) @ ''\<newline>'' =
     ''MIT License\<newline>\<newline>Copyright (c) 2024 '' @ label
     @ (''\<newline>'' @ py_rstrip LICENSE_foot @ ''\<newline>'')\<close>
    by simp
  show ?thesis
    by (rule exI [of _ \<open>''\<newline>'' @ py_rstrip LICENSE_foot @ ''\<newline>''\<close>]) (rule e)
qed

lemma conf_foot_text: "\<exists>c \<in> set (DOC_CONF_foot pn). \<not> py_isspace c"
proof -
  have "CHR ''s'' \<in> set (DOC_CONF_foot pn)" by (simp add: DOC_CONF_foot_def)
  moreover have "\<not> py_isspace (CHR ''s'')" by (simp add: py_isspace_def)
  ultimately show ?thesis by (rule rev_bexI)
qed

lemma conf_text:
  \<open>\<exists>pre mid post. py_rstrip (DOC_CONF_TEMPLATE_substitute pn label url) @ ''\<newline>'' =
     pre @ ''author = "'' @ label @ ''"'' @ mid @ ''"source_repository": "'' @ url @ ''"'' @ post\<close>
proof -
  let ?X = \<open>DOC_CONF_head pn @ ''    author = "'' @ label @ ''"\<newline>'' @
     DOC_CONF_body label url @ ''        "source_repository": "'' @ url @ ''",\<newline>''\<close>
  have "DOC_CONF_TEMPLATE_substitute pn label url = ?X @ DOC_CONF_foot pn"
    by (simp add: DOC_CONF_TEMPLATE_substitute_def)
  then have "py_rstrip (DOC_CONF_TEMPLATE_substitute pn label url) = ?X @ py_rstrip (DOC_CONF_foot pn)"
    by (simp only: py_rstrip_append [OF conf_foot_text])
  then have e: \<open>py_rstrip (DOC_CONF_TEMPLATE_substitute pn label url) @ ''\<newline>'' =
     (DOC_CONF_head pn @ ''    '') @ ''author = "'' @ label @ ''"''
     @ (''\<newline>'' @ DOC_CONF_body label url @ ''        '')
     @ ''"source_repository": "'' @ url @ ''"''
     @ ('',\<newline>'' @ py_rstrip (DOC_CONF_foot pn) @ ''\<newline>'')\<close>
    by simp
  show ?thesis
    by (rule exI [of _ \<open>DOC_CONF_head pn @ ''    ''\<close>],
        rule exI [of _ \<open>''\<newline>'' @ DOC_CONF_body label url @ ''        ''\<close>],
        rule exI [of _ \<open>'',\<newline>'' @ py_rstrip (DOC_CONF_foot pn) @ ''\<newline>''\<close>])
      (rule e)
qed

lemma coerce_author_entries_length:
  "coerce_author_entries acc es = Inr as \<Longrightarrow> length as = length acc + length es"
proof (induction es arbitrary: acc)
  case Nil
  then show ?case by simp
next
  case (Cons entry rest)
  then show ?case
    by (cases entry) (auto split: option.splits)
qed

lemma coerce_authors_nonempty: "coerce_authors raw = Inr as \<Longrightarrow> as \<noteq> []"
  by (auto simp: coerce_authors_def dest: coerce_author_entries_length
      split: option.splits pyval.splits if_splits)

text \<open>
  C6. The author label is the names of the authors joined by a comma and a space, or
  \<open><project_name> developers\<close> when there is no author; a resolved descriptor has at least
  one author. After an emission that succeeded, the \<^verbatim>\<open>LICENSE\<close> file under the project root
  starts with the MIT heading and the copyright line that holds the label, and
  \<^verbatim>\<open>docs/conf.py\<close> holds the label as its \<open>author\<close> and the \<open>project_url\<close> of the descriptor as
  its \<open>source_repository\<close>; the \<open>project_url\<close> of a resolved descriptor does not end in a
  slash.
\<close>

theorem author_label_in_scaffold:
  \<open>build_author_label (authors cfg) (project_name cfg) =
     (if authors cfg = [] then project_name cfg @ '' developers''
      else py_join '', '' (map name (authors cfg)))
   \<and> (\<forall>fs' r. emit g fs cfg dest = (fs', Inr r) \<longrightarrow>
        (\<exists>post. read_text fs' (path_div (path_div dest (project_name cfg)) ''LICENSE'') =
           Inr (''MIT License\<newline>\<newline>Copyright (c) 2024 ''
                @ build_author_label (authors cfg) (project_name cfg) @ post))
        \<and> (\<exists>pre mid post.
             read_text fs' (path_div (path_div (path_div dest (project_name cfg)) ''docs'') ''conf.py'') =
               Inr (pre @ ''author = "'' @ build_author_label (authors cfg) (project_name cfg) @ ''"''
                    @ mid @ ''"source_repository": "'' @ project_url cfg @ ''"'' @ post)))
   \<and> (\<forall>raw. coerce_config raw = Inr cfg \<longrightarrow>
        authors cfg \<noteq> [] \<and> (project_url cfg = [] \<or> last (project_url cfg) \<noteq> CHR ''/''))\<close>
proof (intro conjI allI impI)
  show \<open>build_author_label (authors cfg) (project_name cfg) =
     (if authors cfg = [] then project_name cfg @ '' developers''
      else py_join '', '' (map name (authors cfg)))\<close>
    by (simp add: build_author_label_def)
next
  fix fs' r assume e: "emit g fs cfg dest = (fs', Inr r)"
  from license_text [of "build_author_label (authors cfg) (project_name cfg)"]
  show \<open>\<exists>post. read_text fs' (path_div (path_div dest (project_name cfg)) ''LICENSE'') =
           Inr (''MIT License\<newline>\<newline>Copyright (c) 2024 ''
                @ build_author_label (authors cfg) (project_name cfg) @ post)\<close>
    unfolding emit_reads_license [OF e] sum.inject .
  from conf_text [of "project_name cfg" "build_author_label (authors cfg) (project_name cfg)"
      "project_url cfg"]
  show \<open>\<exists>pre mid post.
             read_text fs' (path_div (path_div (path_div dest (project_name cfg)) ''docs'') ''conf.py'') =
               Inr (pre @ ''author = "'' @ build_author_label (authors cfg) (project_name cfg) @ ''"''
                    @ mid @ ''"source_repository": "'' @ project_url cfg @ ''"'' @ post)\<close>
    unfolding emit_reads_conf [OF e] sum.inject .
next
  fix raw assume c: "coerce_config raw = Inr cfg"
  from coerce_config_Inr [OF c] obtain c' d where
    d: "coerce_authors raw = Inr d" "authors cfg = d"
    and u: "project_url cfg = py_rstrip_chars ''/'' c'"
    by auto
  from d show "authors cfg \<noteq> []" by (auto dest: coerce_authors_nonempty)
  from rstrip_chars_slash [of c'] u
  show "project_url cfg = [] \<or> last (project_url cfg) \<noteq> CHR ''/''" by simp
qed

theorem author_label_in_scaffold_witness:
  \<open>\<exists>fs' post pre mid post'.
     emit None sample_fs sample_config [''tmp''] = (fs', Inr [''tmp'', ''sample-project''])
     \<and> coerce_config sample_raw = Inr sample_config
     \<and> build_author_label (authors sample_config) (project_name sample_config) = ''Mo''
     \<and> read_text fs' [''tmp'', ''sample-project'', ''LICENSE''] =
         Inr (''MIT License\<newline>\<newline>Copyright (c) 2024 Mo'' @ post)
     \<and> read_text fs' [''tmp'', ''sample-project'', ''docs'', ''conf.py''] =
         Inr (pre @ ''author = "Mo"'' @ mid
              @ ''"source_repository": "https://github.com/MoAly98/sample-project"'' @ post')\<close>
proof -
  from sample_emit obtain fs' where
    e: "emit None sample_fs sample_config [''tmp''] = (fs', Inr [''tmp'', ''sample-project''])"
    by blast
  have c: "coerce_config sample_raw = Inr sample_config"
    unfolding sample_config_def by (rule sample_resolves)
  have l: "build_author_label (authors sample_config) (project_name sample_config) = ''Mo''"
    by (simp add: build_author_label_def sample_config_def)
  have u: "project_url sample_config = ''https://github.com/MoAly98/sample-project''"
    by (simp add: sample_config_def)
  have p: "path_div [''tmp'', ''sample-project''] ''LICENSE'' = [''tmp'', ''sample-project'', ''LICENSE'']"
    "path_div (path_div [''tmp'', ''sample-project''] ''docs'') ''conf.py''
       = [''tmp'', ''sample-project'', ''docs'', ''conf.py'']"
    by (simp_all add: path_div_plain)
  note t = author_label_in_scaffold [of sample_config None sample_fs "[''tmp'']",
      THEN conjunct2, THEN conjunct1, rule_format, OF e, unfolded sample_paths l u p]
  from t [THEN conjunct1] obtain post where
    1: \<open>read_text fs' [''tmp'', ''sample-project'', ''LICENSE''] =
         Inr (''MIT License\<newline>\<newline>Copyright (c) 2024 '' @ ''Mo'' @ post)\<close>
    by blast
  from t [THEN conjunct2] obtain pre mid post' where
    2: \<open>read_text fs' [''tmp'', ''sample-project'', ''docs'', ''conf.py''] =
         Inr (pre @ ''author = "'' @ ''Mo'' @ ''"'' @ mid
              @ ''"source_repository": "'' @ ''https://github.com/MoAly98/sample-project'' @ ''"'' @ post')\<close>
    by blast
  from 1 have lic: \<open>read_text fs' [''tmp'', ''sample-project'', ''LICENSE''] =
         Inr (''MIT License\<newline>\<newline>Copyright (c) 2024 Mo'' @ post)\<close>
    by simp
  from 2 have conf: \<open>read_text fs' [''tmp'', ''sample-project'', ''docs'', ''conf.py''] =
         Inr (pre @ ''author = "Mo"'' @ mid
              @ ''"source_repository": "https://github.com/MoAly98/sample-project"'' @ post')\<close>
    by simp
  show ?thesis
    by (rule exI [of _ fs'], rule exI [of _ post], rule exI [of _ pre], rule exI [of _ mid],
        rule exI [of _ post'])
      (intro conjI e c l lic conf)
qed

theorem write_file_normalises_witness:
  \<open>\<exists>fs' t. emit None sample_fs sample_config [''tmp''] = (fs', Inr [''tmp'', ''sample-project''])
     \<and> fs' [''tmp'', ''sample-project'', ''LICENSE''] = Some (File t)
     \<and> normalised t
     \<and> py_rstrip (''STUB.\<newline> \<newline>'' @ [CHR 0x09]) @ ''\<newline>'' = ''STUB.\<newline>''
     \<and> normalised ''STUB.\<newline>''\<close>
proof -
  from sample_emit obtain fs' where
    e: "emit None sample_fs sample_config [''tmp''] = (fs', Inr [''tmp'', ''sample-project''])"
    by blast
  have p: "path_div [''tmp'', ''sample-project''] ''LICENSE'' = [''tmp'', ''sample-project'', ''LICENSE'']"
    by (simp add: path_div_plain)
  from emit_reads_license [OF e, unfolded sample_paths p] obtain t where
    r: "read_text fs' [''tmp'', ''sample-project'', ''LICENSE''] = Inr t"
    by blast
  have w: "walk sample_fs [] [''tmp'', ''sample-project'', ''LICENSE''] = Inl ENOENT"
    by (simp add: sample_fs_def)
  have "walk sample_tree [] [''tmp'', ''sample-project'', ''LICENSE'']
      = Inr [''tmp'', ''sample-project'', ''LICENSE'']"
    by (simp add: sample_tree_def sample_fs_def)
  moreover have "extends sample_tree fs'"
  proof -
    from emit_Inr [OF e, unfolded sample_paths] obtain fs1 where
      1: "ensure_directories sample_fs (directories [''tmp'', ''sample-project''] ''sample_project'')
          = (fs1, None)"
      and 2: "write_files fs1 (files None sample_config [''tmp'', ''sample-project''] ''sample_project''
          (build_author_label (authors sample_config) (project_name sample_config))) = (fs', None)"
      by blast
    from 1 sample_mkdirs have "fs1 = sample_tree" by simp
    with 2 show ?thesis by (blast intro: write_files_extends)
  qed
  ultimately have "walk fs' [] [''tmp'', ''sample-project'', ''LICENSE'']
      = Inr [''tmp'', ''sample-project'', ''LICENSE'']"
    by (rule walk_mono [rotated])
  with r have f: "fs' [''tmp'', ''sample-project'', ''LICENSE''] = Some (File t)"
    by (auto simp: read_text_def stat_def split: option.splits node.splits)
  have old: "sample_fs [''tmp'', ''sample-project'', ''LICENSE''] = None"
    by (simp add: sample_fs_def)
  note t = write_file_normalises
    [of \<open>''STUB.\<newline> \<newline>'' @ [CHR 0x09]\<close> sample_fs "[''tmp'']"]
  from t [THEN conjunct2, THEN conjunct2, THEN conjunct2, THEN conjunct2, THEN conjunct2,
      rule_format, of None sample_config "[''tmp'']" fs' _ "[''tmp'', ''sample-project'', ''LICENSE'']" t]
    e f old
  have n: "normalised t" by simp
  have s: \<open>py_rstrip (''STUB.\<newline> \<newline>'' @ [CHR 0x09]) @ ''\<newline>'' = ''STUB.\<newline>''\<close>
    by (simp add: py_rstrip_def py_isspace_def)
  from t [THEN conjunct1] have n2: \<open>normalised ''STUB.\<newline>''\<close>
    unfolding s .
  show ?thesis
    by (rule exI [of _ fs'], rule exI [of _ t]) (intro conjI e f n s n2)
qed

subsection \<open>Lines\<close>

lemma split_acc_sep:
  "split_acc sep cur (a @ sep # b) = split_acc sep cur a @ split_acc sep [] b"
  by (induction a arbitrary: cur) simp_all

lemma py_split_sep: "py_split sep (a @ sep # b) = py_split sep a @ py_split sep b"
  by (simp add: py_split_def split_acc_sep)

lemma py_split_plain: "sep \<notin> set s \<Longrightarrow> py_split sep s = [s]"
  by (simp add: py_split_def split_acc_plain)

lemma py_split_line: "sep \<notin> set l \<Longrightarrow> py_split sep (l @ sep # rest) = l # py_split sep rest"
  by (simp add: py_split_sep py_split_plain)

lemma split_acc_no_sep:
  "sep \<notin> set cur \<Longrightarrow> l \<in> set (split_acc sep cur s) \<Longrightarrow> sep \<notin> set l"
proof (induction s arbitrary: cur)
  case Nil
  then show ?case by auto
next
  case (Cons c s)
  show ?case
  proof (cases "c = sep")
    case True
    with Cons.prems have "l = rev cur \<or> l \<in> set (split_acc sep [] s)" by simp
    then show ?thesis
    proof
      assume "l = rev cur"
      with Cons.prems(1) show ?thesis by simp
    next
      assume "l \<in> set (split_acc sep [] s)"
      with Cons.IH [of "[]"] show ?thesis by simp
    qed
  next
    case False
    with Cons.prems have "l \<in> set (split_acc sep (c # cur) s)" by simp
    with Cons.IH [of "c # cur"] Cons.prems(1) False show ?thesis by simp
  qed
qed

lemma py_split_no_sep: "l \<in> set (py_split sep s) \<Longrightarrow> sep \<notin> set l"
  unfolding py_split_def by (rule split_acc_no_sep) simp_all

lemma split_acc_not_Nil: "split_acc sep cur s \<noteq> []"
  by (induction s arbitrary: cur) simp_all

lemma py_split_not_Nil: "py_split sep s \<noteq> []"
  by (simp add: py_split_def split_acc_not_Nil)

lemma py_join_snoc: "xs \<noteq> [] \<Longrightarrow> py_join sep (xs @ [x]) = py_join sep xs @ sep @ x"
  by (induction sep xs rule: py_join.induct) simp_all

lemma py_split_join:
  "ls \<noteq> [] \<Longrightarrow> \<forall>l \<in> set ls. sep \<notin> set l \<Longrightarrow> py_split sep (py_join [sep] ls) = ls"
proof (induction "[sep]" ls rule: py_join.induct)
  case 1
  then show ?case by simp
next
  case (2 x)
  then show ?case by (simp add: py_split_plain)
next
  case (3 x y ys)
  then show ?case by (simp add: py_split_line)
qed

subsection \<open>\<open>dedent\<close> on a text with a line that is not indented\<close>

lemma narrow_margin_Nil: "narrow_margin m [] = Some []"
  by (cases m) (auto simp: narrow_margin_def startswith_def)

lemma narrow_margin_from_Nil: "foldl narrow_margin (Some []) xs = Some []"
  by (induction xs) (simp_all add: narrow_margin_def startswith_def)

lemma margin_Nil: "[] \<in> set xs \<Longrightarrow> foldl narrow_margin m xs = Some []"
proof -
  assume "[] \<in> set xs"
  then obtain a b where "xs = a @ [] # b" by (auto simp: in_set_conv_decomp)
  then show ?thesis by (simp add: narrow_margin_Nil narrow_margin_from_Nil)
qed

lemma dedent_lines:
  assumes "l \<in> set (py_split (CHR ''\<newline>'') text)" and "l \<noteq> []" and "\<not> is_blank (hd l)"
  shows "py_split (CHR ''\<newline>'') (dedent text) =
    map (\<lambda>l. if l \<noteq> [] \<and> list_all is_blank l then [] else l) (py_split (CHR ''\<newline>'') text)"
proof -
  let ?blank = "\<lambda>l. if l \<noteq> [] \<and> list_all is_blank l then [] else l"
  let ?lines = "map ?blank (py_split (CHR ''\<newline>'') text)"
  from assms(2,3) have nb: "\<not> list_all is_blank l" by (cases l) simp_all
  with assms(1) have "l \<in> set ?lines" by force
  with assms(2) have "l \<in> set (filter (\<lambda>l. l \<noteq> []) ?lines)" by simp
  moreover from assms(2,3) have "takeWhile is_blank l = []" by (cases l) simp_all
  ultimately have "[] \<in> set (map (takeWhile is_blank) (filter (\<lambda>l. l \<noteq> []) ?lines))"
    by force
  then have m: "foldl narrow_margin None (map (takeWhile is_blank) (filter (\<lambda>l. l \<noteq> []) ?lines))
      = Some []"
    by (rule margin_Nil)
  have d: "dedent text = py_join ''\<newline>'' ?lines"
    unfolding dedent_def Let_def m by simp
  have "\<forall>l \<in> set ?lines. CHR ''\<newline>'' \<notin> set l"
    by (auto dest: py_split_no_sep)
  moreover have "?lines \<noteq> []" by (simp add: py_split_not_Nil)
  ultimately show ?thesis unfolding d by (rule py_split_join [rotated])
qed

subsection \<open>Escaping\<close>

lemma py_replace_str_absent: "old \<notin> set s \<Longrightarrow> py_replace_str old new s = s"
  unfolding py_replace_str_def by (induction s) auto

lemma escape_toml_string_plain:
  "backslash \<notin> set s \<Longrightarrow> CHR ''\"'' \<notin> set s \<Longrightarrow> escape_toml_string s = s"
  by (simp add: escape_toml_string_def py_replace_str_absent)

lemma py_replace_str_set: "set (py_replace_str old new s) \<subseteq> set s \<union> set new"
  unfolding py_replace_str_def by (induction s) auto

lemma escape_toml_string_newline:
  assumes "CHR ''\<newline>'' \<notin> set s"
  shows "CHR ''\<newline>'' \<notin> set (escape_toml_string s)"
proof -
  have "set (escape_toml_string s) \<subseteq> set s \<union> {backslash, CHR ''\"''}"
    unfolding escape_toml_string_def
    using py_replace_str_set [of "CHR ''\"''" "[backslash, CHR ''\"'']"
        "py_replace_str backslash [backslash, backslash] s"]
      py_replace_str_set [of backslash "[backslash, backslash]" s]
    by auto
  with assms show ?thesis by (auto simp: backslash_def)
qed

subsection \<open>The lines of the manifest\<close>

lemma py_split_empty_line: "py_split sep (sep # rest) = [] # py_split sep rest"
  using py_split_line [of sep "[]" rest] by simp

lemma lines_after_block:
  assumes "sep \<notin> set br"
  shows "py_split sep (X @ sep # (br @ sep # (sep # (sep # rest)))) =
    py_split sep X @ br # [] # [] # py_split sep rest"
  by (simp add: py_split_sep py_split_plain [OF assms] py_split_empty_line)

lemma five_lines:
  assumes "sep \<notin> set a" "sep \<notin> set b" "sep \<notin> set c" "sep \<notin> set d" "sep \<notin> set e"
  shows "py_split sep ((a @ sep # (b @ sep # (c @ sep # (d @ sep # (e @ [sep]))))) @ rest) =
    a # b # c # d # e # py_split sep rest"
proof -
  have "(a @ sep # (b @ sep # (c @ sep # (d @ sep # (e @ [sep]))))) @ rest =
      a @ sep # (b @ sep # (c @ sep # (d @ sep # (e @ sep # rest))))"
    by simp
  then show ?thesis
    by (simp add: py_split_sep py_split_plain assms)
qed

lemma format_dependency_groups_last:
  \<open>\<exists>J. format_dependency_groups groups extra_dev = J @ CHR ''\<newline>'' # '']''\<close>
proof -
  let ?Ls = \<open>concat (map (\<lambda>(g, deps). [g @ '' = ['', format_string_array deps 4, '']\<newline>''])
                  (filter (\<lambda>(g, deps). g \<noteq> ''dev'') groups))
        @ [''dev = ['']
        @ map (\<lambda>g. ''    { include-group = "'' @ g @ ''" },'')
            (filter (\<lambda>g. g \<noteq> ''dev'') (map fst groups))
        @ map (\<lambda>dep. ''    "'' @ dep @ ''",'') ([''ipython'', ''ruff'', ''pre_commit'', ''mypy''] @ extra_dev)\<close>
  have "format_dependency_groups groups extra_dev = py_join ''\<newline>'' (?Ls @ ['']''])"
    unfolding format_dependency_groups_lines by (simp only: append_assoc)
  also have "\<dots> = py_join ''\<newline>'' ?Ls @ ''\<newline>'' @ '']''"
    by (rule py_join_snoc) simp
  finally have e: \<open>format_dependency_groups groups extra_dev =
      py_join ''\<newline>'' ?Ls @ CHR ''\<newline>'' # '']''\<close>
    by simp
  show ?thesis by (rule exI [of _ "py_join ''\<newline>'' ?Ls"]) (rule e)
qed

lemma pyproject_urls_lines:
  \<open>pyproject_urls hp iu du ru =
     ''        [project.urls]'' @ CHR ''\<newline>'' #
     ((''        Homepage = "'' @ hp @ ''"'') @ CHR ''\<newline>'' #
      ((''        "Bug Tracker" = "'' @ iu @ ''"'') @ CHR ''\<newline>'' #
       ((''        Discussions = "'' @ du @ ''"'') @ CHR ''\<newline>'' #
        ((''        Changelog = "'' @ ru @ ''"'') @ [CHR ''\<newline>'']))))\<close>
  by (simp add: pyproject_urls_def)

text \<open>The block of the dependency groups ends with a bracket in the first column, so the
  margin of the manifest is empty: \<open>dedent\<close> only empties the lines made of blanks.\<close>

lemma manifest_split:
  \<open>\<exists>X. py_split (CHR ''\<newline>'')
      (pyproject_text pn d ab db (format_dependency_groups groups extra_dev) hp iu du ru pkg) =
    py_split (CHR ''\<newline>'') X @ '']'' # [] # [] #
      py_split (CHR ''\<newline>'') (pyproject_urls hp iu du ru @ pyproject_tail pkg)\<close>
proof -
  let ?nl = "CHR ''\<newline>''"
  let ?T = "pyproject_text pn d ab db (format_dependency_groups groups extra_dev) hp iu du ru pkg"
  from format_dependency_groups_last obtain J where
    J: \<open>format_dependency_groups groups extra_dev = J @ ?nl # '']''\<close>
    by blast
  let ?X = \<open>pyproject_head pn d ab db @ ''        '' @ J\<close>
  have T: \<open>?T = ?X @ ?nl # ('']'' @ ?nl # (?nl # (?nl #
      (pyproject_urls hp iu du ru @ pyproject_tail pkg))))\<close>
    unfolding J by (simp add: pyproject_text_def)
  have br: \<open>?nl \<notin> set '']''\<close> by simp
  have e: \<open>py_split ?nl ?T =
      py_split ?nl ?X @ '']'' # [] # [] #
        py_split ?nl (pyproject_urls hp iu du ru @ pyproject_tail pkg)\<close>
    unfolding T lines_after_block [OF br] ..
  show ?thesis by (rule exI [of _ ?X]) (rule e)
qed

lemma manifest_dedent:
  \<open>py_split (CHR ''\<newline>'')
      (dedent (pyproject_text pn d ab db (format_dependency_groups groups extra_dev) hp iu du ru pkg)) =
    map (\<lambda>l. if l \<noteq> [] \<and> list_all is_blank l then [] else l)
      (py_split (CHR ''\<newline>'')
        (pyproject_text pn d ab db (format_dependency_groups groups extra_dev) hp iu du ru pkg))\<close>
proof -
  let ?nl = "CHR ''\<newline>''"
  let ?T = "pyproject_text pn d ab db (format_dependency_groups groups extra_dev) hp iu du ru pkg"
  from manifest_split obtain X where
    lines: \<open>py_split ?nl ?T = py_split ?nl X @ '']'' # [] # [] #
        py_split ?nl (pyproject_urls hp iu du ru @ pyproject_tail pkg)\<close>
    by blast
  have \<open>'']'' \<in> set (py_split ?nl ?T)\<close>
    unfolding lines by simp
  moreover have \<open>'']'' \<noteq> []\<close> \<open>\<not> is_blank (hd '']'')\<close>
    by (simp_all add: is_blank_def)
  ultimately show ?thesis
    by (rule dedent_lines)
qed

lemma manifest_no_blank_line:
  assumes "l \<in> set (py_split (CHR ''\<newline>'') (build_pyproject config))"
  shows "l = [] \<or> \<not> list_all is_blank l"
proof -
  from assms have "l \<in> set (map (\<lambda>l. if l \<noteq> [] \<and> list_all is_blank l then [] else l)
      (py_split (CHR ''\<newline>'')
        (pyproject_text (project_name config) (escape_toml_string (description config))
           (format_authors (authors config)) (format_string_array (dependencies config) 4)
           (format_dependency_groups (dependency_groups config) (dev_extras config))
           (escape_toml_string (project_url config))
           (escape_toml_string (project_url config @ ''/issues''))
           (escape_toml_string (project_url config @ ''/discussions''))
           (escape_toml_string (project_url config @ ''/releases''))
           (normalize_package_name (project_name config)))))"
    unfolding build_pyproject_def Let_def manifest_dedent .
  then obtain l' where "l = (if l' \<noteq> [] \<and> list_all is_blank l' then [] else l')"
    unfolding set_map by (rule imageE)
  then show ?thesis
    by (cases "l' \<noteq> [] \<and> list_all is_blank l'") simp_all
qed

lemma manifest_lines:
  assumes "CHR ''\<newline>'' \<notin> set hp" "CHR ''\<newline>'' \<notin> set iu"
    "CHR ''\<newline>'' \<notin> set du" "CHR ''\<newline>'' \<notin> set ru"
  shows \<open>\<exists>before after.
    py_split (CHR ''\<newline>'')
      (dedent (pyproject_text pn d ab db (format_dependency_groups groups extra_dev) hp iu du ru pkg)) =
    before @
      [''        [project.urls]'',
       ''        Homepage = "'' @ hp @ ''"'',
       ''        "Bug Tracker" = "'' @ iu @ ''"'',
       ''        Discussions = "'' @ du @ ''"'',
       ''        Changelog = "'' @ ru @ ''"''] @ after\<close>
proof -
  let ?nl = "CHR ''\<newline>''"
  define blank where "blank = (\<lambda>l. if l \<noteq> [] \<and> list_all is_blank l then [] else l)"
  let ?T = "pyproject_text pn d ab db (format_dependency_groups groups extra_dev) hp iu du ru pkg"
  let ?L0 = \<open>''        [project.urls]''\<close>
  let ?L1 = \<open>''        Homepage = "'' @ hp @ ''"''\<close>
  let ?L2 = \<open>''        "Bug Tracker" = "'' @ iu @ ''"''\<close>
  let ?L3 = \<open>''        Discussions = "'' @ du @ ''"''\<close>
  let ?L4 = \<open>''        Changelog = "'' @ ru @ ''"''\<close>
  from manifest_split obtain X where
    split: \<open>py_split ?nl ?T = py_split ?nl X @ '']'' # [] # [] #
        py_split ?nl (pyproject_urls hp iu du ru @ pyproject_tail pkg)\<close>
    by blast
  have ls: "?nl \<notin> set ?L0" "?nl \<notin> set ?L1" "?nl \<notin> set ?L2" "?nl \<notin> set ?L3" "?nl \<notin> set ?L4"
    using assms by simp_all
  have u: "py_split ?nl (pyproject_urls hp iu du ru @ pyproject_tail pkg) =
      ?L0 # ?L1 # ?L2 # ?L3 # ?L4 # py_split ?nl (pyproject_tail pkg)"
    unfolding pyproject_urls_lines by (rule five_lines [OF ls])
  have d: "py_split ?nl (dedent ?T) = map blank (py_split ?nl ?T)"
    unfolding blank_def by (rule manifest_dedent)
  have b: "blank ?L0 = ?L0" "blank ?L1 = ?L1" "blank ?L2 = ?L2" "blank ?L3 = ?L3" "blank ?L4 = ?L4"
    by (simp_all add: blank_def is_blank_def)
  have e: \<open>py_split ?nl (dedent ?T) =
      map blank (py_split ?nl X @ ['']'', [], []]) @ [?L0, ?L1, ?L2, ?L3, ?L4]
      @ map blank (py_split ?nl (pyproject_tail pkg))\<close>
    unfolding d split u using b by simp
  show ?thesis
    by (rule exI [of _ \<open>map blank (py_split ?nl X @ ['']'', [], []])\<close>],
        rule exI [of _ \<open>map blank (py_split ?nl (pyproject_tail pkg))\<close>])
      (rule e)
qed

lemma blank_line_inside:
  \<open>'' '' \<in> set (py_split (CHR ''\<newline>'')
      (a @ (u @ CHR ''\<newline>'' # '' '' @ CHR ''\<newline>'' # v) @ b))\<close>
proof -
  have "a @ (u @ CHR ''\<newline>'' # '' '' @ CHR ''\<newline>'' # v) @ b =
      (a @ u) @ CHR ''\<newline>'' # ('' '' @ CHR ''\<newline>'' # (v @ b))"
    by simp
  then show ?thesis
    by (simp only: py_split_sep) (simp add: py_split_plain)
qed

lemma py_split_snoc_sep:
  "py_split sep ((u @ [sep]) @ rest) = py_split sep u @ py_split sep rest"
  using py_split_sep [of sep u rest] by simp

lemma pyproject_urls_text:
  \<open>pyproject_urls hp iu du ru =
     (''        [project.urls]\<newline>        Homepage = "'' @ hp @
      ''"\<newline>        "Bug Tracker" = "'' @ iu @
      ''"\<newline>        Discussions = "'' @ du @
      ''"\<newline>        Changelog = "'' @ ru @ ''"'') @ [CHR ''\<newline>'']\<close>
  by (simp add: pyproject_urls_def)

text \<open>The lines of the table of addresses, whatever the addresses hold: they are the lines
  of the interpolated text, those made of blanks emptied.\<close>

lemma manifest_url_lines:
  \<open>\<exists>before after.
    py_split (CHR ''\<newline>'')
      (dedent (pyproject_text pn d ab db (format_dependency_groups groups extra_dev) hp iu du ru pkg)) =
    before @
    map (\<lambda>l. if l \<noteq> [] \<and> list_all is_blank l then [] else l)
      (py_split (CHR ''\<newline>'')
        (''        [project.urls]\<newline>        Homepage = "'' @ hp @
         ''"\<newline>        "Bug Tracker" = "'' @ iu @
         ''"\<newline>        Discussions = "'' @ du @
         ''"\<newline>        Changelog = "'' @ ru @ ''"''))
    @ after\<close>
proof -
  let ?nl = "CHR ''\<newline>''"
  let ?blank = "\<lambda>l. if l \<noteq> [] \<and> list_all is_blank l then [] else l"
  let ?T = "pyproject_text pn d ab db (format_dependency_groups groups extra_dev) hp iu du ru pkg"
  let ?U = \<open>''        [project.urls]\<newline>        Homepage = "'' @ hp @
         ''"\<newline>        "Bug Tracker" = "'' @ iu @
         ''"\<newline>        Discussions = "'' @ du @
         ''"\<newline>        Changelog = "'' @ ru @ ''"''\<close>
  from manifest_split obtain X where
    split: \<open>py_split ?nl ?T = py_split ?nl X @ '']'' # [] # [] #
        py_split ?nl (pyproject_urls hp iu du ru @ pyproject_tail pkg)\<close>
    by blast
  define ls where "ls = py_split ?nl ?U"
  define blank where "blank = ?blank"
  have u: "py_split ?nl (pyproject_urls hp iu du ru @ pyproject_tail pkg) =
      ls @ py_split ?nl (pyproject_tail pkg)"
    unfolding pyproject_urls_text ls_def by (rule py_split_snoc_sep)
  have d: "py_split ?nl (dedent ?T) = map blank (py_split ?nl ?T)"
    unfolding blank_def by (rule manifest_dedent)
  have \<open>py_split ?nl (dedent ?T) =
      map blank (py_split ?nl X @ ['']'', [], []]) @ map blank ls
      @ map blank (py_split ?nl (pyproject_tail pkg))\<close>
    unfolding d split u by simp
  then have e: \<open>py_split ?nl (dedent ?T) =
      map ?blank (py_split ?nl X @ ['']'', [], []]) @ map ?blank (py_split ?nl ?U)
      @ map ?blank (py_split ?nl (pyproject_tail pkg))\<close>
    unfolding blank_def ls_def .
  show ?thesis
    by (rule exI [of _ \<open>map ?blank (py_split ?nl X @ ['']'', [], []])\<close>],
        rule exI [of _ \<open>map ?blank (py_split ?nl (pyproject_tail pkg))\<close>])
      (rule e)
qed

subsection \<open>The addresses of the manifest\<close>

lemma slash_resolves: "coerce_config slash_raw = Inr sample_config"
  by (simp add: resolver_defs slash_raw_def sample_config_def)

lemma line_break_resolves: "coerce_config line_break_raw = Inr line_break_config"
  by (simp add: resolver_defs line_break_raw_def line_break_config_def sample_config_def)

lemma escape_toml_string_suffix:
  assumes "backslash \<notin> set s" \<open>CHR ''"'' \<notin> set s\<close>
    and "backslash \<notin> set t" \<open>CHR ''"'' \<notin> set t\<close>
  shows "escape_toml_string (s @ t) = s @ t"
  by (rule escape_toml_string_plain) (simp_all add: assms)

lemma line_break_escapes:
  \<open>escape_toml_string (project_url line_break_config) = ''x\<newline> \<newline>y''\<close>
  \<open>escape_toml_string (project_url line_break_config @ ''/issues'') = ''x\<newline> \<newline>y/issues''\<close>
  \<open>escape_toml_string (project_url line_break_config @ ''/discussions'') = ''x\<newline> \<newline>y/discussions''\<close>
  \<open>escape_toml_string (project_url line_break_config @ ''/releases'') = ''x\<newline> \<newline>y/releases''\<close>
  by (simp_all add: line_break_config_def escape_toml_string_plain backslash_def)

lemma line_break_manifest:
  \<open>\<exists>before after. py_split (CHR ''\<newline>'') (build_pyproject line_break_config) =
      before @
      [''        [project.urls]'',
       ''        Homepage = "x'', [], ''y"'',
       ''        "Bug Tracker" = "x'', [], ''y/issues"'',
       ''        Discussions = "x'', [], ''y/discussions"'',
       ''        Changelog = "x'', [], ''y/releases"'']
      @ after\<close>
proof -
  have \<open>\<exists>before after. py_split (CHR ''\<newline>'') (build_pyproject line_break_config) =
      before @
      map (\<lambda>l. if l \<noteq> [] \<and> list_all is_blank l then [] else l)
        (py_split (CHR ''\<newline>'')
          (''        [project.urls]\<newline>        Homepage = "'' @
             escape_toml_string (project_url line_break_config) @
           ''"\<newline>        "Bug Tracker" = "'' @
             escape_toml_string (project_url line_break_config @ ''/issues'') @
           ''"\<newline>        Discussions = "'' @
             escape_toml_string (project_url line_break_config @ ''/discussions'') @
           ''"\<newline>        Changelog = "'' @
             escape_toml_string (project_url line_break_config @ ''/releases'') @ ''"''))
      @ after\<close>
    unfolding build_pyproject_def Let_def by (rule manifest_url_lines)
  then show ?thesis
    unfolding line_break_escapes by (simp add: py_split_def is_blank_def)
qed

text \<open>
  The trailing slashes are stripped, whatever the document: the string of the \<open>project_url\<close>
  value is the descriptor's \<open>project_url\<close> followed by slashes only, and the descriptor's
  \<open>project_url\<close> does not end with a slash.
\<close>

lemma project_url_stripped:
  assumes r: "coerce_config raw = Inr cfg" and g: "dict_get raw ''project_url'' = Some v"
  shows "\<exists>n. py_str v = project_url cfg @ replicate n (CHR ''/'')"
    and "project_url cfg = [] \<or> last (project_url cfg) \<noteq> CHR ''/''"
proof -
  from coerce_config_Inr [OF r] obtain c where
    "coerce_scalar raw ''project_url'' = Inr c" "project_url cfg = py_rstrip_chars ''/'' c"
    by auto
  with g have u: "project_url cfg = py_rstrip_chars ''/'' (py_str v)"
    by (simp add: coerce_scalar_def)
  show "\<exists>n. py_str v = project_url cfg @ replicate n (CHR ''/'')"
    unfolding u using rstrip_chars_slash [of "py_str v"] by (rule conjunct1)
  show "project_url cfg = [] \<or> last (project_url cfg) \<noteq> CHR ''/''"
    unfolding u using rstrip_chars_slash [of "py_str v"] by (rule conjunct2)
qed

text \<open>
  Where the base holds no line break, the manifest has, one after the other, the lines of
  the table \<open>[project.urls]\<close>: the home page is the base and the three derived addresses
  are the base followed by \<open>/issues\<close>, \<open>/discussions\<close> and \<open>/releases\<close>, each written as a
  TOML string by \<open>escape_toml_string\<close>.
\<close>

lemma manifest_url_table:
  assumes n: "CHR ''\<newline>'' \<notin> set (project_url cfg)"
  shows \<open>\<exists>before after. py_split (CHR ''\<newline>'') (build_pyproject cfg) =
           before @
           [''        [project.urls]'',
            ''        Homepage = "'' @ escape_toml_string (project_url cfg) @ ''"'',
            ''        "Bug Tracker" = "'' @ escape_toml_string (project_url cfg @ ''/issues'') @ ''"'',
            ''        Discussions = "'' @ escape_toml_string (project_url cfg @ ''/discussions'') @ ''"'',
            ''        Changelog = "'' @ escape_toml_string (project_url cfg @ ''/releases'') @ ''"'']
           @ after\<close>
proof -
  have "CHR ''\<newline>'' \<notin> set (escape_toml_string (project_url cfg))"
    "CHR ''\<newline>'' \<notin> set (escape_toml_string (project_url cfg @ ''/issues''))"
    "CHR ''\<newline>'' \<notin> set (escape_toml_string (project_url cfg @ ''/discussions''))"
    "CHR ''\<newline>'' \<notin> set (escape_toml_string (project_url cfg @ ''/releases''))"
    using n by (simp_all add: escape_toml_string_newline)
  then show ?thesis
    unfolding build_pyproject_def Let_def by (rule manifest_lines)
qed

text \<open>The document of the sample with two slashes after its address: the table of the
  manifest holds the address without them, and the three derived addresses.\<close>

lemma slash_manifest:
  \<open>\<exists>before after. py_split (CHR ''\<newline>'') (build_pyproject sample_config) =
           before @
           [''        [project.urls]'',
            ''        Homepage = "https://github.com/MoAly98/sample-project"'',
            ''        "Bug Tracker" = "https://github.com/MoAly98/sample-project/issues"'',
            ''        Discussions = "https://github.com/MoAly98/sample-project/discussions"'',
            ''        Changelog = "https://github.com/MoAly98/sample-project/releases"'']
           @ after\<close>
proof -
  have u: \<open>project_url sample_config = ''https://github.com/MoAly98/sample-project''\<close>
    by (simp add: sample_config_def)
  have n: "CHR ''\<newline>'' \<notin> set (project_url sample_config)"
    by (simp add: u)
  have esc:
    \<open>escape_toml_string (project_url sample_config) = ''https://github.com/MoAly98/sample-project''\<close>
    \<open>escape_toml_string (project_url sample_config @ ''/issues'') =
       ''https://github.com/MoAly98/sample-project/issues''\<close>
    \<open>escape_toml_string (project_url sample_config @ ''/discussions'') =
       ''https://github.com/MoAly98/sample-project/discussions''\<close>
    \<open>escape_toml_string (project_url sample_config @ ''/releases'') =
       ''https://github.com/MoAly98/sample-project/releases''\<close>
    by (simp_all add: u escape_toml_string_plain backslash_def)
  from manifest_url_table [OF n] show ?thesis
    unfolding esc by simp
qed

text \<open>
  A text with a line made of one space is nowhere in a manifest: \<open>build_pyproject\<close> calls
  \<open>dedent\<close> on the text in which the addresses are already interpolated, and \<open>dedent\<close>
  empties such a line.
\<close>

lemma manifest_without_blank_line:
  \<open>\<not> (\<exists>a b. build_pyproject config =
      a @ (u @ CHR ''\<newline>'' # '' '' @ CHR ''\<newline>'' # v) @ b)\<close>
proof
  assume \<open>\<exists>a b. build_pyproject config =
      a @ (u @ CHR ''\<newline>'' # '' '' @ CHR ''\<newline>'' # v) @ b\<close>
  then obtain a b where \<open>build_pyproject config =
      a @ (u @ CHR ''\<newline>'' # '' '' @ CHR ''\<newline>'' # v) @ b\<close>
    by blast
  then have \<open>'' '' \<in> set (py_split (CHR ''\<newline>'') (build_pyproject config))\<close>
    by (simp only: blank_line_inside)
  from manifest_no_blank_line [OF this] show False
    by (simp add: is_blank_def)
qed

lemma line_break_url: \<open>project_url line_break_config = ''x\<newline> \<newline>y''\<close>
  by (simp add: line_break_config_def)

lemma line_break_texts:
  \<open>project_url line_break_config @ ''/issues'' =
     ''x'' @ CHR ''\<newline>'' # '' '' @ CHR ''\<newline>'' # ''y/issues''\<close>
  \<open>project_url line_break_config @ ''/discussions'' =
     ''x'' @ CHR ''\<newline>'' # '' '' @ CHR ''\<newline>'' # ''y/discussions''\<close>
  \<open>project_url line_break_config @ ''/releases'' =
     ''x'' @ CHR ''\<newline>'' # '' '' @ CHR ''\<newline>'' # ''y/releases''\<close>
  by (simp_all add: line_break_url)

text \<open>
  C5. The document of the sample with the \<open>project_url\<close> \<^verbatim>\<open>"x\n \ny/"\<close>, an address of three
  lines that ends in a slash, resolves, and the descriptor's \<open>project_url\<close> is the address
  without its trailing slash. The manifest does not hold the derived addresses: the base
  followed by \<open>/issues\<close>, by \<open>/discussions\<close> or by \<open>/releases\<close> is nowhere in it. In the table
  \<open>[project.urls]\<close> of the manifest the second line of each address, one space, is empty.
\<close>

theorem derived_url_line_break:
  \<open>coerce_config line_break_raw = Inr line_break_config
   \<and> dict_get line_break_raw ''project_url'' = Some (PStr ''x\<newline> \<newline>y/'')
   \<and> project_url line_break_config = ''x\<newline> \<newline>y''
   \<and> \<not> (\<exists>a b. build_pyproject line_break_config =
          a @ (project_url line_break_config @ ''/issues'') @ b)
   \<and> \<not> (\<exists>a b. build_pyproject line_break_config =
          a @ (project_url line_break_config @ ''/discussions'') @ b)
   \<and> \<not> (\<exists>a b. build_pyproject line_break_config =
          a @ (project_url line_break_config @ ''/releases'') @ b)
   \<and> (\<exists>before after. py_split (CHR ''\<newline>'') (build_pyproject line_break_config) =
          before @
          [''        [project.urls]'',
           ''        Homepage = "x'', [], ''y"'',
           ''        "Bug Tracker" = "x'', [], ''y/issues"'',
           ''        Discussions = "x'', [], ''y/discussions"'',
           ''        Changelog = "x'', [], ''y/releases"'']
          @ after)\<close>
proof -
  have g: \<open>dict_get line_break_raw ''project_url'' = Some (PStr ''x\<newline> \<newline>y/'')\<close>
    by (simp add: line_break_raw_def resolver_defs)
  have i: \<open>\<not> (\<exists>a b. build_pyproject line_break_config =
          a @ (project_url line_break_config @ ''/issues'') @ b)\<close>
    unfolding line_break_texts by (rule manifest_without_blank_line)
  have d: \<open>\<not> (\<exists>a b. build_pyproject line_break_config =
          a @ (project_url line_break_config @ ''/discussions'') @ b)\<close>
    unfolding line_break_texts by (rule manifest_without_blank_line)
  have r: \<open>\<not> (\<exists>a b. build_pyproject line_break_config =
          a @ (project_url line_break_config @ ''/releases'') @ b)\<close>
    unfolding line_break_texts by (rule manifest_without_blank_line)
  from line_break_resolves g line_break_url i d r line_break_manifest show ?thesis
    by (intro conjI)
qed

end
